theory Spec2Isabelle
  imports Main "HOL-Library.AList" "HOL-Library.Sublist"
begin

section \<open>rclouned: the data of one synchronisation cycle\<close>

text \<open>
  The program is one Python file, \<^verbatim>\<open>sync.py\<close>. A \<^verbatim>\<open>Sync\<close> object collects the data of a
  cycle in attributes that one method sets and the next one reads; the model keeps that
  shape: a record for the object, and every method a function from the object to the
  updated object (or to the exception it raises).
\<close>

type_synonym path = string

text \<open>The exceptions the modelled code can raise. \<^verbatim>\<open>SyncException\<close> and
  \<^verbatim>\<open>ConfigException\<close> are the two classes the file declares itself. \<open>OSError\<close> is an
  \<^verbatim>\<open>OSError\<close> of no more special class, as \<^verbatim>\<open>os.rmdir\<close> raises for a directory that
  is not empty.\<close>

datatype error =
    KeyError
  | TypeError
  | ValueError
  | IndexError
  | FileNotFoundError
  | OSError
  | CalledProcessError
  | SyncException
  | ConfigException

text \<open>A value of the dictionaries \<^verbatim>\<open>local_check\<close> and \<^verbatim>\<open>remote_check\<close>: \<^verbatim>\<open>None\<close> until the
  listing reports the path, then the parsed \<^verbatim>\<open>struct_time\<close>. The type \<open>'t\<close> of time stamps
  is any linear order (Python compares \<^verbatim>\<open>struct_time\<close> values as tuples of integers).\<close>

datatype 't pyval = PyNone | Time 't

text \<open>The keys of \<^verbatim>\<open>_CONFIG\<close>.\<close>

record config =
  folder :: string
  remote :: string
  subdir :: string
  options :: string
  interval :: int
  dryrun :: bool
  careful :: bool

text \<open>The attributes of a \<^verbatim>\<open>Sync\<close> object. A dictionary is an association list in insertion
  order (the order \<^verbatim>\<open>keys()\<close> yields); \<^verbatim>\<open>local_move\<close> holds the two-element lists
  \<^verbatim>\<open>[file, file + conflict_suffix]\<close> as pairs.\<close>

record 't sync =
  configuration :: config
  lastsync :: 't
  syncstart :: string
  diff :: "path list"
  dst :: "path list"
  src :: "path list"
  local_check :: "(path \<times> 't pyval) list"
  remote_check :: "(path \<times> 't pyval) list"
  upload :: "path list"
  download :: "path list"
  local_move :: "(path \<times> path) list"
  local_backup :: "path list"
  remote_backup :: "path list"

section \<open>Exceptions as values\<close>

definition ebind :: "error + 'a \<Rightarrow> ('a \<Rightarrow> error + 'b) \<Rightarrow> error + 'b" where
  "ebind m f = (case m of Inl e \<Rightarrow> Inl e | Inr x \<Rightarrow> f x)"

text \<open>A \<^verbatim>\<open>for\<close> loop over a list whose body updates the object and may raise.\<close>

fun for_each :: "('s \<Rightarrow> 'a \<Rightarrow> error + 's) \<Rightarrow> 'a list \<Rightarrow> 's \<Rightarrow> error + 's" where
  "for_each body [] s = Inr s"
| "for_each body (x # xs) s =
     (case body s x of Inl e \<Rightarrow> Inl e | Inr s' \<Rightarrow> for_each body xs s')"

text \<open>\<^verbatim>\<open>d[key]\<close> raises \<^verbatim>\<open>KeyError\<close> on a missing key.\<close>

definition subscript :: "(path \<times> 'v) list \<Rightarrow> path \<Rightarrow> error + 'v" where
  "subscript d k = (case map_of d k of None \<Rightarrow> Inl KeyError | Some v \<Rightarrow> Inr v)"

text \<open>\<^verbatim>\<open>v >= t\<close> and \<^verbatim>\<open>v < t\<close> for a dictionary value \<open>v\<close> and a time stamp \<open>t\<close>: comparing
  \<^verbatim>\<open>None\<close> with a \<^verbatim>\<open>struct_time\<close> raises \<^verbatim>\<open>TypeError\<close>.\<close>

definition py_ge :: "('t::linorder) pyval \<Rightarrow> 't \<Rightarrow> error + bool" where
  "py_ge v t = (case v of PyNone \<Rightarrow> Inl TypeError | Time u \<Rightarrow> Inr (t \<le> u))"

definition py_lt :: "('t::linorder) pyval \<Rightarrow> 't \<Rightarrow> error + bool" where
  "py_lt v t = (case v of PyNone \<Rightarrow> Inl TypeError | Time u \<Rightarrow> Inr (u < t))"

section \<open>The planner: \<^verbatim>\<open>Sync.sort\<close>\<close>

text \<open>The condition of the \<^verbatim>\<open>if\<close> (lines 185 to 188): \<^verbatim>\<open>and\<close> evaluates its right operand
  only when the left one is true.\<close>

definition local_newer :: "('t::linorder) sync \<Rightarrow> path \<Rightarrow> error + bool" where
  "local_newer s file =
     ebind (subscript (local_check s) file) (\<lambda>l.
     ebind (py_ge l (lastsync s)) (\<lambda>a.
       if a then ebind (subscript (remote_check s) file) (\<lambda>r. py_lt r (lastsync s))
       else Inr False))"

text \<open>The condition of the \<^verbatim>\<open>elif\<close> (lines 192 to 195).\<close>

definition remote_newer :: "('t::linorder) sync \<Rightarrow> path \<Rightarrow> error + bool" where
  "remote_newer s file =
     ebind (subscript (local_check s) file) (\<lambda>l.
     ebind (py_lt l (lastsync s)) (\<lambda>a.
       if a then ebind (subscript (remote_check s) file) (\<lambda>r. py_ge r (lastsync s))
       else Inr False))"

text \<open>The body of the loop over \<^verbatim>\<open>self.diff\<close> (lines 184 to 202).\<close>

definition sort_diff :: "string \<Rightarrow> ('t::linorder) sync \<Rightarrow> path \<Rightarrow> error + 't sync" where
  "sort_diff conflict_suffix s file =
     ebind (local_newer s file) (\<lambda>c1.
       if c1 then
         Inr (s\<lparr>upload := upload s @ [file],
                remote_backup :=
                  (if careful (configuration s) then remote_backup s @ [file]
                   else remote_backup s)\<rparr>)
       else
         ebind (remote_newer s file) (\<lambda>c2.
           if c2 then
             Inr (s\<lparr>download := download s @ [file],
                    local_backup :=
                      (if careful (configuration s) then local_backup s @ [file]
                       else local_backup s)\<rparr>)
           else
             Inr (s\<lparr>local_move := local_move s @ [(file, file @ conflict_suffix)],
                    download := download s @ [file],
                    upload := upload s @ [file @ conflict_suffix]\<rparr>)))"

text \<open>The body of the loop over \<^verbatim>\<open>self.src\<close>, the paths missing on the remote
  (lines 204 to 208).\<close>

definition sort_src :: "('t::linorder) sync \<Rightarrow> path \<Rightarrow> error + 't sync" where
  "sort_src s file =
     ebind (subscript (local_check s) file) (\<lambda>l.
     ebind (py_ge l (lastsync s)) (\<lambda>c.
       if c then Inr (s\<lparr>upload := upload s @ [file]\<rparr>)
       else Inr (s\<lparr>local_backup := local_backup s @ [file]\<rparr>)))"

text \<open>The body of the loop over \<^verbatim>\<open>self.dst\<close>, the paths missing locally
  (lines 210 to 214).\<close>

definition sort_dst :: "('t::linorder) sync \<Rightarrow> path \<Rightarrow> error + 't sync" where
  "sort_dst s file =
     ebind (subscript (remote_check s) file) (\<lambda>r.
     ebind (py_ge r (lastsync s)) (\<lambda>c.
       if c then Inr (s\<lparr>download := download s @ [file]\<rparr>)
       else Inr (s\<lparr>remote_backup := remote_backup s @ [file]\<rparr>)))"

text \<open>\<^verbatim>\<open>Sync.sort\<close> (named \<open>sync_sort\<close> here: \<open>sort\<close> is a constant of the list library). Its first argument is what \<^verbatim>\<open>time.strftime("%Y%m%d-%H%M%S")\<close> returns when
  the method starts: the clock is read once, before the loops.\<close>

definition conflict_suffix_of :: "string \<Rightarrow> string" where
  "conflict_suffix_of stamp = ''_conflict-'' @ stamp"

definition sync_sort :: "string \<Rightarrow> ('t::linorder) sync \<Rightarrow> error + 't sync" where
  "sync_sort stamp s =
     (let conflict_suffix = conflict_suffix_of stamp;
          s0 = s\<lparr>upload := [], download := [], local_move := [],
                 local_backup := [], remote_backup := []\<rparr>
      in ebind (for_each (sort_diff conflict_suffix) (diff s0) s0) (\<lambda>s1.
         ebind (for_each sort_src (src s1) s1) (\<lambda>s2.
         for_each sort_dst (dst s2) s2)))"

section \<open>The world outside the object\<close>

text \<open>
  Everything else the program does goes through the file system, the clock and external
  commands (\<^verbatim>\<open>rclone\<close> and \<^verbatim>\<open>mv\<close>, run with \<^verbatim>\<open>subprocess.run\<close>). The model threads a
  record of that world through the methods and takes the behaviour of the external
  commands and of the clock as a parameter, the environment.

  A text file is kept as its list of lines: what \<^verbatim>\<open>read().splitlines()\<close> yields for a file
  that is read, and the list that \<^verbatim>\<open>"\n".join\<close> was given for a file that is written (the
  program never reads back a file it wrote). A \<open>char\<close> is a byte, and a string is the
  UTF-8 encoding of the text that Python holds.
\<close>

text \<open>One call of \<^verbatim>\<open>subprocess.run\<close>: the argument vector, and what the command can see
  when it starts, the files of \<^verbatim>\<open>.rclouned/sync.tmp/\<close> and the files of the local tree.\<close>

record call =
  argv :: "string list"
  scratch :: "(string \<times> string list) list option"
  present :: "string list"

text \<open>
  \<^item> \<open>sync_tmp\<close>: the directory \<^verbatim>\<open>.rclouned/sync.tmp/\<close>, which is the lock marker and holds
    the scratch files; \<open>None\<close> when it does not exist, else its files by name.
  \<^item> \<open>lastsync_txt\<close>: the file \<^verbatim>\<open>.rclouned/lastsync.txt\<close>; \<open>None\<close> when it does not exist.
  \<^item> \<open>local_files\<close>: the paths of the files of the local tree outside \<^verbatim>\<open>.rclouned/\<close>.
  \<^item> \<open>calls\<close>: the external commands run so far, oldest first.
  \<^item> \<open>logged\<close>: the records logged at level \<^verbatim>\<open>WARNING\<close> or above, oldest first (the
    records of the levels \<^verbatim>\<open>INFO\<close> and \<^verbatim>\<open>DEBUG\<close> are not modelled).
\<close>

text \<open>A log record: \<^verbatim>\<open>logger.warning(msg)\<close>, \<^verbatim>\<open>logger.critical(msg)\<close>, and
  \<^verbatim>\<open>logger.exception(e)\<close>, which logs the exception with its traceback at level
  \<^verbatim>\<open>ERROR\<close>; the record keeps the class of the exception.\<close>

datatype log_record = Log_warning string | Log_exception error | Log_critical string

record world =
  sync_tmp :: "(string \<times> string list) list option"
  lastsync_txt :: "string list option"
  local_files :: "string list"
  calls :: "call list"
  logged :: "log_record list"

text \<open>
  The environment of one cycle.
  \<^item> \<open>strptime\<close> is \<^verbatim>\<open>time.strptime(_, "%Y-%m-%d %H:%M:%S")\<close>, \<open>None\<close> where it raises
    \<^verbatim>\<open>ValueError\<close>; \<open>epoch\<close> is \<^verbatim>\<open>time.localtime(0)\<close>.
  \<^item> \<open>clock_check\<close>, \<open>clock_sort\<close> and \<open>clock_action\<close> are what \<^verbatim>\<open>time.strftime\<close> returns in
    \<^verbatim>\<open>run_check\<close> (format \<^verbatim>\<open>%Y-%m-%d %H:%M:%S\<close>), in \<^verbatim>\<open>sort\<close> and in \<^verbatim>\<open>action\<close> (format
    \<^verbatim>\<open>%Y%m%d-%H%M%S\<close>).
  \<^item> \<open>returncode\<close> and \<open>stdout\<close> give the exit status and the output (as lines) of an
    external command; \<open>effect\<close> gives what it does to the files of the local tree.
  \<^item> \<open>report_differ\<close>, \<open>report_dst\<close> and \<open>report_src\<close> are the three files that
    \<^verbatim>\<open>rclone check\<close> is asked to write (\<open>None\<close>: it does not write the file). The backend
    writes nothing else into \<^verbatim>\<open>.rclouned/sync.tmp/\<close>.
  \<^item> \<open>interrupted\<close>: a \<^verbatim>\<open>KeyboardInterrupt\<close> arrives during the sleep that follows the
    cycle.
\<close>

record 't env =
  strptime :: "string \<Rightarrow> 't option"
  epoch :: 't
  clock_check :: string
  clock_sort :: string
  clock_action :: string
  returncode :: "string list \<Rightarrow> int"
  stdout :: "string list \<Rightarrow> string list"
  effect :: "string list \<Rightarrow> string list \<Rightarrow> string list"
  report_differ :: "string list option"
  report_dst :: "string list option"
  report_src :: "string list option"
  interrupted :: bool

text \<open>A method with effects maps the world to its result, or the exception it raises, and
  the world it leaves behind.\<close>

type_synonym 'a act = "world \<Rightarrow> (error + 'a) \<times> world"

definition wreturn :: "'a \<Rightarrow> 'a act" where
  "wreturn x = (\<lambda>w. (Inr x, w))"

definition wraise :: "error \<Rightarrow> 'a act" where
  "wraise e = (\<lambda>w. (Inl e, w))"

definition wbind :: "'a act \<Rightarrow> ('a \<Rightarrow> 'b act) \<Rightarrow> 'b act" where
  "wbind m f = (\<lambda>w. case m w of (Inl e, w') \<Rightarrow> (Inl e, w') | (Inr x, w') \<Rightarrow> f x w')"

text \<open>A computation without effects, run inside a method.\<close>

definition wlift :: "error + 'a \<Rightarrow> 'a act" where
  "wlift r = (\<lambda>w. (r, w))"

text \<open>A \<^verbatim>\<open>for\<close> loop whose body has effects and no result.\<close>

fun for_each_act :: "('a \<Rightarrow> unit act) \<Rightarrow> 'a list \<Rightarrow> unit act" where
  "for_each_act body [] = wreturn ()"
| "for_each_act body (x # xs) = wbind (body x) (\<lambda>_. for_each_act body xs)"

subsection \<open>Strings\<close>

text \<open>\<^verbatim>\<open>s.split(c)\<close> for a separator of one character: every occurrence splits, and the
  result is never empty.\<close>

fun split_on :: "char \<Rightarrow> string \<Rightarrow> string list" where
  "split_on c [] = [[]]"
| "split_on c (x # xs) =
     (if x = c then [] # split_on c xs
      else (case split_on c xs of [] \<Rightarrow> [[x]] | u # us \<Rightarrow> (x # u) # us))"

text \<open>\<^verbatim>\<open>s.strip()\<close> removes, at both ends, the characters for which \<^verbatim>\<open>str.isspace\<close> holds:
  U+0009 to U+000D, U+001C to U+0020, U+0085, U+00A0, U+1680, U+2000 to U+200A, U+2028,
  U+2029, U+202F, U+205F and U+3000. \<open>white_space\<close> lists their encodings. In a string
  that encodes a text, one of these encodings is at the front (at the end) exactly when
  the first (the last) character of the text is that character.\<close>

definition white_space :: "string list" where
  "white_space =
     [[CHR 0x09], [CHR 0x0A], [CHR 0x0B], [CHR 0x0C], [CHR 0x0D],
      [CHR 0x1C], [CHR 0x1D], [CHR 0x1E], [CHR 0x1F], [CHR 0x20],
      [CHR 0xC2, CHR 0x85], [CHR 0xC2, CHR 0xA0],
      [CHR 0xE1, CHR 0x9A, CHR 0x80],
      [CHR 0xE2, CHR 0x80, CHR 0x80], [CHR 0xE2, CHR 0x80, CHR 0x81],
      [CHR 0xE2, CHR 0x80, CHR 0x82], [CHR 0xE2, CHR 0x80, CHR 0x83],
      [CHR 0xE2, CHR 0x80, CHR 0x84], [CHR 0xE2, CHR 0x80, CHR 0x85],
      [CHR 0xE2, CHR 0x80, CHR 0x86], [CHR 0xE2, CHR 0x80, CHR 0x87],
      [CHR 0xE2, CHR 0x80, CHR 0x88], [CHR 0xE2, CHR 0x80, CHR 0x89],
      [CHR 0xE2, CHR 0x80, CHR 0x8A],
      [CHR 0xE2, CHR 0x80, CHR 0xA8], [CHR 0xE2, CHR 0x80, CHR 0xA9],
      [CHR 0xE2, CHR 0x80, CHR 0xAF],
      [CHR 0xE2, CHR 0x81, CHR 0x9F],
      [CHR 0xE3, CHR 0x80, CHR 0x80]]"

text \<open>The sequences of \<open>seqs\<close> are removed at the front of a string, one after the other,
  as long as one of them is there.\<close>

function strip_front :: "string list \<Rightarrow> string \<Rightarrow> string" where
  "strip_front seqs s =
     (case find (\<lambda>q. q \<noteq> [] \<and> prefix q s) seqs of
        None \<Rightarrow> s
      | Some q \<Rightarrow> strip_front seqs (drop (length q) s))"
  by pat_completeness auto
termination
  by (relation "measure (\<lambda>(seqs, s). length s)") (auto simp: find_Some_iff prefix_def)

declare strip_front.simps [simp del]

definition strip :: "string \<Rightarrow> string" where
  "strip s = rev (strip_front (map rev white_space) (rev (strip_front white_space s)))"

subsection \<open>Files of the scratch directory\<close>

text \<open>\<^verbatim>\<open>open(folder + ".rclouned/sync.tmp/" + name, "w")\<close> followed by one \<^verbatim>\<open>write\<close>: the
  directory has to exist.\<close>

definition open_write :: "string \<Rightarrow> string list \<Rightarrow> unit act" where
  "open_write name content = (\<lambda>w.
     case sync_tmp w of
       None \<Rightarrow> (Inl FileNotFoundError, w)
     | Some fs \<Rightarrow> (Inr (), w\<lparr>sync_tmp := Some (AList.update name content fs)\<rparr>))"

text \<open>\<^verbatim>\<open>open(folder + ".rclouned/sync.tmp/" + name, "r")\<close> followed by
  \<^verbatim>\<open>read().splitlines()\<close>.\<close>

definition open_read :: "string \<Rightarrow> string list act" where
  "open_read name = (\<lambda>w.
     case sync_tmp w of
       None \<Rightarrow> (Inl FileNotFoundError, w)
     | Some fs \<Rightarrow>
         (case map_of fs name of
            None \<Rightarrow> (Inl FileNotFoundError, w)
          | Some content \<Rightarrow> (Inr content, w)))"

text \<open>\<^verbatim>\<open>os.remove(folder + ".rclouned/sync.tmp/" + name)\<close>.\<close>

definition os_remove :: "string \<Rightarrow> unit act" where
  "os_remove name = (\<lambda>w.
     case sync_tmp w of
       None \<Rightarrow> (Inl FileNotFoundError, w)
     | Some fs \<Rightarrow>
         (case map_of fs name of
            None \<Rightarrow> (Inl FileNotFoundError, w)
          | Some _ \<Rightarrow> (Inr (), w\<lparr>sync_tmp := Some (AList.delete name fs)\<rparr>)))"

section \<open>The methods of \<^verbatim>\<open>Sync\<close>\<close>

text \<open>\<^verbatim>\<open>Sync(configuration)\<close>. The constructor stores the configuration only; the other
  attributes do not exist until a method assigns them, and \<^verbatim>\<open>run\<close> assigns each of them
  before anything reads it, so the values given to them here are never read.\<close>

definition new_sync :: "config \<Rightarrow> 't \<Rightarrow> 't sync" where
  "new_sync c t0 = \<lparr>configuration = c, lastsync = t0, syncstart = [],
     diff = [], dst = [], src = [], local_check = [], remote_check = [],
     upload = [], download = [], local_move = [], local_backup = [], remote_backup = []\<rparr>"

subsection \<open>The lock (lines 47 to 62)\<close>

text \<open>\<^verbatim>\<open>acquire_lock\<close> polls while the directory exists. Nothing in the model removes the
  directory of another holder, so the loop returns at once or never: not returning is
  the value \<open>None\<close>.\<close>

partial_function (option) acquire_lock :: "world \<Rightarrow> world option" where
  "acquire_lock w =
     (if sync_tmp w \<noteq> None then acquire_lock w else Some (w\<lparr>sync_tmp := Some []\<rparr>))"

text \<open>The three calls of the logger that the model keeps.\<close>

definition warn :: "string \<Rightarrow> world \<Rightarrow> world" where
  "warn msg w = w\<lparr>logged := logged w @ [Log_warning msg]\<rparr>"

definition log_exception :: "error \<Rightarrow> world \<Rightarrow> world" where
  "log_exception x w = w\<lparr>logged := logged w @ [Log_exception x]\<rparr>"

definition critical :: "string \<Rightarrow> world \<Rightarrow> world" where
  "critical msg w = w\<lparr>logged := logged w @ [Log_critical msg]\<rparr>"

text \<open>\<^verbatim>\<open>release_lock\<close>: \<^verbatim>\<open>os.rmdir\<close> removes an existing, empty directory; it raises
  \<^verbatim>\<open>OSError\<close> for a directory that is not empty and \<^verbatim>\<open>FileNotFoundError\<close>, a subclass of
  \<^verbatim>\<open>OSError\<close>, for one that does not exist. The method catches the error and logs a
  warning and the exception.\<close>

definition release_lock :: "world \<Rightarrow> world" where
  "release_lock w =
     (case sync_tmp w of
        Some [] \<Rightarrow> w\<lparr>sync_tmp := None\<rparr>
      | Some (f # fs) \<Rightarrow> log_exception OSError (warn ''Failed to remove Sync Lock.'' w)
      | None \<Rightarrow> log_exception FileNotFoundError (warn ''Failed to remove Sync Lock.'' w))"

subsection \<open>External commands (lines 64 to 85)\<close>

text \<open>\<^verbatim>\<open>exec_cmd\<close>: the command runs, whatever its exit status; with \<^verbatim>\<open>check=True\<close> a
  status other than 0 raises \<^verbatim>\<open>CalledProcessError\<close>. The result is the output.\<close>

definition exec_cmd :: "'t env \<Rightarrow> string list \<Rightarrow> bool \<Rightarrow> string list act" where
  "exec_cmd e cmd check_ec = (\<lambda>w.
     let w' = w\<lparr>calls := calls w @
                   [\<lparr>argv = cmd, scratch = sync_tmp w, present = local_files w\<rparr>],
                 local_files := effect e cmd (local_files w)\<rparr>
     in if check_ec \<and> returncode e cmd \<noteq> 0 then (Inl CalledProcessError, w')
        else (Inr (stdout e cmd), w'))"

text \<open>The options of the configuration, split at the spaces.\<close>

definition rclone_opts :: "config \<Rightarrow> string list" where
  "rclone_opts c = filter (\<lambda>x. length x > 0) (split_on CHR '' '' (options c))"

text \<open>\<^verbatim>\<open>exec_rclone\<close>: \<^verbatim>\<open>--dry-run\<close> is appended to the options unless the command is a
  \<^verbatim>\<open>check\<close>. \<^verbatim>\<open>cmd[0]\<close> is evaluated only when \<^verbatim>\<open>dryrun\<close> is set.\<close>

definition exec_rclone :: "'t env \<Rightarrow> config \<Rightarrow> string list \<Rightarrow> bool \<Rightarrow> string list act" where
  "exec_rclone e c cmd check_ec =
     (let opts = rclone_opts c in
      if dryrun c then
        (case cmd of
           [] \<Rightarrow> wraise IndexError
         | c0 # _ \<Rightarrow>
             exec_cmd e ([''rclone''] @ (if c0 \<noteq> ''check'' then opts @ [''--dry-run''] else opts)
                          @ cmd) check_ec)
      else exec_cmd e ([''rclone''] @ opts @ cmd) check_ec)"

subsection \<open>\<^verbatim>\<open>load_last_sync\<close> (lines 87 to 94)\<close>

definition load_last_sync :: "'t env \<Rightarrow> 't sync \<Rightarrow> 't sync act" where
  "load_last_sync e s = (\<lambda>w.
     case lastsync_txt w of
       None \<Rightarrow> (Inr (s\<lparr>lastsync := epoch e\<rparr>), w)
     | Some [] \<Rightarrow> (Inl IndexError, w)
     | Some (l # _) \<Rightarrow>
         (case strptime e (strip l) of
            None \<Rightarrow> (Inl ValueError, w)
          | Some t \<Rightarrow> (Inr (s\<lparr>lastsync := t\<rparr>), w)))"

subsection \<open>\<^verbatim>\<open>run_check\<close> (lines 96 to 122)\<close>

definition check_cmd :: "config \<Rightarrow> string list" where
  "check_cmd c =
     [''check'',
      ''--differ'', folder c @ ''.rclouned/sync.tmp/diff.txt'',
      ''--missing-on-dst'', folder c @ ''.rclouned/sync.tmp/dst.txt'',
      ''--missing-on-src'', folder c @ ''.rclouned/sync.tmp/src.txt'',
      ''--exclude'', ''.rclouned/**'',
      remote c @ '':'' @ subdir c,
      folder c]"

text \<open>What \<^verbatim>\<open>rclone check\<close> has written into the scratch directory when it returns.\<close>

definition deposit :: "string \<Rightarrow> string list option \<Rightarrow> unit act" where
  "deposit name report = (\<lambda>w.
     case (sync_tmp w, report) of
       (Some fs, Some content) \<Rightarrow> (Inr (), w\<lparr>sync_tmp := Some (AList.update name content fs)\<rparr>)
     | _ \<Rightarrow> (Inr (), w))"

definition check_reports :: "'t env \<Rightarrow> unit act" where
  "check_reports e =
     wbind (deposit ''diff.txt'' (report_differ e)) (\<lambda>_.
     wbind (deposit ''dst.txt'' (report_dst e)) (\<lambda>_.
     deposit ''src.txt'' (report_src e)))"

definition run_check :: "'t env \<Rightarrow> 't sync \<Rightarrow> 't sync act" where
  "run_check e s =
     (let s1 = s\<lparr>syncstart := clock_check e\<rparr> in
      wbind (exec_rclone e (configuration s1) (check_cmd (configuration s1)) False) (\<lambda>_.
      wbind (check_reports e) (\<lambda>_.
      wbind (open_read ''diff.txt'') (\<lambda>ls1.
      let s2 = s1\<lparr>diff := map strip ls1\<rparr> in
      wbind (open_read ''dst.txt'') (\<lambda>ls2.
      let s3 = s2\<lparr>dst := map strip ls2\<rparr> in
      wbind (open_read ''src.txt'') (\<lambda>ls3.
      let s4 = s3\<lparr>src := map strip ls3\<rparr> in
      wbind (os_remove ''diff.txt'') (\<lambda>_.
      wbind (os_remove ''dst.txt'') (\<lambda>_.
      wbind (os_remove ''src.txt'') (\<lambda>_.
      wreturn s4)))))))))"

subsection \<open>\<^verbatim>\<open>get_modtimes\<close> (lines 124 to 174)\<close>

text \<open>\<^verbatim>\<open>d[file] = None\<close> for every file of a list.\<close>

definition set_none :: "path list \<Rightarrow> (path \<times> 't pyval) list \<Rightarrow> (path \<times> 't pyval) list" where
  "set_none files d = fold (\<lambda>file. AList.update file PyNone) files d"

text \<open>One line of a listing: \<^verbatim>\<open>key, modtime = line.split(";")\<close> raises \<^verbatim>\<open>ValueError\<close>
  unless the line has exactly two fields, and so does \<^verbatim>\<open>strptime\<close> on a malformed time.\<close>

definition read_modtime ::
  "'t env \<Rightarrow> (path \<times> 't pyval) list \<Rightarrow> string \<Rightarrow> error + (path \<times> 't pyval) list" where
  "read_modtime e d line =
     (case split_on CHR '';'' line of
        [key, modtime] \<Rightarrow>
          (case strptime e modtime of
             None \<Rightarrow> Inl ValueError
           | Some t \<Rightarrow> Inr (AList.update key (Time t) d))
      | _ \<Rightarrow> Inl ValueError)"

definition lsf_cmd :: "string \<Rightarrow> string \<Rightarrow> string list" where
  "lsf_cmd files_from root =
     [''lsf'', ''--format'', ''pt'', ''-R'', ''--files-from'', files_from, root]"

definition get_modtimes :: "'t env \<Rightarrow> 't sync \<Rightarrow> 't sync act" where
  "get_modtimes e s =
     (let c = configuration s;
          local0 = set_none (src s) (set_none (diff s) []);
          remote0 = set_none (dst s) (set_none (diff s) [])
      in
      wbind (open_write ''local_check.txt'' (map fst local0)) (\<lambda>_.
      wbind (exec_rclone e c
               (lsf_cmd (folder c @ ''.rclouned/sync.tmp/local_check.txt'') (folder c))
               True) (\<lambda>local_modtimes.
      wbind (wlift (for_each (read_modtime e) (map strip local_modtimes) local0)) (\<lambda>local1.
      wbind (os_remove ''local_check.txt'') (\<lambda>_.
      wbind (open_write ''remote_check.txt'' (map fst remote0)) (\<lambda>_.
      wbind (exec_rclone e c
               (lsf_cmd (folder c @ ''.rclouned/sync.tmp/remote_check.txt'')
                  (remote c @ '':'' @ subdir c))
               True) (\<lambda>remote_modtimes.
      wbind (wlift (for_each (read_modtime e) (map strip remote_modtimes) remote0)) (\<lambda>remote1.
      wbind (os_remove ''remote_check.txt'') (\<lambda>_.
      wreturn (s\<lparr>local_check := local1, remote_check := remote1\<rparr>))))))))))"

subsection \<open>\<^verbatim>\<open>action\<close> (lines 224 to 311)\<close>

text \<open>The method is five blocks in a row; each block is a definition here. The first
  argument of the last four is \<^verbatim>\<open>backup_prefix\<close> where the block uses it.\<close>

definition apply_local_move :: "'t env \<Rightarrow> 't sync \<Rightarrow> unit act" where
  "apply_local_move e s =
     (let c = configuration s in
      if \<not> dryrun c then
        for_each_act
          (\<lambda>file. wbind (exec_cmd e [''mv'', folder c @ fst file, folder c @ snd file] True)
                     (\<lambda>_. wreturn ()))
          (local_move s)
      else wreturn ())"

definition apply_local_backup :: "'t env \<Rightarrow> string \<Rightarrow> 't sync \<Rightarrow> unit act" where
  "apply_local_backup e backup_prefix s =
     (let c = configuration s in
      if length (local_backup s) \<noteq> 0 then
        wbind (open_write ''local_backup.txt'' (local_backup s)) (\<lambda>_.
        wbind (exec_rclone e c
                 [''copy'', ''--files-from'', folder c @ ''.rclouned/sync.tmp/local_backup.txt'',
                  folder c, folder c @ backup_prefix] True) (\<lambda>_.
        wbind (exec_rclone e c
                 [''delete'', ''--files-from'',
                  folder c @ ''.rclouned/sync.tmp/local_backup.txt'', folder c, ''--rmdirs'']
                 True) (\<lambda>_.
        os_remove ''local_backup.txt'')))
      else wreturn ())"

definition apply_remote_backup :: "'t env \<Rightarrow> string \<Rightarrow> 't sync \<Rightarrow> unit act" where
  "apply_remote_backup e backup_prefix s =
     (let c = configuration s in
      if length (remote_backup s) \<noteq> 0 then
        wbind (open_write ''remote_backup.txt'' (remote_backup s)) (\<lambda>_.
        wbind (exec_rclone e c
                 [''copy'', ''--files-from'',
                  folder c @ ''.rclouned/sync.tmp/remote_backup.txt'',
                  remote c @ '':'' @ subdir c, remote c @ '':'' @ subdir c @ backup_prefix]
                 True) (\<lambda>_.
        wbind (exec_rclone e c
                 [''delete'', ''--files-from'',
                  folder c @ ''.rclouned/sync.tmp/remote_backup.txt'',
                  remote c @ '':'' @ subdir c, ''--rmdirs''] True) (\<lambda>_.
        os_remove ''remote_backup.txt'')))
      else wreturn ())"

definition apply_upload :: "'t env \<Rightarrow> 't sync \<Rightarrow> unit act" where
  "apply_upload e s =
     (let c = configuration s in
      if length (upload s) \<noteq> 0 then
        wbind (open_write ''upload.txt'' (upload s)) (\<lambda>_.
        wbind (exec_rclone e c
                 [''copy'', ''--files-from'', folder c @ ''.rclouned/sync.tmp/upload.txt'',
                  folder c, remote c @ '':'' @ subdir c] True) (\<lambda>_.
        os_remove ''upload.txt''))
      else wreturn ())"

definition apply_download :: "'t env \<Rightarrow> 't sync \<Rightarrow> unit act" where
  "apply_download e s =
     (let c = configuration s in
      if length (download s) \<noteq> 0 then
        wbind (open_write ''download.txt'' (download s)) (\<lambda>_.
        wbind (exec_rclone e c
                 [''copy'', ''--files-from'', folder c @ ''.rclouned/sync.tmp/download.txt'',
                  remote c @ '':'' @ subdir c, folder c] True) (\<lambda>_.
        os_remove ''download.txt''))
      else wreturn ())"

definition action :: "'t env \<Rightarrow> 't sync \<Rightarrow> unit act" where
  "action e s =
     (let backup_prefix = ''.rclouned/backups/'' @ clock_action e @ ''/'' in
      wbind (apply_local_move e s) (\<lambda>_.
      wbind (apply_local_backup e backup_prefix s) (\<lambda>_.
      wbind (apply_remote_backup e backup_prefix s) (\<lambda>_.
      wbind (apply_upload e s) (\<lambda>_.
      apply_download e s)))))"

subsection \<open>\<^verbatim>\<open>set_last_sync\<close> and \<^verbatim>\<open>run\<close> (lines 313 to 325)\<close>

definition set_last_sync :: "'t sync \<Rightarrow> unit act" where
  "set_last_sync s = (\<lambda>w. (Inr (), w\<lparr>lastsync_txt := Some [syncstart s]\<rparr>))"

text \<open>\<^verbatim>\<open>log_summary\<close> only logs at level \<^verbatim>\<open>INFO\<close>; it has no part in the model.\<close>

definition run :: "('t::linorder) env \<Rightarrow> 't sync \<Rightarrow> 't sync act" where
  "run e s =
     wbind (load_last_sync e s) (\<lambda>s1.
     wbind (run_check e s1) (\<lambda>s2.
     wbind (get_modtimes e s2) (\<lambda>s3.
     wbind (wlift (sync_sort (clock_sort e) s3)) (\<lambda>s4.
     wbind (action e s4) (\<lambda>_.
     if \<not> dryrun (configuration s4) then wbind (set_last_sync s4) (\<lambda>_. wreturn s4)
     else wreturn s4)))))"

section \<open>The loop and the program (lines 337 to 401)\<close>

text \<open>How one pass of the \<^verbatim>\<open>while True\<close> loop ends: the loop goes on, \<^verbatim>\<open>sys.exit\<close> is
  called, or an exception leaves the loop.\<close>

datatype ending = Continue | Exit int | Raise error

text \<open>The \<^verbatim>\<open>try\<close> statement of lines 361 to 367: the handler takes \<^verbatim>\<open>SyncException\<close> and
  nothing else, and the \<^verbatim>\<open>finally\<close> clause runs on every way out.\<close>

definition try_run :: "('t::linorder) env \<Rightarrow> config \<Rightarrow> world \<Rightarrow> error option \<times> world" where
  "try_run e c w =
     (case run e (new_sync c (epoch e)) w of
        (Inr _, w') \<Rightarrow> (None, release_lock w')
      | (Inl SyncException, w') \<Rightarrow>
          (None, release_lock (log_exception SyncException (warn ''Error during sync!'' w')))
      | (Inl x, w') \<Rightarrow> (Some x, release_lock w'))"

text \<open>One pass of the loop. The lock is acquired before the \<^verbatim>\<open>try\<close>; the sleep after it is
  where a \<^verbatim>\<open>KeyboardInterrupt\<close> ends the program with status 0.\<close>

definition sync_loop_body ::
  "('t::linorder) env \<Rightarrow> config \<Rightarrow> world \<Rightarrow> (ending \<times> world) option" where
  "sync_loop_body e c w =
     (case acquire_lock w of
        None \<Rightarrow> None
      | Some w1 \<Rightarrow>
          (case try_run e c w1 of
             (Some x, w2) \<Rightarrow> Some (Raise x, w2)
           | (None, w2) \<Rightarrow> Some (if interrupted e then Exit 0 else Continue, w2)))"

text \<open>\<^verbatim>\<open>sync_loop\<close>, with the environment of every pass; \<open>None\<close> is the loop that never
  ends.\<close>

partial_function (option) sync_loop ::
  "(nat \<Rightarrow> ('t::linorder) env) \<Rightarrow> config \<Rightarrow> nat \<Rightarrow> world \<Rightarrow> (ending \<times> world) option" where
  "sync_loop envs c i w =
     Option.bind (sync_loop_body (envs i) c w) (\<lambda>r.
       if fst r = Continue then sync_loop envs c (Suc i) (snd r) else Some r)"

text \<open>What \<^verbatim>\<open>yaml.load\<close> and the update \<^verbatim>\<open>_CONFIG |= config\<close> make of \<^verbatim>\<open>config.yaml\<close>: an
  empty document loads as \<^verbatim>\<open>None\<close>, and the update raises \<^verbatim>\<open>TypeError\<close>; a mapping updates
  \<^verbatim>\<open>_CONFIG\<close>; \<open>Load_raises\<close> is any other content, with the exception that the parser or the
  update raises for it.\<close>

datatype yaml_load = Loads_none | Loads_dict "config \<Rightarrow> config" | Load_raises error

text \<open>\<^verbatim>\<open>parse_config\<close>, given what it finds on disk: whether \<^verbatim>\<open>.rclouned/\<close> is a directory, and
  what \<^verbatim>\<open>config.yaml\<close> holds (\<open>None\<close> when the file is missing). A remote that is not
  configured is the empty string.\<close>

definition parse_config :: "bool \<Rightarrow> yaml_load option \<Rightarrow> config \<Rightarrow> error + config" where
  "parse_config has_dir yaml c0 =
     (if folder c0 = [] then Inl IndexError
      else
        let c1 = (if last (folder c0) \<noteq> CHR ''/'' then c0\<lparr>folder := folder c0 @ ''/''\<rparr> else c0)
        in if \<not> has_dir then Inl ConfigException
           else (case yaml of
                   None \<Rightarrow> Inl ConfigException
                 | Some Loads_none \<Rightarrow> Inl TypeError
                 | Some (Load_raises x) \<Rightarrow> Inl x
                 | Some (Loads_dict merge) \<Rightarrow>
                     let c2 = merge c1 in
                     if remote c2 = [] then Inl ConfigException else Inr c2))"

text \<open>\<^verbatim>\<open>main\<close> after the folder exists: every exception that reaches it is logged, as a
  critical message and then with \<^verbatim>\<open>logger.exception\<close>, and the program exits with status
  1; \<^verbatim>\<open>sys.exit(0)\<close> passes through. The result is the exit status, \<open>None\<close> when the program
  never ends.\<close>

definition main ::
  "bool \<Rightarrow> yaml_load option \<Rightarrow> config \<Rightarrow> (nat \<Rightarrow> ('t::linorder) env) \<Rightarrow> world \<Rightarrow>
   (int \<times> world) option" where
  "main has_dir yaml c0 envs w =
     (case parse_config has_dir yaml c0 of
        Inl x \<Rightarrow>
          Some (1, log_exception x
                     (critical ''rclouned encountered a critical error and cannot continue.'' w))
      | Inr c \<Rightarrow>
          (case sync_loop envs c 0 w of
             None \<Rightarrow> None
           | Some (Raise x, w') \<Rightarrow>
               Some (1, log_exception x
                          (critical ''rclouned encountered a critical error and cannot continue.''
                             w'))
           | Some (Exit n, w') \<Rightarrow> Some (n, w')
           | Some (Continue, w') \<Rightarrow> None))"

section \<open>Notions the statements about the planner use\<close>

text \<open>Two objects that agree on everything \<^verbatim>\<open>sort\<close> reads.\<close>

definition same_inputs :: "'t sync \<Rightarrow> 't sync \<Rightarrow> bool" where
  "same_inputs a b \<longleftrightarrow>
     configuration a = configuration b \<and> lastsync a = lastsync b \<and>
     syncstart a = syncstart b \<and> diff a = diff b \<and> dst a = dst b \<and> src a = src b \<and>
     local_check a = local_check b \<and> remote_check a = remote_check b"

text \<open>A differing path that reaches the \<^verbatim>\<open>else\<close> branch: both conditions were evaluated
  and both were false.\<close>

definition in_conflict :: "('t::linorder) sync \<Rightarrow> path \<Rightarrow> bool" where
  "in_conflict s f \<longleftrightarrow> local_newer s f = Inr False \<and> remote_newer s f = Inr False"

text \<open>What one pass of the loop over \<^verbatim>\<open>self.diff\<close> appends to each of the five lists.\<close>

definition diff_upload :: "string \<Rightarrow> ('t::linorder) sync \<Rightarrow> path \<Rightarrow> path list" where
  "diff_upload sfx s f =
     (if local_newer s f = Inr True then [f] else if in_conflict s f then [f @ sfx] else [])"

definition diff_download :: "('t::linorder) sync \<Rightarrow> path \<Rightarrow> path list" where
  "diff_download s f = (if local_newer s f = Inr True then [] else [f])"

definition diff_move :: "string \<Rightarrow> ('t::linorder) sync \<Rightarrow> path \<Rightarrow> (path \<times> path) list" where
  "diff_move sfx s f = (if in_conflict s f then [(f, f @ sfx)] else [])"

definition diff_local_backup :: "('t::linorder) sync \<Rightarrow> path \<Rightarrow> path list" where
  "diff_local_backup s f =
     (if careful (configuration s) \<and> local_newer s f = Inr False \<and> remote_newer s f = Inr True
      then [f] else [])"

definition diff_remote_backup :: "('t::linorder) sync \<Rightarrow> path \<Rightarrow> path list" where
  "diff_remote_backup s f =
     (if careful (configuration s) \<and> local_newer s f = Inr True then [f] else [])"

text \<open>The tests of the two loops over the one-sided paths: the copy that exists is not
  older than the last synchronisation.\<close>

definition fresh_local :: "('t::linorder) sync \<Rightarrow> path \<Rightarrow> bool" where
  "fresh_local s f \<longleftrightarrow>
     ebind (subscript (local_check s) f) (\<lambda>l. py_ge l (lastsync s)) = Inr True"

definition fresh_remote :: "('t::linorder) sync \<Rightarrow> path \<Rightarrow> bool" where
  "fresh_remote s f \<longleftrightarrow>
     ebind (subscript (remote_check s) f) (\<lambda>r. py_ge r (lastsync s)) = Inr True"

text \<open>The names under which the conflicting paths of \<^verbatim>\<open>self.diff\<close> are uploaded.\<close>

definition conflict_copies :: "string \<Rightarrow> ('t::linorder) sync \<Rightarrow> path set" where
  "conflict_copies stamp s =
     set (map (\<lambda>q. q @ conflict_suffix_of stamp) (filter (in_conflict s) (diff s)))"

text \<open>The three shapes in which the specification expects a differing path in a plan.\<close>

definition upload_only :: "'t sync \<Rightarrow> path \<Rightarrow> bool" where
  "upload_only s p \<longleftrightarrow>
     p \<in> set (upload s) \<and> p \<notin> set (download s) \<and> p \<notin> fst ` set (local_move s)"

definition download_only :: "'t sync \<Rightarrow> path \<Rightarrow> bool" where
  "download_only s p \<longleftrightarrow>
     p \<in> set (download s) \<and> p \<notin> set (upload s) \<and> p \<notin> fst ` set (local_move s)"

definition conflict_shape :: "string \<Rightarrow> 't sync \<Rightarrow> path \<Rightarrow> bool" where
  "conflict_shape sfx s p \<longleftrightarrow>
     (p, p @ sfx) \<in> set (local_move s) \<and> p \<in> set (download s) \<and> p @ sfx \<in> set (upload s)"

definition exactly_one :: "bool \<Rightarrow> bool \<Rightarrow> bool \<Rightarrow> bool" where
  "exactly_one a b c \<longleftrightarrow> (a \<and> \<not> b \<and> \<not> c) \<or> (b \<and> \<not> a \<and> \<not> c) \<or> (c \<and> \<not> a \<and> \<not> b)"

section \<open>Notions the statements about the cycle use\<close>

text \<open>A relation between the world before and the world after holds for every run of an
  action, whether it returns or raises; a property holds for every result it returns.
  The relations used are reflexive and transitive.\<close>

definition keeps :: "(world \<Rightarrow> world \<Rightarrow> bool) \<Rightarrow> 'a act \<Rightarrow> bool" where
  "keeps R m \<longleftrightarrow> (\<forall>w r w'. m w = (r, w') \<longrightarrow> R w w')"

definition yields :: "('a \<Rightarrow> bool) \<Rightarrow> 'a act \<Rightarrow> bool" where
  "yields Q m \<longleftrightarrow> (\<forall>w x w'. m w = (Inr x, w') \<longrightarrow> Q x)"

definition order_like :: "(world \<Rightarrow> world \<Rightarrow> bool) \<Rightarrow> bool" where
  "order_like R \<longleftrightarrow> (\<forall>w. R w w) \<and> (\<forall>a b c. R a b \<longrightarrow> R b c \<longrightarrow> R a c)"

text \<open>The external commands run between two worlds.\<close>

definition new_calls :: "world \<Rightarrow> world \<Rightarrow> call list" where
  "new_calls w w' = drop (length (calls w)) (calls w')"

text \<open>A command that changes nothing if the backend honours its flags: \<^verbatim>\<open>rclone\<close> with
  \<^verbatim>\<open>--dry-run\<close> right after the configured options, or \<^verbatim>\<open>rclone check\<close>.\<close>

definition simulated :: "config \<Rightarrow> string list \<Rightarrow> bool" where
  "simulated c av \<longleftrightarrow>
     prefix (''rclone'' # rclone_opts c @ [''--dry-run'']) av \<or>
     prefix (''rclone'' # rclone_opts c @ [''check'']) av"

text \<open>What a dry run leaves alone: the marker file is as it was, the earlier calls are
  still there, and every new call is a simulated one.\<close>

definition sim_step :: "config \<Rightarrow> world \<Rightarrow> world \<Rightarrow> bool" where
  "sim_step c w w' \<longleftrightarrow>
     lastsync_txt w' = lastsync_txt w \<and>
     take (length (calls w)) (calls w') = calls w \<and>
     list_all (\<lambda>k. simulated c (argv k)) (new_calls w w')"



text \<open>An action that returns leaves an empty scratch directory empty.\<close>

definition tidy :: "'a act \<Rightarrow> bool" where
  "tidy m \<longleftrightarrow>
     (\<forall>w x w'. sync_tmp w = Some [] \<longrightarrow> m w = (Inr x, w') \<longrightarrow> sync_tmp w' = Some [])"

text \<open>An action that never raises a given exception.\<close>

definition never :: "error \<Rightarrow> 'a act \<Rightarrow> bool" where
  "never x m \<longleftrightarrow> (\<forall>w y w'. m w = (Inl y, w') \<longrightarrow> y \<noteq> x)"

subsection \<open>The executor as the specification describes it\<close>

text \<open>The specification lists five steps, each skipped when its list is empty. These
  definitions follow its words; the theorems about \<open>action\<close> compare the commands that
  the code issues with them.\<close>

definition rclone_argv :: "config \<Rightarrow> string list \<Rightarrow> string list" where
  "rclone_argv c cmd =
     ''rclone'' # rclone_opts c @ (if dryrun c then [''--dry-run''] else []) @ cmd"

definition step_renames :: "config \<Rightarrow> 't sync \<Rightarrow> string list list" where
  "step_renames c s = map (\<lambda>(a, b). [''mv'', folder c @ a, folder c @ b]) (local_move s)"

definition step_local_backup :: "config \<Rightarrow> string \<Rightarrow> 't sync \<Rightarrow> string list list" where
  "step_local_backup c stamp s =
     (if local_backup s = [] then []
      else [rclone_argv c [''copy'', ''--files-from'',
              folder c @ ''.rclouned/sync.tmp/local_backup.txt'', folder c,
              folder c @ ''.rclouned/backups/'' @ stamp @ ''/''],
            rclone_argv c [''delete'', ''--files-from'',
              folder c @ ''.rclouned/sync.tmp/local_backup.txt'', folder c, ''--rmdirs'']])"

definition step_remote_backup :: "config \<Rightarrow> string \<Rightarrow> 't sync \<Rightarrow> string list list" where
  "step_remote_backup c stamp s =
     (if remote_backup s = [] then []
      else [rclone_argv c [''copy'', ''--files-from'',
              folder c @ ''.rclouned/sync.tmp/remote_backup.txt'', remote c @ '':'' @ subdir c,
              remote c @ '':'' @ subdir c @ ''.rclouned/backups/'' @ stamp @ ''/''],
            rclone_argv c [''delete'', ''--files-from'',
              folder c @ ''.rclouned/sync.tmp/remote_backup.txt'', remote c @ '':'' @ subdir c,
              ''--rmdirs'']])"

definition step_upload :: "config \<Rightarrow> 't sync \<Rightarrow> string list list" where
  "step_upload c s =
     (if upload s = [] then []
      else [rclone_argv c [''copy'', ''--files-from'',
              folder c @ ''.rclouned/sync.tmp/upload.txt'', folder c,
              remote c @ '':'' @ subdir c]])"

definition step_download :: "config \<Rightarrow> 't sync \<Rightarrow> string list list" where
  "step_download c s =
     (if download s = [] then []
      else [rclone_argv c [''copy'', ''--files-from'',
              folder c @ ''.rclouned/sync.tmp/download.txt'', remote c @ '':'' @ subdir c,
              folder c]])"

text \<open>The commands of a plan: the five steps in the order of the specification, the
  first one left out in a dry run.\<close>

definition plan_commands :: "config \<Rightarrow> string \<Rightarrow> 't sync \<Rightarrow> string list list" where
  "plan_commands c stamp s =
     (if dryrun c then [] else step_renames c s) @
     step_local_backup c stamp s @ step_remote_backup c stamp s @
     step_upload c s @ step_download c s"

text \<open>An action issues the commands \<open>xs\<close>, in this order: all of them when it returns, the
  first few of them when it raises.\<close>

definition emits :: "'a act \<Rightarrow> string list list \<Rightarrow> bool" where
  "emits m xs \<longleftrightarrow>
     (\<forall>w r w'. m w = (r, w') \<longrightarrow>
        (\<exists>n \<le> length xs. map argv (calls w') = map argv (calls w) @ take n xs) \<and>
        (isl r \<or> map argv (calls w') = map argv (calls w) @ xs))"

subsection \<open>The commands of the executor with the lists they are given\<close>

text \<open>A command of a step: its argument vector and, for a command that takes the paths
  from a list file, the name of that file in \<^verbatim>\<open>.rclouned/sync.tmp/\<close> and the paths.\<close>

type_synonym command = "string list \<times> (string \<times> string list) option"

text \<open>A call is a given command: the argument vectors agree, and the list file, if the
  command has one, held exactly the paths when the command started.\<close>

definition issued :: "call \<Rightarrow> command \<Rightarrow> bool" where
  "issued k cmd \<longleftrightarrow>
     argv k = fst cmd \<and>
     (case snd cmd of
        None \<Rightarrow> True
      | Some (name, xs) \<Rightarrow>
          (case scratch k of None \<Rightarrow> False | Some fs \<Rightarrow> map_of fs name = Some xs))"

definition without_list :: "string list list \<Rightarrow> command list" where
  "without_list cmds = map (\<lambda>av. (av, None)) cmds"

definition with_list :: "string \<Rightarrow> string list \<Rightarrow> string list list \<Rightarrow> command list" where
  "with_list name xs cmds = map (\<lambda>av. (av, Some (name, xs))) cmds"

text \<open>The five steps in the order of the specification, the first one left out in a dry
  run, each command of steps 2 to 5 with the whole list of the plan that the step is
  about.\<close>

definition plan_steps :: "config \<Rightarrow> string \<Rightarrow> 't sync \<Rightarrow> command list" where
  "plan_steps c stamp s =
     without_list (if dryrun c then [] else step_renames c s) @
     with_list ''local_backup.txt'' (local_backup s) (step_local_backup c stamp s) @
     with_list ''remote_backup.txt'' (remote_backup s) (step_remote_backup c stamp s) @
     with_list ''upload.txt'' (upload s) (step_upload c s) @
     with_list ''download.txt'' (download s) (step_download c s)"

text \<open>An action delivers the commands \<open>xs\<close>: the calls it adds are, one by one and in this
  order, all of \<open>xs\<close> when it returns, and the first few of \<open>xs\<close> when it raises.\<close>

definition delivers :: "'a act \<Rightarrow> command list \<Rightarrow> bool" where
  "delivers m xs \<longleftrightarrow>
     (\<forall>w r w'. m w = (r, w') \<longrightarrow>
        take (length (calls w)) (calls w') = calls w \<and>
        (\<exists>n \<le> length xs. list_all2 issued (new_calls w w') (take n xs)) \<and>
        (isl r \<or> list_all2 issued (new_calls w w') xs))"

text \<open>Nothing removes the lock directory while a cycle runs.\<close>

definition dir_kept :: "world \<Rightarrow> world \<Rightarrow> bool" where
  "dir_kept w w' \<longleftrightarrow> (sync_tmp w \<noteq> None \<longrightarrow> sync_tmp w' \<noteq> None)"

section \<open>Concrete cycles\<close>

definition example_config :: config where
  "example_config = \<lparr>folder = ''/d/'', remote = ''r'', subdir = ''s'', options = '''',
     interval = 90, dryrun = False, careful = False\<rparr>"

definition example_stamp :: string where
  "example_stamp = ''20240101-120000''"

text \<open>The scenarios of the specification in one snapshot, with \<open>T0 = 100\<close>, and two more
  paths (\<^verbatim>\<open>f.txt\<close> changed on the remote only, \<^verbatim>\<open>g.txt\<close> and \<^verbatim>\<open>h.txt\<close> exist on the remote
  only).\<close>

definition example_sync :: "nat sync" where
  "example_sync = \<lparr>configuration = example_config, lastsync = 100, syncstart = '''',
     diff = [''a.txt'', ''b.txt'', ''f.txt''], dst = [''g.txt'', ''h.txt''],
     src = [''c.txt'', ''d.txt''],
     local_check = [(''a.txt'', Time 110), (''b.txt'', Time 105), (''f.txt'', Time 90),
                    (''c.txt'', Time 80), (''d.txt'', Time 101)],
     remote_check = [(''a.txt'', Time 95), (''b.txt'', Time 108), (''f.txt'', Time 120),
                     (''g.txt'', Time 130), (''h.txt'', Time 50)],
     upload = [], download = [], local_move = [], local_backup = [], remote_backup = []\<rparr>"

definition example_plan :: "nat sync" where
  "example_plan = example_sync\<lparr>
     upload := [''a.txt'', ''b.txt_conflict-20240101-120000'', ''d.txt''],
     download := [''b.txt'', ''f.txt'', ''g.txt''],
     local_move := [(''b.txt'', ''b.txt_conflict-20240101-120000'')],
     local_backup := [''c.txt''],
     remote_backup := [''h.txt'']\<rparr>"

definition careful_sync :: "nat sync" where
  "careful_sync = example_sync\<lparr>configuration := example_config\<lparr>careful := True\<rparr>\<rparr>"

definition careful_plan :: "nat sync" where
  "careful_plan = careful_sync\<lparr>
     upload := [''a.txt'', ''b.txt_conflict-20240101-120000'', ''d.txt''],
     download := [''b.txt'', ''f.txt'', ''g.txt''],
     local_move := [(''b.txt'', ''b.txt_conflict-20240101-120000'')],
     local_backup := [''f.txt'', ''c.txt''],
     remote_backup := [''a.txt'', ''h.txt'']\<rparr>"

text \<open>A snapshot in which a differing path already carries the name that the conflict of
  another one is about to be given.\<close>

definition clash_sync :: "nat sync" where
  "clash_sync = \<lparr>configuration = example_config, lastsync = 100, syncstart = '''',
     diff = [''a'', ''a_conflict-20240101-120000''], dst = [], src = [],
     local_check = [(''a'', Time 105), (''a_conflict-20240101-120000'', Time 90)],
     remote_check = [(''a'', Time 108), (''a_conflict-20240101-120000'', Time 120)],
     upload = [], download = [], local_move = [], local_backup = [], remote_backup = []\<rparr>"

definition clash_plan :: "nat sync" where
  "clash_plan = clash_sync\<lparr>
     upload := [''a_conflict-20240101-120000''],
     download := [''a'', ''a_conflict-20240101-120000''],
     local_move := [(''a'', ''a_conflict-20240101-120000'')]\<rparr>"

text \<open>The same two paths, both changed on both sides since the last synchronisation.\<close>

definition double_clash_sync :: "nat sync" where
  "double_clash_sync = \<lparr>configuration = example_config, lastsync = 100, syncstart = '''',
     diff = [''a'', ''a_conflict-20240101-120000''], dst = [], src = [],
     local_check = [(''a'', Time 105), (''a_conflict-20240101-120000'', Time 110)],
     remote_check = [(''a'', Time 108), (''a_conflict-20240101-120000'', Time 120)],
     upload = [], download = [], local_move = [], local_backup = [], remote_backup = []\<rparr>"

definition double_clash_plan :: "nat sync" where
  "double_clash_plan = double_clash_sync\<lparr>
     upload := [''a_conflict-20240101-120000'',
                ''a_conflict-20240101-120000_conflict-20240101-120000''],
     download := [''a'', ''a_conflict-20240101-120000''],
     local_move := [(''a'', ''a_conflict-20240101-120000''),
                    (''a_conflict-20240101-120000'',
                     ''a_conflict-20240101-120000_conflict-20240101-120000'')]\<rparr>"

text \<open>The same name, this time on a file that exists locally only and is older than the
  last synchronisation.\<close>

definition orphan_clash_sync :: "nat sync" where
  "orphan_clash_sync = \<lparr>configuration = example_config, lastsync = 100, syncstart = '''',
     diff = [''a''], dst = [], src = [''a_conflict-20240101-120000''],
     local_check = [(''a'', Time 105), (''a_conflict-20240101-120000'', Time 90)],
     remote_check = [(''a'', Time 108)],
     upload = [], download = [], local_move = [], local_backup = [], remote_backup = []\<rparr>"

definition orphan_clash_plan :: "nat sync" where
  "orphan_clash_plan = orphan_clash_sync\<lparr>
     upload := [''a_conflict-20240101-120000''],
     download := [''a''],
     local_move := [(''a'', ''a_conflict-20240101-120000'')],
     local_backup := [''a_conflict-20240101-120000'']\<rparr>"

text \<open>The snapshot of \<open>example_sync\<close> planned again after a cycle that started at time
  \<open>200\<close>, and the snapshot of a cycle that found no difference.\<close>

definition rerun_sync :: "nat sync" where
  "rerun_sync = example_plan\<lparr>lastsync := 200\<rparr>"

definition rerun_plan :: "nat sync" where
  "rerun_plan = rerun_sync\<lparr>
     upload := [''a.txt_conflict-20240101-120000'', ''b.txt_conflict-20240101-120000'',
                ''f.txt_conflict-20240101-120000''],
     download := [''a.txt'', ''b.txt'', ''f.txt''],
     local_move := [(''a.txt'', ''a.txt_conflict-20240101-120000''),
                    (''b.txt'', ''b.txt_conflict-20240101-120000''),
                    (''f.txt'', ''f.txt_conflict-20240101-120000'')],
     local_backup := [''c.txt'', ''d.txt''],
     remote_backup := [''g.txt'', ''h.txt'']\<rparr>"

definition quiet_sync :: "nat sync" where
  "quiet_sync = \<lparr>configuration = example_config, lastsync = 100, syncstart = '''',
     diff = [], dst = [], src = [], local_check = [], remote_check = [],
     upload = [''stale''], download = [], local_move = [], local_backup = [],
     remote_backup = []\<rparr>"

subsection \<open>A backend, a clock and a disk\<close>

text \<open>Time stamps are seconds after midnight of 2024-01-01; the parser of the example
  knows the ones that occur.\<close>

definition example_times :: "(string \<times> nat) list" where
  "example_times =
     [(''2024-01-01 00:00:50'', 50), (''2024-01-01 00:01:20'', 80),
      (''2024-01-01 00:01:30'', 90), (''2024-01-01 00:01:35'', 95),
      (''2024-01-01 00:01:40'', 100), (''2024-01-01 00:01:41'', 101),
      (''2024-01-01 00:01:45'', 105), (''2024-01-01 00:01:48'', 108),
      (''2024-01-01 00:01:50'', 110), (''2024-01-01 00:02:00'', 120),
      (''2024-01-01 00:02:10'', 130), (''2024-01-01 00:03:20'', 200)]"

text \<open>A backend that reports the snapshot of \<open>example_sync\<close>, succeeds at every command
  and changes the local tree only by \<^verbatim>\<open>mv\<close>.\<close>

definition example_env :: "nat env" where
  "example_env = \<lparr>
     strptime = map_of example_times,
     epoch = 0,
     clock_check = ''2024-01-01 00:03:20'',
     clock_sort = ''20240101-120000'',
     clock_action = ''20240101-120001'',
     returncode = (\<lambda>cmd. 0),
     stdout = (\<lambda>cmd.
        if last cmd = ''/d/'' then
          [''a.txt;2024-01-01 00:01:50'', ''b.txt;2024-01-01 00:01:45'',
           ''f.txt;2024-01-01 00:01:30'', ''c.txt;2024-01-01 00:01:20'',
           ''d.txt;2024-01-01 00:01:41'']
        else if last cmd = ''r:s'' then
          [''a.txt;2024-01-01 00:01:35'', ''b.txt;2024-01-01 00:01:48'',
           ''f.txt;2024-01-01 00:02:00'', ''g.txt;2024-01-01 00:02:10'',
           ''h.txt;2024-01-01 00:00:50'']
        else []),
     effect = (\<lambda>cmd fs. case cmd of
        [m, a, b] \<Rightarrow> if m = ''mv'' \<and> a \<in> set fs then b # remove1 a fs else fs
      | _ \<Rightarrow> fs),
     report_differ = Some [''a.txt'', ''b.txt'', ''f.txt''],
     report_dst = Some [''g.txt'', ''h.txt''],
     report_src = Some [''c.txt'', ''d.txt''],
     interrupted = False\<rparr>"

text \<open>The same backend with a listing command that exits with status 1, with a remote
  listing that says nothing about \<^verbatim>\<open>h.txt\<close>, and with a copy command that exits with
  status 1.\<close>

definition lsf_fails_env :: "nat env" where
  "lsf_fails_env = example_env\<lparr>returncode := (\<lambda>cmd. if ''lsf'' \<in> set cmd then 1 else 0)\<rparr>"

definition silent_env :: "nat env" where
  "silent_env = example_env\<lparr>stdout := (\<lambda>cmd.
        if last cmd = ''/d/'' then
          [''a.txt;2024-01-01 00:01:50'', ''b.txt;2024-01-01 00:01:45'',
           ''f.txt;2024-01-01 00:01:30'', ''c.txt;2024-01-01 00:01:20'',
           ''d.txt;2024-01-01 00:01:41'']
        else if last cmd = ''r:s'' then
          [''a.txt;2024-01-01 00:01:35'', ''b.txt;2024-01-01 00:01:48'',
           ''f.txt;2024-01-01 00:02:00'', ''g.txt;2024-01-01 00:02:10'']
        else [])\<rparr>"

definition copy_fails_env :: "nat env" where
  "copy_fails_env = example_env\<lparr>returncode := (\<lambda>cmd. if ''copy'' \<in> set cmd then 1 else 0)\<rparr>"

text \<open>The disk before a cycle (no lock, a marker of time 100), and after the lock has been
  taken.\<close>

definition example_world :: world where
  "example_world = \<lparr>sync_tmp = None, lastsync_txt = Some [''2024-01-01 00:01:40''],
     local_files = [''/d/a.txt'', ''/d/b.txt'', ''/d/f.txt'', ''/d/c.txt'', ''/d/d.txt''],
     calls = [], logged = []\<rparr>"

definition locked_world :: world where
  "locked_world = example_world\<lparr>sync_tmp := Some []\<rparr>"

definition dry_config :: config where
  "dry_config = example_config\<lparr>dryrun := True\<rparr>"

definition dry_sync :: "nat sync" where
  "dry_sync = example_sync\<lparr>configuration := dry_config\<rparr>"

definition dry_plan :: "nat sync" where
  "dry_plan = example_plan\<lparr>configuration := dry_config\<rparr>"

text \<open>The cycles and the executions of a plan that the concrete theorems are about.\<close>

definition example_cycle :: "(error + nat sync) \<times> world" where
  "example_cycle = run example_env (new_sync example_config 0) locked_world"

definition dry_cycle :: "(error + nat sync) \<times> world" where
  "dry_cycle = run example_env (new_sync dry_config 0) locked_world"

definition lsf_fails_cycle :: "(error + nat sync) \<times> world" where
  "lsf_fails_cycle = run lsf_fails_env (new_sync example_config 0) locked_world"

definition silent_cycle :: "(error + nat sync) \<times> world" where
  "silent_cycle = run silent_env (new_sync example_config 0) locked_world"

definition copy_fails_cycle :: "(error + nat sync) \<times> world" where
  "copy_fails_cycle = run copy_fails_env (new_sync example_config 0) locked_world"

definition example_action :: "(error + unit) \<times> world" where
  "example_action = action example_env example_plan locked_world"

definition dry_action :: "(error + unit) \<times> world" where
  "dry_action = action example_env dry_plan locked_world"

definition copy_fails_action :: "(error + unit) \<times> world" where
  "copy_fails_action = action copy_fails_env example_plan locked_world"

section \<open>The planner, list by list\<close>

lemma same_inputs_refl: "same_inputs a a"
  by (simp add: same_inputs_def)

lemma local_newer_cong: "same_inputs a b \<Longrightarrow> local_newer a f = local_newer b f"
  by (simp add: same_inputs_def local_newer_def cong: if_cong)

lemma remote_newer_cong: "same_inputs a b \<Longrightarrow> remote_newer a f = remote_newer b f"
  by (simp add: same_inputs_def remote_newer_def cong: if_cong)

lemma in_conflict_cong: "same_inputs a b \<Longrightarrow> in_conflict a f = in_conflict b f"
  by (simp add: in_conflict_def local_newer_cong remote_newer_cong)

lemma fresh_local_cong: "same_inputs a b \<Longrightarrow> fresh_local a f = fresh_local b f"
  by (simp add: same_inputs_def fresh_local_def)

lemma fresh_remote_cong: "same_inputs a b \<Longrightarrow> fresh_remote a f = fresh_remote b f"
  by (simp add: same_inputs_def fresh_remote_def)

lemma sort_diff_step:
  assumes "sort_diff sfx s f = Inr s'"
  shows "same_inputs s' s \<and>
         upload s' = upload s @ diff_upload sfx s f \<and>
         download s' = download s @ diff_download s f \<and>
         local_move s' = local_move s @ diff_move sfx s f \<and>
         local_backup s' = local_backup s @ diff_local_backup s f \<and>
         remote_backup s' = remote_backup s @ diff_remote_backup s f"
proof (cases "local_newer s f")
  case (Inl e)
  with assms show ?thesis by (simp add: sort_diff_def ebind_def)
next
  case c1: (Inr b1)
  show ?thesis
  proof (cases b1)
    case True
    with c1 assms show ?thesis
      by (auto simp: sort_diff_def ebind_def same_inputs_def diff_upload_def diff_download_def
          diff_move_def diff_local_backup_def diff_remote_backup_def in_conflict_def)
  next
    case False
    show ?thesis
    proof (cases "remote_newer s f")
      case (Inl e)
      with c1 False assms show ?thesis by (simp add: sort_diff_def ebind_def)
    next
      case (Inr b2)
      with c1 False assms show ?thesis
        by (cases b2)
          (auto simp: sort_diff_def ebind_def same_inputs_def diff_upload_def diff_download_def
            diff_move_def diff_local_backup_def diff_remote_backup_def in_conflict_def)
    qed
  qed
qed

lemma same_inputs_trans: "same_inputs a b \<Longrightarrow> same_inputs b c \<Longrightarrow> same_inputs a c"
  by (simp add: same_inputs_def)

lemma diff_contrib_cong:
  assumes "same_inputs a b"
  shows "diff_upload sfx a f = diff_upload sfx b f"
    and "diff_download a f = diff_download b f"
    and "diff_move sfx a f = diff_move sfx b f"
    and "diff_local_backup a f = diff_local_backup b f"
    and "diff_remote_backup a f = diff_remote_backup b f"
  using assms
  by (simp_all add: diff_upload_def diff_download_def diff_move_def diff_local_backup_def
      diff_remote_backup_def local_newer_cong [OF assms] remote_newer_cong [OF assms]
      in_conflict_cong [OF assms] same_inputs_def)

lemma sort_diff_loop:
  assumes "for_each (sort_diff sfx) fs s = Inr s'" and "same_inputs s b"
  shows "same_inputs s' b \<and>
         upload s' = upload s @ concat (map (diff_upload sfx b) fs) \<and>
         download s' = download s @ concat (map (diff_download b) fs) \<and>
         local_move s' = local_move s @ concat (map (diff_move sfx b) fs) \<and>
         local_backup s' = local_backup s @ concat (map (diff_local_backup b) fs) \<and>
         remote_backup s' = remote_backup s @ concat (map (diff_remote_backup b) fs)"
  using assms
proof (induction fs arbitrary: s)
  case Nil
  then show ?case by simp
next
  case (Cons f fs)
  from Cons.prems obtain s1 where
    step: "sort_diff sfx s f = Inr s1" and rest: "for_each (sort_diff sfx) fs s1 = Inr s'"
    by (auto split: sum.splits)
  from sort_diff_step [OF step] have s1: "same_inputs s1 s"
    and u: "upload s1 = upload s @ diff_upload sfx s f"
    and d: "download s1 = download s @ diff_download s f"
    and m: "local_move s1 = local_move s @ diff_move sfx s f"
    and l: "local_backup s1 = local_backup s @ diff_local_backup s f"
    and r: "remote_backup s1 = remote_backup s @ diff_remote_backup s f"
    by simp_all
  have s1b: "same_inputs s1 b" using s1 Cons.prems(2) by (rule same_inputs_trans)
  note IH = Cons.IH [OF rest s1b]
  show ?case
    using IH u d m l r diff_contrib_cong [OF Cons.prems(2)] by simp
qed

lemma sort_src_step:
  assumes "sort_src s f = Inr s'"
  shows "same_inputs s' s \<and>
         upload s' = upload s @ (if fresh_local s f then [f] else []) \<and>
         download s' = download s \<and>
         local_move s' = local_move s \<and>
         local_backup s' = local_backup s @ (if fresh_local s f then [] else [f]) \<and>
         remote_backup s' = remote_backup s"
  using assms
  by (auto simp: sort_src_def ebind_def same_inputs_def fresh_local_def
      split: sum.splits if_splits)

lemma sort_dst_step:
  assumes "sort_dst s f = Inr s'"
  shows "same_inputs s' s \<and>
         upload s' = upload s \<and>
         download s' = download s @ (if fresh_remote s f then [f] else []) \<and>
         local_move s' = local_move s \<and>
         local_backup s' = local_backup s \<and>
         remote_backup s' = remote_backup s @ (if fresh_remote s f then [] else [f])"
  using assms
  by (auto simp: sort_dst_def ebind_def same_inputs_def fresh_remote_def
      split: sum.splits if_splits)

lemma sort_src_loop:
  assumes "for_each sort_src fs s = Inr s'" and "same_inputs s b"
  shows "same_inputs s' b \<and>
         upload s' = upload s @ filter (fresh_local b) fs \<and>
         download s' = download s \<and>
         local_move s' = local_move s \<and>
         local_backup s' = local_backup s @ filter (\<lambda>f. \<not> fresh_local b f) fs \<and>
         remote_backup s' = remote_backup s"
  using assms
proof (induction fs arbitrary: s)
  case Nil
  then show ?case by simp
next
  case (Cons f fs)
  from Cons.prems obtain s1 where
    step: "sort_src s f = Inr s1" and rest: "for_each sort_src fs s1 = Inr s'"
    by (auto split: sum.splits)
  have s1b: "same_inputs s1 b"
    using sort_src_step [OF step] Cons.prems(2) by (blast intro: same_inputs_trans)
  show ?case
    using Cons.IH [OF rest s1b] sort_src_step [OF step] fresh_local_cong [OF Cons.prems(2)]
    by simp
qed

lemma sort_dst_loop:
  assumes "for_each sort_dst fs s = Inr s'" and "same_inputs s b"
  shows "same_inputs s' b \<and>
         upload s' = upload s \<and>
         download s' = download s @ filter (fresh_remote b) fs \<and>
         local_move s' = local_move s \<and>
         local_backup s' = local_backup s \<and>
         remote_backup s' = remote_backup s @ filter (\<lambda>f. \<not> fresh_remote b f) fs"
  using assms
proof (induction fs arbitrary: s)
  case Nil
  then show ?case by simp
next
  case (Cons f fs)
  from Cons.prems obtain s1 where
    step: "sort_dst s f = Inr s1" and rest: "for_each sort_dst fs s1 = Inr s'"
    by (auto split: sum.splits)
  have s1b: "same_inputs s1 b"
    using sort_dst_step [OF step] Cons.prems(2) by (blast intro: same_inputs_trans)
  show ?case
    using Cons.IH [OF rest s1b] sort_dst_step [OF step] fresh_remote_cong [OF Cons.prems(2)]
    by simp
qed

text \<open>What a completed loop says about each path it visited.\<close>

lemma sort_diff_loop_defined:
  assumes "for_each (sort_diff sfx) fs s = Inr s'" and "same_inputs s b" and "f \<in> set fs"
  shows "\<exists>c1. local_newer b f = Inr c1 \<and> (\<not> c1 \<longrightarrow> (\<exists>c2. remote_newer b f = Inr c2))"
  using assms
proof (induction fs arbitrary: s)
  case Nil
  then show ?case by simp
next
  case (Cons g fs)
  from Cons.prems obtain s1 where
    step: "sort_diff sfx s g = Inr s1" and rest: "for_each (sort_diff sfx) fs s1 = Inr s'"
    by (auto split: sum.splits)
  have s1b: "same_inputs s1 b"
    using sort_diff_step [OF step] Cons.prems(2) by (blast intro: same_inputs_trans)
  show ?case
  proof (cases "f = g")
    case True
    from step have "\<exists>c1. local_newer s f = Inr c1 \<and> (\<not> c1 \<longrightarrow> (\<exists>c2. remote_newer s f = Inr c2))"
      unfolding True by (auto simp: sort_diff_def ebind_def split: sum.splits if_splits)
    then show ?thesis
      using local_newer_cong [OF Cons.prems(2)] remote_newer_cong [OF Cons.prems(2)] by simp
  next
    case False
    with Cons.prems(3) have "f \<in> set fs" by simp
    from Cons.IH [OF rest s1b this] show ?thesis .
  qed
qed

lemma sync_sort_lists:
  assumes "sync_sort stamp s = Inr s'"
  shows "same_inputs s' s"
    and "upload s' = concat (map (diff_upload (conflict_suffix_of stamp) s) (diff s)) @
           filter (fresh_local s) (src s)"
    and "download s' = concat (map (diff_download s) (diff s)) @ filter (fresh_remote s) (dst s)"
    and "local_move s' = concat (map (diff_move (conflict_suffix_of stamp) s) (diff s))"
    and "local_backup s' = concat (map (diff_local_backup s) (diff s)) @
           filter (\<lambda>f. \<not> fresh_local s f) (src s)"
    and "remote_backup s' = concat (map (diff_remote_backup s) (diff s)) @
           filter (\<lambda>f. \<not> fresh_remote s f) (dst s)"
proof -
  define s0 where "s0 = s\<lparr>upload := [], download := [], local_move := [],
                 local_backup := [], remote_backup := []\<rparr>"
  have b: "same_inputs s0 s" by (simp add: s0_def same_inputs_def)
  from assms obtain s1 s2 where
    l1: "for_each (sort_diff (conflict_suffix_of stamp)) (diff s0) s0 = Inr s1" and
    l2: "for_each sort_src (src s1) s1 = Inr s2" and
    l3: "for_each sort_dst (dst s2) s2 = Inr s'"
    by (auto simp: sync_sort_def Let_def ebind_def s0_def split: sum.splits)
  note r1 = sort_diff_loop [OF l1 b]
  from r1 have b1: "same_inputs s1 s" by simp
  note r2 = sort_src_loop [OF l2 b1]
  from r2 have b2: "same_inputs s2 s" by simp
  note r3 = sort_dst_loop [OF l3 b2]
  have d0: "diff s0 = diff s" and e0: "upload s0 = []" "download s0 = []" "local_move s0 = []"
    "local_backup s0 = []" "remote_backup s0 = []"
    by (simp_all add: s0_def)
  have d1: "src s1 = src s" using b1 by (simp add: same_inputs_def)
  have d2: "dst s2 = dst s" using b2 by (simp add: same_inputs_def)
  show "same_inputs s' s" using r3 by simp
  show "upload s' = concat (map (diff_upload (conflict_suffix_of stamp) s) (diff s)) @
           filter (fresh_local s) (src s)"
    using r1 r2 r3 d0 d1 d2 e0 by simp
  show "download s' = concat (map (diff_download s) (diff s)) @ filter (fresh_remote s) (dst s)"
    using r1 r2 r3 d0 d1 d2 e0 by simp
  show "local_move s' = concat (map (diff_move (conflict_suffix_of stamp) s) (diff s))"
    using r1 r2 r3 d0 d1 d2 e0 by simp
  show "local_backup s' = concat (map (diff_local_backup s) (diff s)) @
           filter (\<lambda>f. \<not> fresh_local s f) (src s)"
    using r1 r2 r3 d0 d1 d2 e0 by simp
  show "remote_backup s' = concat (map (diff_remote_backup s) (diff s)) @
           filter (\<lambda>f. \<not> fresh_remote s f) (dst s)"
    using r1 r2 r3 d0 d1 d2 e0 by simp
qed

lemma local_newer_times:
  assumes "map_of (local_check s) p = Some (Time l)" and "map_of (remote_check s) p = Some (Time r)"
  shows "local_newer s p = Inr (lastsync s \<le> l \<and> r < lastsync s)"
  using assms by (simp add: local_newer_def ebind_def subscript_def py_ge_def py_lt_def)

lemma remote_newer_times:
  assumes "map_of (local_check s) p = Some (Time l)" and "map_of (remote_check s) p = Some (Time r)"
  shows "remote_newer s p = Inr (l < lastsync s \<and> lastsync s \<le> r)"
  using assms by (simp add: remote_newer_def ebind_def subscript_def py_ge_def py_lt_def)

lemma fresh_local_time:
  "map_of (local_check s) p = Some (Time l) \<Longrightarrow> fresh_local s p \<longleftrightarrow> lastsync s \<le> l"
  by (simp add: fresh_local_def ebind_def subscript_def py_ge_def)

lemma fresh_remote_time:
  "map_of (remote_check s) p = Some (Time r) \<Longrightarrow> fresh_remote s p \<longleftrightarrow> lastsync s \<le> r"
  by (simp add: fresh_remote_def ebind_def subscript_def py_ge_def)

text \<open>A path the first condition accepts has an older remote copy; one the second accepts
  has an older local copy.\<close>

lemma local_newer_True:
  "local_newer s f = Inr True \<Longrightarrow> fresh_local s f \<and> \<not> fresh_remote s f"
  by (auto simp: local_newer_def fresh_local_def fresh_remote_def ebind_def py_ge_def py_lt_def
      split: sum.splits pyval.splits if_splits)

lemma remote_newer_True:
  "remote_newer s f = Inr True \<Longrightarrow> \<not> fresh_local s f \<and> fresh_remote s f"
  by (auto simp: remote_newer_def fresh_local_def fresh_remote_def ebind_def py_ge_def py_lt_def
      split: sum.splits pyval.splits if_splits)

lemma set_upload:
  assumes "sync_sort stamp s = Inr s'"
  shows "set (upload s') = {f \<in> set (diff s). local_newer s f = Inr True} \<union>
           conflict_copies stamp s \<union> {f \<in> set (src s). fresh_local s f}"
  unfolding sync_sort_lists(2) [OF assms]
  by (auto simp: diff_upload_def conflict_copies_def in_conflict_def split: if_splits)

lemma set_download:
  assumes "sync_sort stamp s = Inr s'"
  shows "set (download s') = {f \<in> set (diff s). local_newer s f \<noteq> Inr True} \<union>
           {f \<in> set (dst s). fresh_remote s f}"
  unfolding sync_sort_lists(3) [OF assms]
  by (auto simp: diff_download_def split: if_splits)

lemma set_local_move:
  assumes "sync_sort stamp s = Inr s'"
  shows "set (local_move s') =
           (\<lambda>q. (q, q @ conflict_suffix_of stamp)) ` {f \<in> set (diff s). in_conflict s f}"
  unfolding sync_sort_lists(4) [OF assms]
  by (auto simp: diff_move_def split: if_splits)

lemma set_local_backup:
  assumes "sync_sort stamp s = Inr s'"
  shows "set (local_backup s') =
           {f \<in> set (diff s). careful (configuration s) \<and> local_newer s f = Inr False \<and>
              remote_newer s f = Inr True} \<union>
           {f \<in> set (src s). \<not> fresh_local s f}"
  unfolding sync_sort_lists(5) [OF assms]
  by (auto simp: diff_local_backup_def split: if_splits)

lemma set_remote_backup:
  assumes "sync_sort stamp s = Inr s'"
  shows "set (remote_backup s') =
           {f \<in> set (diff s). careful (configuration s) \<and> local_newer s f = Inr True} \<union>
           {f \<in> set (dst s). \<not> fresh_remote s f}"
  unfolding sync_sort_lists(6) [OF assms]
  by (auto simp: diff_remote_backup_def split: if_splits)

lemma sync_sort_defined:
  assumes "sync_sort stamp s = Inr s'" and "f \<in> set (diff s)"
  shows "local_newer s f = Inr True \<or> 
         (local_newer s f = Inr False \<and> remote_newer s f = Inr True) \<or> in_conflict s f"
proof -
  define s0 where "s0 = s\<lparr>upload := [], download := [], local_move := [],
                 local_backup := [], remote_backup := []\<rparr>"
  have b: "same_inputs s0 s" by (simp add: s0_def same_inputs_def)
  from assms(1) obtain s1 where
    l1: "for_each (sort_diff (conflict_suffix_of stamp)) (diff s0) s0 = Inr s1"
    by (auto simp: sync_sort_def Let_def ebind_def s0_def split: sum.splits)
  have "f \<in> set (diff s0)" using assms(2) by (simp add: s0_def)
  from sort_diff_loop_defined [OF l1 b this] show ?thesis
    by (auto simp: in_conflict_def)
qed

section \<open>The cycle, method by method\<close>

lemma wbind_cases:
  assumes "wbind m f w = (r, w')"
  obtains (fails) x where "m w = (Inl x, w')" and "r = Inl x"
    | (goes) x w1 where "m w = (Inr x, w1)" and "f x w1 = (r, w')"
  using assms by (auto simp: wbind_def split: prod.splits sum.splits)

lemma wbind_Inr:
  "wbind m f w = (Inr y, w') \<longleftrightarrow> (\<exists>x w1. m w = (Inr x, w1) \<and> f x w1 = (Inr y, w'))"
  by (auto simp: wbind_def split: prod.splits sum.splits)

lemma keepsI: "(\<And>w r w'. m w = (r, w') \<Longrightarrow> R w w') \<Longrightarrow> keeps R m"
  by (simp add: keeps_def)

lemma keepsD: "keeps R m \<Longrightarrow> m w = (r, w') \<Longrightarrow> R w w'"
  by (simp add: keeps_def)

lemma keeps_wbind:
  assumes "order_like R" and "keeps R m" and "\<And>x. keeps R (f x)"
  shows "keeps R (wbind m f)"
proof (rule keepsI)
  fix w r w' assume "wbind m f w = (r, w')"
  then show "R w w'"
  proof (cases rule: wbind_cases)
    case (fails x)
    then show ?thesis using assms(2) by (auto dest: keepsD)
  next
    case (goes x w1)
    then have "R w w1" "R w1 w'" using assms(2,3) by (auto dest: keepsD)
    then show ?thesis using assms(1) unfolding order_like_def by blast
  qed
qed

lemma keeps_wbind_yield:
  assumes "order_like R" and "keeps R m" and "yields Q m" and "\<And>x. Q x \<Longrightarrow> keeps R (f x)"
  shows "keeps R (wbind m f)"
proof (rule keepsI)
  fix w r w' assume "wbind m f w = (r, w')"
  then show "R w w'"
  proof (cases rule: wbind_cases)
    case (fails x)
    then show ?thesis using assms(2) by (auto dest: keepsD)
  next
    case (goes x w1)
    then have "Q x" using assms(3) by (auto simp: yields_def)
    with goes have "R w w1" "R w1 w'" using assms(2,4) by (auto dest: keepsD)
    then show ?thesis using assms(1) unfolding order_like_def by blast
  qed
qed

lemma keeps_wreturn: "order_like R \<Longrightarrow> keeps R (wreturn x)"
  by (simp add: keeps_def wreturn_def order_like_def)

lemma keeps_wraise: "order_like R \<Longrightarrow> keeps R (wraise x)"
  by (simp add: keeps_def wraise_def order_like_def)

lemma keeps_wlift: "order_like R \<Longrightarrow> keeps R (wlift x)"
  by (simp add: keeps_def wlift_def order_like_def)

lemma keeps_if: "(b \<Longrightarrow> keeps R m) \<Longrightarrow> (\<not> b \<Longrightarrow> keeps R n) \<Longrightarrow> keeps R (if b then m else n)"
  by simp

lemma keeps_for_each_act:
  assumes "order_like R" and "\<And>x. keeps R (body x)"
  shows "keeps R (for_each_act body xs)"
  by (induction xs) (simp_all add: keeps_wreturn keeps_wbind assms)

lemma sim_step_order: "order_like (sim_step c)"
  unfolding order_like_def
proof (intro conjI allI impI)
  fix w show "sim_step c w w" by (simp add: sim_step_def new_calls_def)
next
  fix a b d assume ab: "sim_step c a b" and bd: "sim_step c b d"
  from ab obtain n1 where n1: "calls b = calls a @ n1" "list_all (\<lambda>k. simulated c (argv k)) n1"
    unfolding sim_step_def new_calls_def
    by (metis append_take_drop_id)
  from bd obtain n2 where n2: "calls d = calls b @ n2" "list_all (\<lambda>k. simulated c (argv k)) n2"
    unfolding sim_step_def new_calls_def
    by (metis append_take_drop_id)
  show "sim_step c a d"
    using ab bd n1 n2 by (simp add: sim_step_def new_calls_def)
qed

lemma sim_step_same:
  "lastsync_txt w' = lastsync_txt w \<Longrightarrow> calls w' = calls w \<Longrightarrow> sim_step c w w'"
  by (simp add: sim_step_def new_calls_def)

lemma keeps_sim_open_write: "keeps (sim_step c) (open_write name xs)"
  by (rule keepsI) (auto simp: open_write_def split: option.splits intro!: sim_step_same)

lemma keeps_sim_open_read: "keeps (sim_step c) (open_read name)"
  by (rule keepsI) (auto simp: open_read_def split: option.splits intro!: sim_step_same)

lemma keeps_sim_os_remove: "keeps (sim_step c) (os_remove name)"
  by (rule keepsI) (auto simp: os_remove_def split: option.splits intro!: sim_step_same)

lemma keeps_sim_deposit: "keeps (sim_step c) (deposit name rep)"
  by (rule keepsI) (auto simp: deposit_def split: option.splits intro!: sim_step_same)

lemma keeps_sim_exec_cmd: "simulated c cmd \<Longrightarrow> keeps (sim_step c) (exec_cmd e cmd chk)"
  by (rule keepsI) (auto simp: exec_cmd_def Let_def sim_step_def new_calls_def split: if_splits)

lemma keeps_sim_exec_rclone:
  "dryrun c \<Longrightarrow> keeps (sim_step c) (exec_rclone e c cmd chk)"
  unfolding exec_rclone_def Let_def
  by (auto split: list.splits simp: keeps_wraise sim_step_order simulated_def
      intro!: keeps_sim_exec_cmd)

lemmas sim_rules = keeps_wbind [OF sim_step_order] keeps_wreturn [OF sim_step_order]
  keeps_wraise [OF sim_step_order] keeps_wlift [OF sim_step_order]
  keeps_for_each_act [OF sim_step_order]
  keeps_sim_open_write keeps_sim_open_read keeps_sim_os_remove keeps_sim_deposit
  keeps_sim_exec_rclone

lemma sim_load_last_sync: "keeps (sim_step c) (load_last_sync e s)"
  by (rule keepsI)
    (auto simp: load_last_sync_def split: option.splits list.splits intro!: sim_step_same)

lemma sim_run_check:
  "dryrun (configuration s) \<Longrightarrow> keeps (sim_step (configuration s)) (run_check e s)"
  unfolding run_check_def check_reports_def Let_def
  by simp (intro sim_rules, simp_all)

lemma sim_get_modtimes:
  "dryrun (configuration s) \<Longrightarrow> keeps (sim_step (configuration s)) (get_modtimes e s)"
  unfolding get_modtimes_def Let_def
  by (intro sim_rules) simp_all

lemma sim_apply_local_move:
  "dryrun (configuration s) \<Longrightarrow> keeps (sim_step (configuration s)) (apply_local_move e s)"
  unfolding apply_local_move_def Let_def
  by (simp add: sim_rules)

lemma sim_apply_local_backup:
  "dryrun (configuration s) \<Longrightarrow> keeps (sim_step (configuration s)) (apply_local_backup e bp s)"
  unfolding apply_local_backup_def Let_def
  by (intro keeps_if sim_rules) simp_all

lemma sim_apply_remote_backup:
  "dryrun (configuration s) \<Longrightarrow> keeps (sim_step (configuration s)) (apply_remote_backup e bp s)"
  unfolding apply_remote_backup_def Let_def
  by (intro keeps_if sim_rules) simp_all

lemma sim_apply_upload:
  "dryrun (configuration s) \<Longrightarrow> keeps (sim_step (configuration s)) (apply_upload e s)"
  unfolding apply_upload_def Let_def
  by (intro keeps_if sim_rules) simp_all

lemma sim_apply_download:
  "dryrun (configuration s) \<Longrightarrow> keeps (sim_step (configuration s)) (apply_download e s)"
  unfolding apply_download_def Let_def
  by (intro keeps_if sim_rules) simp_all

lemma sim_action:
  "dryrun (configuration s) \<Longrightarrow> keeps (sim_step (configuration s)) (action e s)"
  unfolding action_def Let_def
  by (intro sim_rules sim_apply_local_move sim_apply_local_backup sim_apply_remote_backup
      sim_apply_upload sim_apply_download) simp_all

text \<open>The configuration of the object never changes.\<close>

lemma yieldsI: "(\<And>w x w'. m w = (Inr x, w') \<Longrightarrow> Q x) \<Longrightarrow> yields Q m"
  by (simp add: yields_def)

lemma config_load_last_sync:
  "yields (\<lambda>s'. configuration s' = configuration s) (load_last_sync e s)"
  by (rule yieldsI) (auto simp: load_last_sync_def split: option.splits list.splits)

lemma config_run_check:
  "yields (\<lambda>s'. configuration s' = configuration s) (run_check e s)"
  by (rule yieldsI) (auto simp: run_check_def Let_def wbind_Inr wreturn_def)

lemma config_get_modtimes:
  "yields (\<lambda>s'. configuration s' = configuration s) (get_modtimes e s)"
  by (rule yieldsI) (auto simp: get_modtimes_def Let_def wbind_Inr wreturn_def)

lemma config_sync_sort:
  "yields (\<lambda>s'. configuration s' = configuration s) (wlift (sync_sort stamp s))"
  by (rule yieldsI) (auto simp: wlift_def dest!: sync_sort_lists(1) simp: same_inputs_def)

lemma sim_run:
  assumes "dryrun (configuration s)"
  shows "keeps (sim_step (configuration s)) (run e s)"
  unfolding run_def
proof (intro keeps_wbind_yield [OF sim_step_order _ config_load_last_sync [of s e]]
    sim_load_last_sync)
  fix s1 :: "'a sync" assume c1: "configuration s1 = configuration s"
  show "keeps (sim_step (configuration s))
          (wbind (run_check e s1) (\<lambda>s2. wbind (get_modtimes e s2) (\<lambda>s3.
             wbind (wlift (sync_sort (clock_sort e) s3)) (\<lambda>s4.
               wbind (action e s4) (\<lambda>_.
                 if \<not> dryrun (configuration s4)
                 then wbind (set_last_sync s4) (\<lambda>_. wreturn s4) else wreturn s4)))))"
  proof (intro keeps_wbind_yield [OF sim_step_order _ config_run_check [of s1 e]])
    show "keeps (sim_step (configuration s)) (run_check e s1)"
      using sim_run_check [of s1 e] assms c1 by simp
  next
    fix s2 :: "'a sync" assume c2: "configuration s2 = configuration s1"
    show "keeps (sim_step (configuration s))
          (wbind (get_modtimes e s2) (\<lambda>s3.
             wbind (wlift (sync_sort (clock_sort e) s3)) (\<lambda>s4.
               wbind (action e s4) (\<lambda>_.
                 if \<not> dryrun (configuration s4)
                 then wbind (set_last_sync s4) (\<lambda>_. wreturn s4) else wreturn s4))))"
    proof (intro keeps_wbind_yield [OF sim_step_order _ config_get_modtimes [of s2 e]])
      show "keeps (sim_step (configuration s)) (get_modtimes e s2)"
        using sim_get_modtimes [of s2 e] assms c1 c2 by simp
    next
      fix s3 :: "'a sync" assume c3: "configuration s3 = configuration s2"
      show "keeps (sim_step (configuration s))
             (wbind (wlift (sync_sort (clock_sort e) s3)) (\<lambda>s4.
               wbind (action e s4) (\<lambda>_.
                 if \<not> dryrun (configuration s4)
                 then wbind (set_last_sync s4) (\<lambda>_. wreturn s4) else wreturn s4)))"
      proof (intro keeps_wbind_yield [OF sim_step_order _ config_sync_sort [of s3]])
        show "keeps (sim_step (configuration s)) (wlift (sync_sort (clock_sort e) s3))"
          by (rule sim_rules)
      next
        fix s4 :: "'a sync" assume c4: "configuration s4 = configuration s3"
        have d4: "dryrun (configuration s4)" and e4: "configuration s4 = configuration s"
          using assms c1 c2 c3 c4 by simp_all
        show "keeps (sim_step (configuration s))
               (wbind (action e s4) (\<lambda>_.
                 if \<not> dryrun (configuration s4)
                 then wbind (set_last_sync s4) (\<lambda>_. wreturn s4) else wreturn s4))"
          using sim_action [OF d4, of e] d4 e4
          by (auto intro!: sim_rules)
      qed
    qed
  qed
qed

lemma emitsI:
  assumes "\<And>w r w'. m w = (r, w') \<Longrightarrow>
     (\<exists>n \<le> length xs. map argv (calls w') = map argv (calls w) @ take n xs) \<and>
     (isl r \<or> map argv (calls w') = map argv (calls w) @ xs)"
  shows "emits m xs"
  using assms by (simp add: emits_def)

lemma emits_quiet:
  assumes "\<And>w r w'. m w = (r, w') \<Longrightarrow> calls w' = calls w"
  shows "emits m []"
  using assms by (auto simp: emits_def)

lemma emits_wbind:
  assumes "emits m xs" and "\<And>x. emits (f x) ys"
  shows "emits (wbind m f) (xs @ ys)"
proof (rule emitsI)
  fix w r w' assume "wbind m f w = (r, w')"
  then show "(\<exists>n \<le> length (xs @ ys). map argv (calls w') = map argv (calls w) @ take n (xs @ ys)) \<and>
     (isl r \<or> map argv (calls w') = map argv (calls w) @ xs @ ys)"
  proof (cases rule: wbind_cases)
    case (fails x)
    with assms(1) obtain n where n: "n \<le> length xs"
      "map argv (calls w') = map argv (calls w) @ take n xs"
      unfolding emits_def by blast
    then have "map argv (calls w') = map argv (calls w) @ take n (xs @ ys)" by simp
    with n(1) fails(2) show ?thesis by (intro conjI exI [of _ n]) simp_all
  next
    case (goes x w1)
    with assms(1) have a: "map argv (calls w1) = map argv (calls w) @ xs"
      unfolding emits_def by (metis sum.disc(2))
    from goes(2) assms(2) [of x] obtain n where n: "n \<le> length ys"
      "map argv (calls w') = map argv (calls w1) @ take n ys"
      and full: "isl r \<or> map argv (calls w') = map argv (calls w1) @ ys"
      unfolding emits_def by blast
    have "map argv (calls w') = map argv (calls w) @ take (length xs + n) (xs @ ys)"
      using a n(2) by simp
    moreover have "length xs + n \<le> length (xs @ ys)" using n(1) by simp
    ultimately show ?thesis using full a by (intro conjI exI [of _ "length xs + n"]) auto
  qed
qed

lemma emits_wreturn: "emits (wreturn x) []"
  by (rule emits_quiet) (simp add: wreturn_def)

lemma emits_open_write: "emits (open_write name xs) []"
  by (rule emits_quiet) (auto simp: open_write_def split: option.splits)

lemma emits_os_remove: "emits (os_remove name) []"
  by (rule emits_quiet) (auto simp: os_remove_def split: option.splits)

lemma emits_exec_cmd: "emits (exec_cmd e cmd chk) [cmd]"
  by (rule emitsI) (auto simp: exec_cmd_def Let_def split: if_splits intro: exI [of _ 1])

lemma emits_exec_rclone:
  "cmd \<noteq> [] \<Longrightarrow> hd cmd \<noteq> ''check'' \<Longrightarrow> emits (exec_rclone e c cmd chk) [rclone_argv c cmd]"
  using emits_exec_cmd [of e "rclone_argv c cmd" chk]
  by (cases cmd) (auto simp: exec_rclone_def rclone_argv_def Let_def)

lemma emits_eq: "emits m xs \<Longrightarrow> xs = ys \<Longrightarrow> emits m ys"
  by simp

lemma emits_renames:
  "emits (for_each_act
      (\<lambda>file. wbind (exec_cmd e [''mv'', folder c @ fst file, folder c @ snd file] True)
                 (\<lambda>_. wreturn ())) ms)
    (map (\<lambda>(a, b). [''mv'', folder c @ a, folder c @ b]) ms)"
proof (induction ms)
  case Nil
  show ?case by (simp add: emits_wreturn)
next
  case (Cons m ms)
  have "emits (wbind (exec_cmd e [''mv'', folder c @ fst m, folder c @ snd m] True)
                 (\<lambda>_. wreturn ())) ([[''mv'', folder c @ fst m, folder c @ snd m]] @ [])"
    by (intro emits_wbind emits_exec_cmd emits_wreturn)
  from emits_wbind [OF this, of "\<lambda>_. for_each_act
      (\<lambda>file. wbind (exec_cmd e [''mv'', folder c @ fst file, folder c @ snd file] True)
                 (\<lambda>_. wreturn ())) ms", OF Cons.IH]
  show ?case by (simp add: case_prod_unfold)
qed

lemma emits_apply_local_move:
  "emits (apply_local_move e s)
     (if dryrun (configuration s) then [] else step_renames (configuration s) s)"
  by (simp add: apply_local_move_def step_renames_def Let_def emits_renames emits_wreturn)

lemma emits_apply_local_backup:
  "emits (apply_local_backup e (''.rclouned/backups/'' @ stamp @ ''/'') s)
     (step_local_backup (configuration s) stamp s)"
proof (cases "local_backup s = []")
  case True
  then show ?thesis
    by (simp add: apply_local_backup_def step_local_backup_def Let_def emits_wreturn)
next
  case False
  then show ?thesis
    unfolding apply_local_backup_def step_local_backup_def Let_def
    by (simp, intro emits_eq [OF emits_wbind [OF emits_open_write emits_wbind
          [OF emits_exec_rclone emits_wbind [OF emits_exec_rclone emits_os_remove]]]]) simp_all
qed

lemma emits_apply_remote_backup:
  "emits (apply_remote_backup e (''.rclouned/backups/'' @ stamp @ ''/'') s)
     (step_remote_backup (configuration s) stamp s)"
proof (cases "remote_backup s = []")
  case True
  then show ?thesis
    by (simp add: apply_remote_backup_def step_remote_backup_def Let_def emits_wreturn)
next
  case False
  then show ?thesis
    unfolding apply_remote_backup_def step_remote_backup_def Let_def
    by (simp, intro emits_eq [OF emits_wbind [OF emits_open_write emits_wbind
          [OF emits_exec_rclone emits_wbind [OF emits_exec_rclone emits_os_remove]]]]) simp_all
qed

lemma emits_apply_upload:
  "emits (apply_upload e s) (step_upload (configuration s) s)"
proof (cases "upload s = []")
  case True
  then show ?thesis
    by (simp add: apply_upload_def step_upload_def Let_def emits_wreturn)
next
  case False
  then show ?thesis
    unfolding apply_upload_def step_upload_def Let_def
    by (simp, intro emits_eq [OF emits_wbind [OF emits_open_write emits_wbind
          [OF emits_exec_rclone emits_os_remove]]]) simp_all
qed

lemma emits_apply_download:
  "emits (apply_download e s) (step_download (configuration s) s)"
proof (cases "download s = []")
  case True
  then show ?thesis
    by (simp add: apply_download_def step_download_def Let_def emits_wreturn)
next
  case False
  then show ?thesis
    unfolding apply_download_def step_download_def Let_def
    by (simp, intro emits_eq [OF emits_wbind [OF emits_open_write emits_wbind
          [OF emits_exec_rclone emits_os_remove]]]) simp_all
qed

lemma emits_action:
  "emits (action e s) (plan_commands (configuration s) (clock_action e) s)"
  unfolding action_def plan_commands_def Let_def
  by (intro emits_wbind emits_apply_local_move emits_apply_local_backup
      emits_apply_remote_backup emits_apply_upload emits_apply_download)

subsection \<open>The scratch directory is empty again after every method that returns\<close>

lemma tidyI:
  assumes "\<And>w x w'. sync_tmp w = Some [] \<Longrightarrow> m w = (Inr x, w') \<Longrightarrow> sync_tmp w' = Some []"
  shows "tidy m"
  unfolding tidy_def by (intro allI impI) (rule assms)

lemma tidyD:
  assumes "tidy m" and "sync_tmp w = Some []" and "m w = (Inr x, w')"
  shows "sync_tmp w' = Some []"
  using assms(1) [unfolded tidy_def, rule_format, OF assms(2,3)] .

lemma tidy_wbind:
  assumes "tidy m" and "\<And>x. tidy (f x)"
  shows "tidy (wbind m f)"
proof (rule tidyI)
  fix w x w' assume w: "sync_tmp w = Some []" and b: "wbind m f w = (Inr x, w')"
  from b obtain y w1 where m: "m w = (Inr y, w1)" and f: "f y w1 = (Inr x, w')"
    unfolding wbind_Inr by blast
  from tidyD [OF assms(1) w m] have "sync_tmp w1 = Some []" .
  from tidyD [OF assms(2) this f] show "sync_tmp w' = Some []" .
qed

lemma tidy_wreturn: "tidy (wreturn x)"
  by (simp add: tidy_def wreturn_def)

lemma tidy_wlift: "tidy (wlift r)"
  by (simp add: tidy_def wlift_def)

lemma exec_cmd_scratch: "exec_cmd e cmd chk w = (r, w') \<Longrightarrow> sync_tmp w' = sync_tmp w"
  by (auto simp: exec_cmd_def Let_def split: if_splits)

lemma exec_rclone_scratch: "exec_rclone e c cmd chk w = (r, w') \<Longrightarrow> sync_tmp w' = sync_tmp w"
  by (auto simp: exec_rclone_def Let_def wraise_def split: if_splits list.splits
      dest: exec_cmd_scratch)

lemma tidy_exec_cmd: "tidy (exec_cmd e cmd chk)"
  by (rule tidyI) (simp add: exec_cmd_scratch)

lemma tidy_for_each_act: "(\<And>x. tidy (body x)) \<Longrightarrow> tidy (for_each_act body xs)"
  by (induction xs) (simp_all add: tidy_wreturn tidy_wbind)

text \<open>A block that writes a list file, runs commands and removes the file.\<close>

lemma listed_one:
  assumes "sync_tmp w = Some []"
    and "wbind (open_write name xs) (\<lambda>_. wbind (exec_rclone e c cmd chk) (\<lambda>_. os_remove name)) w
           = (Inr x, w')"
  shows "sync_tmp w' = Some []"
proof -
  from assms(2) obtain w1 y w2 where
    a: "open_write name xs w = (Inr (), w1)" and
    b: "exec_rclone e c cmd chk w1 = (Inr y, w2)" and
    d: "os_remove name w2 = (Inr x, w')"
    unfolding wbind_Inr by auto
  from a assms(1) have "sync_tmp w1 = Some [(name, xs)]"
    by (auto simp: open_write_def)
  with exec_rclone_scratch [OF b] have "sync_tmp w2 = Some [(name, xs)]" by simp
  with d show ?thesis by (auto simp: os_remove_def)
qed

lemma listed_two:
  assumes "sync_tmp w = Some []"
    and "wbind (open_write name xs) (\<lambda>_. wbind (exec_rclone e c cmd chk)
           (\<lambda>_. wbind (exec_rclone e c cmd' chk') (\<lambda>_. os_remove name))) w = (Inr x, w')"
  shows "sync_tmp w' = Some []"
proof -
  from assms(2) obtain w1 y w2 y' w3 where
    a: "open_write name xs w = (Inr (), w1)" and
    b: "exec_rclone e c cmd chk w1 = (Inr y, w2)" and
    b': "exec_rclone e c cmd' chk' w2 = (Inr y', w3)" and
    d: "os_remove name w3 = (Inr x, w')"
    unfolding wbind_Inr by auto
  from a assms(1) have "sync_tmp w1 = Some [(name, xs)]"
    by (auto simp: open_write_def)
  with exec_rclone_scratch [OF b] exec_rclone_scratch [OF b']
  have "sync_tmp w3 = Some [(name, xs)]" by simp
  with d show ?thesis by (auto simp: os_remove_def)
qed

lemma tidy_apply_local_move: "tidy (apply_local_move e s)"
  unfolding apply_local_move_def Let_def
  by (auto intro!: tidy_for_each_act tidy_wbind tidy_exec_cmd tidy_wreturn)

lemma tidy_apply_local_backup: "tidy (apply_local_backup e bp s)"
  by (rule tidyI)
    (auto simp: apply_local_backup_def Let_def wreturn_def split: if_splits dest: listed_two)

lemma tidy_apply_remote_backup: "tidy (apply_remote_backup e bp s)"
  by (rule tidyI)
    (auto simp: apply_remote_backup_def Let_def wreturn_def split: if_splits dest: listed_two)

lemma tidy_apply_upload: "tidy (apply_upload e s)"
  by (rule tidyI)
    (auto simp: apply_upload_def Let_def wreturn_def split: if_splits dest: listed_one)

lemma tidy_apply_download: "tidy (apply_download e s)"
  by (rule tidyI)
    (auto simp: apply_download_def Let_def wreturn_def split: if_splits dest: listed_one)

lemma tidy_action: "tidy (action e s)"
  unfolding action_def Let_def
  by (intro tidy_wbind tidy_apply_local_move tidy_apply_local_backup tidy_apply_remote_backup
      tidy_apply_upload tidy_apply_download)

lemma tidy_load_last_sync: "tidy (load_last_sync e s)"
  by (rule tidyI) (auto simp: load_last_sync_def split: option.splits list.splits)

lemma tidy_set_last_sync: "tidy (set_last_sync s)"
  by (rule tidyI) (auto simp: set_last_sync_def)

lemma open_write_empty:
  "sync_tmp w = Some [] \<Longrightarrow> open_write name xs w = (r, w') \<Longrightarrow> sync_tmp w' = Some [(name, xs)]"
  by (auto simp: open_write_def)

lemma os_remove_single:
  "sync_tmp w = Some [(name, xs)] \<Longrightarrow> os_remove name w = (r, w') \<Longrightarrow> sync_tmp w' = Some []"
  by (auto simp: os_remove_def)

lemma wlift_same: "wlift r w = (r', w') \<Longrightarrow> w' = w"
  by (auto simp: wlift_def)

lemma wbind_InrE:
  assumes "wbind m f w = (Inr y, w')"
  obtains x w1 where "m w = (Inr x, w1)" and "f x w1 = (Inr y, w')"
  using assms unfolding wbind_Inr by blast

lemma tidy_get_modtimes: "tidy (get_modtimes e s)"
proof (rule tidyI)
  fix w x w' assume w: "sync_tmp w = Some []" and g: "get_modtimes e s w = (Inr x, w')"
  define c where "c = configuration s"
  define l0 where "l0 = set_none (src s) (set_none (diff s) ([] :: (path \<times> 'a pyval) list))"
  define r0 where "r0 = set_none (dst s) (set_none (diff s) ([] :: (path \<times> 'a pyval) list))"
  define lcmd where
    "lcmd = lsf_cmd (folder c @ ''.rclouned/sync.tmp/local_check.txt'') (folder c)"
  define rcmd where
    "rcmd = lsf_cmd (folder c @ ''.rclouned/sync.tmp/remote_check.txt'')
              (remote c @ '':'' @ subdir c)"
  have g': "wbind (open_write ''local_check.txt'' (map fst l0)) (\<lambda>_.
      wbind (exec_rclone e c lcmd True) (\<lambda>local_modtimes.
      wbind (wlift (for_each (read_modtime e) (map strip local_modtimes) l0)) (\<lambda>local1.
      wbind (os_remove ''local_check.txt'') (\<lambda>_.
      wbind (open_write ''remote_check.txt'' (map fst r0)) (\<lambda>_.
      wbind (exec_rclone e c rcmd True) (\<lambda>remote_modtimes.
      wbind (wlift (for_each (read_modtime e) (map strip remote_modtimes) r0)) (\<lambda>remote1.
      wbind (os_remove ''remote_check.txt'') (\<lambda>_.
      wreturn (s\<lparr>local_check := local1, remote_check := remote1\<rparr>))))))))) w = (Inr x, w')"
    using g unfolding get_modtimes_def Let_def c_def l0_def r0_def lcmd_def rcmd_def .
  from g' obtain u1 w1 where a1: "open_write ''local_check.txt'' (map fst l0) w = (Inr u1, w1)"
    and k1: "wbind (exec_rclone e c lcmd True) (\<lambda>local_modtimes.
      wbind (wlift (for_each (read_modtime e) (map strip local_modtimes) l0)) (\<lambda>local1.
      wbind (os_remove ''local_check.txt'') (\<lambda>_.
      wbind (open_write ''remote_check.txt'' (map fst r0)) (\<lambda>_.
      wbind (exec_rclone e c rcmd True) (\<lambda>remote_modtimes.
      wbind (wlift (for_each (read_modtime e) (map strip remote_modtimes) r0)) (\<lambda>remote1.
      wbind (os_remove ''remote_check.txt'') (\<lambda>_.
      wreturn (s\<lparr>local_check := local1, remote_check := remote1\<rparr>)))))))) w1 = (Inr x, w')"
    by (rule wbind_InrE)
  from k1 obtain o1 w2 where a2: "exec_rclone e c lcmd True w1 = (Inr o1, w2)"
    and k2: "wbind (wlift (for_each (read_modtime e) (map strip o1) l0)) (\<lambda>local1.
      wbind (os_remove ''local_check.txt'') (\<lambda>_.
      wbind (open_write ''remote_check.txt'' (map fst r0)) (\<lambda>_.
      wbind (exec_rclone e c rcmd True) (\<lambda>remote_modtimes.
      wbind (wlift (for_each (read_modtime e) (map strip remote_modtimes) r0)) (\<lambda>remote1.
      wbind (os_remove ''remote_check.txt'') (\<lambda>_.
      wreturn (s\<lparr>local_check := local1, remote_check := remote1\<rparr>))))))) w2 = (Inr x, w')"
    by (rule wbind_InrE)
  from k2 obtain l1 w3 where a3: "wlift (for_each (read_modtime e) (map strip o1) l0) w2
      = (Inr l1, w3)"
    and k3: "wbind (os_remove ''local_check.txt'') (\<lambda>_.
      wbind (open_write ''remote_check.txt'' (map fst r0)) (\<lambda>_.
      wbind (exec_rclone e c rcmd True) (\<lambda>remote_modtimes.
      wbind (wlift (for_each (read_modtime e) (map strip remote_modtimes) r0)) (\<lambda>remote1.
      wbind (os_remove ''remote_check.txt'') (\<lambda>_.
      wreturn (s\<lparr>local_check := l1, remote_check := remote1\<rparr>)))))) w3 = (Inr x, w')"
    by (rule wbind_InrE)
  from k3 obtain u4 w4 where a4: "os_remove ''local_check.txt'' w3 = (Inr u4, w4)"
    and k4: "wbind (open_write ''remote_check.txt'' (map fst r0)) (\<lambda>_.
      wbind (exec_rclone e c rcmd True) (\<lambda>remote_modtimes.
      wbind (wlift (for_each (read_modtime e) (map strip remote_modtimes) r0)) (\<lambda>remote1.
      wbind (os_remove ''remote_check.txt'') (\<lambda>_.
      wreturn (s\<lparr>local_check := l1, remote_check := remote1\<rparr>))))) w4 = (Inr x, w')"
    by (rule wbind_InrE)
  from k4 obtain u5 w5 where a5: "open_write ''remote_check.txt'' (map fst r0) w4 = (Inr u5, w5)"
    and k5: "wbind (exec_rclone e c rcmd True) (\<lambda>remote_modtimes.
      wbind (wlift (for_each (read_modtime e) (map strip remote_modtimes) r0)) (\<lambda>remote1.
      wbind (os_remove ''remote_check.txt'') (\<lambda>_.
      wreturn (s\<lparr>local_check := l1, remote_check := remote1\<rparr>)))) w5 = (Inr x, w')"
    by (rule wbind_InrE)
  from k5 obtain o2 w6 where a6: "exec_rclone e c rcmd True w5 = (Inr o2, w6)"
    and k6: "wbind (wlift (for_each (read_modtime e) (map strip o2) r0)) (\<lambda>remote1.
      wbind (os_remove ''remote_check.txt'') (\<lambda>_.
      wreturn (s\<lparr>local_check := l1, remote_check := remote1\<rparr>))) w6 = (Inr x, w')"
    by (rule wbind_InrE)
  from k6 obtain r1 w7 where a7: "wlift (for_each (read_modtime e) (map strip o2) r0) w6
      = (Inr r1, w7)"
    and k7: "wbind (os_remove ''remote_check.txt'') (\<lambda>_.
      wreturn (s\<lparr>local_check := l1, remote_check := r1\<rparr>)) w7 = (Inr x, w')"
    by (rule wbind_InrE)
  from k7 obtain u8 w8 where a8: "os_remove ''remote_check.txt'' w7 = (Inr u8, w8)"
    and k8: "wreturn (s\<lparr>local_check := l1, remote_check := r1\<rparr>) w8 = (Inr x, w')"
    by (rule wbind_InrE)
  from open_write_empty [OF w a1] exec_rclone_scratch [OF a2] wlift_same [OF a3]
  have "sync_tmp w3 = Some [(''local_check.txt'', map fst l0)]" by simp
  from os_remove_single [OF this a4] have "sync_tmp w4 = Some []" .
  from open_write_empty [OF this a5] exec_rclone_scratch [OF a6] wlift_same [OF a7]
  have "sync_tmp w7 = Some [(''remote_check.txt'', map fst r0)]" by simp
  from os_remove_single [OF this a8] k8 show "sync_tmp w' = Some []"
    by (simp add: wreturn_def)
qed

lemma deposit_keys:
  assumes "deposit name rep w = (r, w')" and "sync_tmp w = Some fs"
  obtains fs' where "sync_tmp w' = Some fs'"
    and "set (map fst fs') \<subseteq> insert name (set (map fst fs))"
proof (cases rep)
  case None
  with assms have "sync_tmp w' = Some fs" by (auto simp: deposit_def)
  moreover have "set (map fst fs) \<subseteq> insert name (set (map fst fs))" by blast
  ultimately show ?thesis by (rule that)
next
  case (Some content)
  with assms have "sync_tmp w' = Some (AList.update name content fs)"
    by (auto simp: deposit_def)
  moreover have "set (map fst (AList.update name content fs)) \<subseteq> insert name (set (map fst fs))"
    by (auto simp: update_keys)
  ultimately show ?thesis by (rule that)
qed

lemma remove_keys:
  assumes "os_remove name w = (Inr x, w')" and "sync_tmp w = Some fs"
  obtains fs' where "sync_tmp w' = Some fs'"
    and "set (map fst fs') = set (map fst fs) - {name}"
proof -
  from assms have "sync_tmp w' = Some (AList.delete name fs)"
    by (auto simp: os_remove_def split: option.splits)
  moreover have "set (map fst (AList.delete name fs)) = set (map fst fs) - {name}"
    by (auto simp: delete_keys)
  ultimately show ?thesis by (rule that)
qed

lemma open_read_same: "open_read name w = (r, w') \<Longrightarrow> w' = w"
  by (auto simp: open_read_def split: option.splits)

lemma deposit_result: "\<exists>w'. deposit name rep w = (Inr (), w')"
  by (simp add: deposit_def split: option.splits)

lemma tidy_check_reports:
  assumes "check_reports e w = (r, w')" and "sync_tmp w = Some []"
  shows "\<exists>fs. sync_tmp w' = Some fs \<and>
           set (map fst fs) \<subseteq> {''diff.txt'', ''dst.txt'', ''src.txt''}"
proof -
  obtain w2 where a2: "deposit ''diff.txt'' (report_differ e) w = (Inr (), w2)"
    using deposit_result by blast
  obtain w3 where a3: "deposit ''dst.txt'' (report_dst e) w2 = (Inr (), w3)"
    using deposit_result by blast
  obtain w4 where a4': "deposit ''src.txt'' (report_src e) w3 = (Inr (), w4)"
    using deposit_result by blast
  have "check_reports e w = (Inr (), w4)"
    by (simp add: check_reports_def wbind_def a2 a3 a4')
  with assms(1) have a4: "deposit ''src.txt'' (report_src e) w3 = (Inr (), w')"
    using a4' by simp
  define none :: "(string \<times> string list) list" where "none = []"
  from a2 assms(2) [folded none_def] obtain f2 where
    f2: "sync_tmp w2 = Some f2" "set (map fst f2) \<subseteq> insert ''diff.txt'' (set (map fst none))"
    by (rule deposit_keys)
  from a3 f2(1) obtain f3 where
    f3: "sync_tmp w3 = Some f3" "set (map fst f3) \<subseteq> insert ''dst.txt'' (set (map fst f2))"
    by (rule deposit_keys)
  from a4 f3(1) obtain f4 where
    f4: "sync_tmp w' = Some f4" "set (map fst f4) \<subseteq> insert ''src.txt'' (set (map fst f3))"
    by (rule deposit_keys)
  have "set (map fst f4) \<subseteq> insert ''src.txt'' (insert ''dst.txt'' (insert ''diff.txt'' {}))"
    using f2(2) f3(2) f4(2) unfolding none_def list.map list.set
    by (meson insert_mono subset_trans)
  then have "set (map fst f4) \<subseteq> {''diff.txt'', ''dst.txt'', ''src.txt''}"
    by (simp only: insert_commute)
  with f4(1) show ?thesis by (intro exI conjI)
qed

lemma three_removed:
  assumes "sync_tmp w = Some fs"
    and "set (map fst fs) \<subseteq> {''diff.txt'', ''dst.txt'', ''src.txt''}"
    and "wbind (os_remove ''diff.txt'') (\<lambda>_. wbind (os_remove ''dst.txt'') (\<lambda>_.
           wbind (os_remove ''src.txt'') (\<lambda>_. wreturn y))) w = (Inr x, w')"
  shows "sync_tmp w' = Some []"
proof -
  from assms(3) obtain u1 w5 u2 w6 u3 where
    d1: "os_remove ''diff.txt'' w = (Inr u1, w5)" and
    d2: "os_remove ''dst.txt'' w5 = (Inr u2, w6)" and
    d3: "os_remove ''src.txt'' w6 = (Inr u3, w')"
    unfolding wbind_Inr wreturn_def by auto
  from d1 assms(1) obtain f5 where
    f5: "sync_tmp w5 = Some f5" "set (map fst f5) = set (map fst fs) - {''diff.txt''}"
    by (rule remove_keys)
  from d2 f5(1) obtain f6 where
    f6: "sync_tmp w6 = Some f6" "set (map fst f6) = set (map fst f5) - {''dst.txt''}"
    by (rule remove_keys)
  from d3 f6(1) obtain f7 where
    f7: "sync_tmp w' = Some f7" "set (map fst f7) = set (map fst f6) - {''src.txt''}"
    by (rule remove_keys)
  have "set (map fst f7) = set (map fst fs) - {''diff.txt''} - {''dst.txt''} - {''src.txt''}"
    by (simp only: f5(2) f6(2) f7(2))
  also have "\<dots> = {}" using assms(2) by blast
  finally have "map fst f7 = []" by (simp only: set_empty)
  then have "f7 = []" by (simp only: map_is_Nil_conv)
  with f7(1) show ?thesis by (simp only:)
qed

lemma tidy_run_check: "tidy (run_check e s)"
proof (rule tidyI)
  fix w x w' assume w: "sync_tmp w = Some []" and g: "run_check e s w = (Inr x, w')"
  note g' = g [unfolded run_check_def Let_def]
  from g' obtain o1 w1 where a1: "exec_rclone e (configuration (s\<lparr>syncstart := clock_check e\<rparr>))
      (check_cmd (configuration (s\<lparr>syncstart := clock_check e\<rparr>))) False w = (Inr o1, w1)"
    and k1: "wbind (check_reports e) (\<lambda>_.
      wbind (open_read ''diff.txt'') (\<lambda>ls1.
      wbind (open_read ''dst.txt'') (\<lambda>ls2.
      wbind (open_read ''src.txt'') (\<lambda>ls3.
      wbind (os_remove ''diff.txt'') (\<lambda>_.
      wbind (os_remove ''dst.txt'') (\<lambda>_.
      wbind (os_remove ''src.txt'') (\<lambda>_.
      wreturn (s\<lparr>syncstart := clock_check e, diff := map strip ls1,
                 dst := map strip ls2, src := map strip ls3\<rparr>)))))))) w1 = (Inr x, w')"
    by (rule wbind_InrE)
  from k1 obtain u2 w4 where a2: "check_reports e w1 = (Inr u2, w4)"
    and k2: "wbind (open_read ''diff.txt'') (\<lambda>ls1.
      wbind (open_read ''dst.txt'') (\<lambda>ls2.
      wbind (open_read ''src.txt'') (\<lambda>ls3.
      wbind (os_remove ''diff.txt'') (\<lambda>_.
      wbind (os_remove ''dst.txt'') (\<lambda>_.
      wbind (os_remove ''src.txt'') (\<lambda>_.
      wreturn (s\<lparr>syncstart := clock_check e, diff := map strip ls1,
                 dst := map strip ls2, src := map strip ls3\<rparr>))))))) w4 = (Inr x, w')"
    by (rule wbind_InrE)
  from k2 obtain l1 w4a where r1: "open_read ''diff.txt'' w4 = (Inr l1, w4a)"
    and k3: "wbind (open_read ''dst.txt'') (\<lambda>ls2.
      wbind (open_read ''src.txt'') (\<lambda>ls3.
      wbind (os_remove ''diff.txt'') (\<lambda>_.
      wbind (os_remove ''dst.txt'') (\<lambda>_.
      wbind (os_remove ''src.txt'') (\<lambda>_.
      wreturn (s\<lparr>syncstart := clock_check e, diff := map strip l1,
                 dst := map strip ls2, src := map strip ls3\<rparr>)))))) w4a = (Inr x, w')"
    by (rule wbind_InrE)
  from k3 obtain l2 w4b where r2: "open_read ''dst.txt'' w4a = (Inr l2, w4b)"
    and k4: "wbind (open_read ''src.txt'') (\<lambda>ls3.
      wbind (os_remove ''diff.txt'') (\<lambda>_.
      wbind (os_remove ''dst.txt'') (\<lambda>_.
      wbind (os_remove ''src.txt'') (\<lambda>_.
      wreturn (s\<lparr>syncstart := clock_check e, diff := map strip l1,
                 dst := map strip l2, src := map strip ls3\<rparr>))))) w4b = (Inr x, w')"
    by (rule wbind_InrE)
  from k4 obtain l3 w4c where r3: "open_read ''src.txt'' w4b = (Inr l3, w4c)"
    and k5: "wbind (os_remove ''diff.txt'') (\<lambda>_.
      wbind (os_remove ''dst.txt'') (\<lambda>_.
      wbind (os_remove ''src.txt'') (\<lambda>_.
      wreturn (s\<lparr>syncstart := clock_check e, diff := map strip l1,
                 dst := map strip l2, src := map strip l3\<rparr>)))) w4c = (Inr x, w')"
    by (rule wbind_InrE)
  from open_read_same [OF r1] open_read_same [OF r2] open_read_same [OF r3]
  have same: "w4c = w4" by simp
  from exec_rclone_scratch [OF a1] w have s1: "sync_tmp w1 = Some []" by simp
  from tidy_check_reports [OF a2 s1] obtain f4 where
    f4: "sync_tmp w4c = Some f4" "set (map fst f4) \<subseteq> {''diff.txt'', ''dst.txt'', ''src.txt''}"
    unfolding same by (elim exE conjE)
  from three_removed [OF f4 k5] show "sync_tmp w' = Some []" .
qed

lemma tidy_tail:
  "tidy (if \<not> dryrun (configuration s4) then wbind (set_last_sync s4) (\<lambda>_. wreturn s4)
         else wreturn s4)"
  by (simp add: tidy_wbind tidy_set_last_sync tidy_wreturn)

lemma tidy_run: "tidy (run e s)"
  unfolding run_def
  by (intro tidy_wbind tidy_load_last_sync tidy_run_check tidy_get_modtimes tidy_wlift
      tidy_action tidy_tail)

subsection \<open>Nothing raises \<^verbatim>\<open>SyncException\<close>\<close>

lemma neverI:
  assumes "\<And>w y w'. m w = (Inl y, w') \<Longrightarrow> y \<noteq> x"
  shows "never x m"
  unfolding never_def by (intro allI impI) (rule assms)

lemma neverD:
  assumes "never x m" and "m w = (Inl y, w')"
  shows "y \<noteq> x"
  using assms(1) [unfolded never_def, rule_format, OF assms(2)] .

lemma never_wbind:
  assumes "never x m" and "\<And>y. never x (f y)"
  shows "never x (wbind m f)"
proof (rule neverI)
  fix w y w' assume "wbind m f w = (Inl y, w')"
  then show "y \<noteq> x"
  proof (cases rule: wbind_cases)
    case (fails z)
    then show ?thesis using neverD [OF assms(1)] by simp
  next
    case (goes z w1)
    then show ?thesis using neverD [OF assms(2)] by simp
  qed
qed

lemma never_wreturn: "never x (wreturn y)"
  by (rule neverI) (simp add: wreturn_def)

lemma never_wraise: "y \<noteq> x \<Longrightarrow> never x (wraise y)"
  by (rule neverI) (simp add: wraise_def)

lemma never_wlift: "r \<noteq> Inl x \<Longrightarrow> never x (wlift r)"
  by (rule neverI) (auto simp: wlift_def)

lemma never_for_each_act: "(\<And>y. never x (body y)) \<Longrightarrow> never x (for_each_act body ys)"
  by (induction ys) (simp_all add: never_wreturn never_wbind)

lemma never_open_write: "never SyncException (open_write name xs)"
  by (rule neverI) (auto simp: open_write_def split: option.splits)

lemma never_open_read: "never SyncException (open_read name)"
  by (rule neverI) (auto simp: open_read_def split: option.splits)

lemma never_os_remove: "never SyncException (os_remove name)"
  by (rule neverI) (auto simp: os_remove_def split: option.splits)

lemma never_deposit: "never SyncException (deposit name rep)"
  by (rule neverI) (auto simp: deposit_def split: option.splits)

lemma never_exec_cmd: "never SyncException (exec_cmd e cmd chk)"
  by (rule neverI) (auto simp: exec_cmd_def Let_def split: if_splits)

lemma never_exec_rclone: "never SyncException (exec_rclone e c cmd chk)"
  unfolding exec_rclone_def Let_def
  by (auto split: list.splits intro!: never_exec_cmd never_wraise)

lemma never_load_last_sync: "never SyncException (load_last_sync e s)"
  by (rule neverI) (auto simp: load_last_sync_def split: option.splits list.splits)

lemma never_set_last_sync: "never SyncException (set_last_sync s)"
  by (rule neverI) (auto simp: set_last_sync_def)

lemmas never_rules = never_wbind never_wreturn never_for_each_act never_open_write
  never_open_read never_os_remove never_deposit never_exec_cmd never_exec_rclone

lemma never_run_check: "never SyncException (run_check e s)"
  unfolding run_check_def check_reports_def Let_def
  by (intro never_rules)

lemma for_each_never:
  assumes "\<And>s y. body s y \<noteq> Inl x"
  shows "for_each body ys s \<noteq> Inl x"
proof (induction ys arbitrary: s)
  case Nil
  show ?case by simp
next
  case (Cons y ys)
  show ?case using assms [of s y] Cons.IH by (auto split: sum.splits)
qed

lemma read_modtime_never: "read_modtime e d line \<noteq> Inl SyncException"
  by (simp add: read_modtime_def split: list.splits option.splits)

lemma never_get_modtimes: "never SyncException (get_modtimes e s)"
  unfolding get_modtimes_def Let_def
  by (intro never_rules never_wlift for_each_never read_modtime_never)

lemma subscript_never: "subscript d k \<noteq> Inl SyncException"
  by (simp add: subscript_def split: option.splits)

lemma py_ge_never: "py_ge v t \<noteq> Inl SyncException"
  by (simp add: py_ge_def split: pyval.splits)

lemma py_lt_never: "py_lt v t \<noteq> Inl SyncException"
  by (simp add: py_lt_def split: pyval.splits)

lemma ebind_never:
  assumes "m \<noteq> Inl x" and "\<And>y. f y \<noteq> Inl x"
  shows "ebind m f \<noteq> Inl x"
  using assms by (cases m) (simp_all add: ebind_def)

lemma local_newer_never: "local_newer s f \<noteq> Inl SyncException"
  unfolding local_newer_def
  by (intro ebind_never subscript_never py_ge_never)
    (simp add: ebind_never subscript_never py_lt_never)

lemma remote_newer_never: "remote_newer s f \<noteq> Inl SyncException"
  unfolding remote_newer_def
  by (intro ebind_never subscript_never py_lt_never)
    (simp add: ebind_never subscript_never py_ge_never)

lemma sort_diff_never: "sort_diff sfx s f \<noteq> Inl SyncException"
  unfolding sort_diff_def
  by (intro ebind_never local_newer_never) (simp add: ebind_never remote_newer_never)

lemma sort_src_never: "sort_src s f \<noteq> Inl SyncException"
  unfolding sort_src_def
  by (intro ebind_never subscript_never py_ge_never) simp

lemma sort_dst_never: "sort_dst s f \<noteq> Inl SyncException"
  unfolding sort_dst_def
  by (intro ebind_never subscript_never py_ge_never) simp

lemma sync_sort_never: "sync_sort stamp s \<noteq> Inl SyncException"
  unfolding sync_sort_def Let_def
  by (intro ebind_never for_each_never sort_diff_never sort_src_never sort_dst_never)

lemma never_action: "never SyncException (action e s)"
  unfolding action_def apply_local_move_def apply_local_backup_def apply_remote_backup_def
    apply_upload_def apply_download_def Let_def
  by (intro never_rules) (simp_all add: never_rules)

lemma never_run: "never SyncException (run e s)"
  unfolding run_def
  by (intro never_wbind never_load_last_sync never_run_check never_get_modtimes never_wlift
      sync_sort_never never_action)
    (simp add: never_wbind never_set_last_sync never_wreturn)

subsection \<open>The lock\<close>

lemma acquire_free: "sync_tmp w = None \<Longrightarrow> acquire_lock w = Some (w\<lparr>sync_tmp := Some []\<rparr>)"
  by (subst acquire_lock.simps) simp

lemma acquire_Some:
  assumes "acquire_lock w = Some w1"
  shows "sync_tmp w = None \<and> w1 = w\<lparr>sync_tmp := Some []\<rparr>"
proof (rule acquire_lock.raw_induct
    [where P = "\<lambda>w w1. sync_tmp w = None \<and> w1 = w\<lparr>sync_tmp := Some []\<rparr>", OF _ assms])
  fix f :: "world \<Rightarrow> world option" and v va
  assume IH: "\<And>x y. f x = Some y \<Longrightarrow> sync_tmp x = None \<and> y = x\<lparr>sync_tmp := Some []\<rparr>"
    and eq: "(if sync_tmp v \<noteq> None then f v else Some (v\<lparr>sync_tmp := Some []\<rparr>)) = Some va"
  show "sync_tmp v = None \<and> va = v\<lparr>sync_tmp := Some []\<rparr>"
  proof (cases "sync_tmp v")
    case None
    with eq show ?thesis by auto
  next
    case (Some a)
    with eq have "f v = Some va" by simp
    from IH [OF this] show ?thesis .
  qed
qed

lemma acquire_held: "sync_tmp w \<noteq> None \<Longrightarrow> acquire_lock w = None"
  using acquire_Some [of w] by (cases "acquire_lock w") auto

lemma release_kept:
  assumes "sync_tmp w = Some fs" and "fs \<noteq> []"
  shows "sync_tmp (release_lock w) = Some fs"
    and "logged (release_lock w) =
           logged w @ [Log_warning ''Failed to remove Sync Lock.'', Log_exception OSError]"
  using assms by (cases fs; simp add: release_lock_def warn_def log_exception_def)+

lemma release_empty: "sync_tmp w = Some [] \<Longrightarrow> sync_tmp (release_lock w) = None"
  by (simp add: release_lock_def)

lemma try_run_cases:
  assumes "sync_tmp w1 = Some []"
  obtains (returned) s' w2 where "run e (new_sync c (epoch e)) w1 = (Inr s', w2)"
      and "try_run e c w1 = (None, release_lock w2)" and "sync_tmp (release_lock w2) = None"
    | (raised) x w2 where "run e (new_sync c (epoch e)) w1 = (Inl x, w2)"
      and "try_run e c w1 = (Some x, release_lock w2)"
proof (cases "run e (new_sync c (epoch e)) w1")
  case (Pair r w2)
  show ?thesis
  proof (cases r)
    case (Inr s')
    with Pair have "sync_tmp w2 = Some []"
      using tidyD [OF tidy_run assms] by simp
    with Pair Inr show ?thesis
      by (intro returned [of s' w2]) (simp_all add: try_run_def release_empty)
  next
    case (Inl x)
    with Pair have "x \<noteq> SyncException" using neverD [OF never_run] by simp
    with Pair Inl show ?thesis
      by (intro raised [of x w2]) (cases x; simp add: try_run_def)+
  qed
qed











lemma exec_cmd_call:
  assumes "exec_cmd e cmd chk w = (r, w')"
  shows "calls w' = calls w @ [\<lparr>argv = cmd, scratch = sync_tmp w, present = local_files w\<rparr>]"
  using assms by (auto simp: exec_cmd_def Let_def split: if_splits)

lemma os_remove_calls: "os_remove name w = (r, w') \<Longrightarrow> calls w' = calls w"
  by (auto simp: os_remove_def split: option.splits)





subsection \<open>The commands of the executor and their lists\<close>

lemma deliversI:
  assumes "\<And>w r w'. m w = (r, w') \<Longrightarrow>
        take (length (calls w)) (calls w') = calls w \<and>
        (\<exists>n \<le> length xs. list_all2 issued (new_calls w w') (take n xs)) \<and>
        (isl r \<or> list_all2 issued (new_calls w w') xs)"
  shows "delivers m xs"
  using assms by (simp add: delivers_def)

lemma deliversD:
  assumes "delivers m xs" and "m w = (r, w')"
  shows "take (length (calls w)) (calls w') = calls w"
    and "\<exists>n \<le> length xs. list_all2 issued (new_calls w w') (take n xs)"
    and "isl r \<or> list_all2 issued (new_calls w w') xs"
  using assms unfolding delivers_def by blast+

lemma delivers_quiet:
  assumes "\<And>w r w'. m w = (r, w') \<Longrightarrow> calls w' = calls w"
  shows "delivers m []"
  by (rule deliversI) (simp add: assms new_calls_def)

lemma new_calls_append:
  assumes "take (length (calls a)) (calls b) = calls a"
    and "take (length (calls b)) (calls c) = calls b"
  shows "take (length (calls a)) (calls c) = calls a"
    and "new_calls a c = new_calls a b @ new_calls b c"
proof -
  from assms(1) obtain x where x: "calls b = calls a @ x"
    by (metis append_take_drop_id)
  from assms(2) obtain y where y: "calls c = calls b @ y"
    by (metis append_take_drop_id)
  show "take (length (calls a)) (calls c) = calls a" by (simp add: x y)
  show "new_calls a c = new_calls a b @ new_calls b c" by (simp add: new_calls_def x y)
qed

lemma delivers_wbind:
  assumes "delivers m xs" and "\<And>x. delivers (f x) ys"
  shows "delivers (wbind m f) (xs @ ys)"
proof (rule deliversI)
  fix w r w' assume "wbind m f w = (r, w')"
  then show "take (length (calls w)) (calls w') = calls w \<and>
        (\<exists>n \<le> length (xs @ ys). list_all2 issued (new_calls w w') (take n (xs @ ys))) \<and>
        (isl r \<or> list_all2 issued (new_calls w w') (xs @ ys))"
  proof (cases rule: wbind_cases)
    case (fails x)
    note d = deliversD [OF assms(1) fails(1)]
    from d(2) obtain n where n: "n \<le> length xs" "list_all2 issued (new_calls w w') (take n xs)"
      by blast
    then have "list_all2 issued (new_calls w w') (take n (xs @ ys))" by simp
    with n(1) d(1) fails(2) show ?thesis by (intro conjI exI [of _ n]) simp_all
  next
    case (goes x w1)
    note d = deliversD [OF assms(1) goes(1)]
    note d' = deliversD [OF assms(2) goes(2)]
    from d(3) have a: "list_all2 issued (new_calls w w1) xs" by simp
    then have l: "length (new_calls w w1) = length xs" by (rule list_all2_lengthD)
    note nc = new_calls_append [OF d(1) d'(1)]
    from d'(2) obtain n where n: "n \<le> length ys"
      "list_all2 issued (new_calls w1 w') (take n ys)" by blast
    have "list_all2 issued (new_calls w w') (take (length xs + n) (xs @ ys))"
      unfolding nc(2) using a n(2) by (simp add: list_all2_appendI)
    moreover have "length xs + n \<le> length (xs @ ys)" using n(1) by simp
    moreover have "isl r \<or> list_all2 issued (new_calls w w') (xs @ ys)"
      unfolding nc(2) using a d'(3) by (auto simp: list_all2_appendI)
    ultimately show ?thesis using nc(1) by (intro conjI exI [of _ "length xs + n"])
  qed
qed

lemma delivers_wreturn: "delivers (wreturn x) []"
  by (rule delivers_quiet) (simp add: wreturn_def)

lemma delivers_eq: "delivers m xs \<Longrightarrow> xs = ys \<Longrightarrow> delivers m ys"
  by simp

lemma delivers_exec_cmd: "delivers (exec_cmd e cmd chk) [(cmd, None)]"
  by (rule deliversI)
    (auto simp: exec_cmd_def Let_def new_calls_def issued_def split: if_splits
      intro: exI [of _ 1])

lemma delivers_renames:
  "delivers (for_each_act
      (\<lambda>file. wbind (exec_cmd e [''mv'', folder c @ fst file, folder c @ snd file] True)
                 (\<lambda>_. wreturn ())) ms)
    (without_list (map (\<lambda>(a, b). [''mv'', folder c @ a, folder c @ b]) ms))"
proof (induction ms)
  case Nil
  show ?case by (simp add: delivers_wreturn without_list_def)
next
  case (Cons m ms)
  have "delivers (wbind (exec_cmd e [''mv'', folder c @ fst m, folder c @ snd m] True)
                 (\<lambda>_. wreturn ())) ([([''mv'', folder c @ fst m, folder c @ snd m], None)] @ [])"
    by (intro delivers_wbind delivers_exec_cmd delivers_wreturn)
  from delivers_wbind [OF this, of "\<lambda>_. for_each_act
      (\<lambda>file. wbind (exec_cmd e [''mv'', folder c @ fst file, folder c @ snd file] True)
                 (\<lambda>_. wreturn ())) ms", OF Cons.IH]
  show ?case by (simp add: case_prod_unfold without_list_def)
qed

lemma delivers_apply_local_move:
  "delivers (apply_local_move e s)
     (without_list (if dryrun (configuration s) then [] else step_renames (configuration s) s))"
proof (cases "dryrun (configuration s)")
  case True
  then show ?thesis
    by (simp add: apply_local_move_def step_renames_def Let_def delivers_wreturn
        without_list_def)
next
  case False
  then show ?thesis
    by (simp add: apply_local_move_def step_renames_def Let_def delivers_renames)
qed

text \<open>A command run on a scratch directory that holds the list.\<close>

lemma exec_rclone_listed:
  assumes "cmd \<noteq> []" and "hd cmd \<noteq> ''check''"
    and "sync_tmp w = Some fs" and "map_of fs name = Some xs"
    and "exec_rclone e c cmd chk w = (r, w')"
  shows "calls w' = calls w @ [\<lparr>argv = rclone_argv c cmd, scratch = Some fs,
                                present = local_files w\<rparr>]"
    and "sync_tmp w' = Some fs"
proof -
  have "exec_rclone e c cmd chk = exec_cmd e (rclone_argv c cmd) chk"
    using assms(1,2) by (cases cmd) (simp_all add: exec_rclone_def rclone_argv_def Let_def)
  with assms(5) have x: "exec_cmd e (rclone_argv c cmd) chk w = (r, w')" by simp
  from exec_cmd_call [OF x] assms(3) show "calls w' = calls w @ [\<lparr>argv = rclone_argv c cmd,
      scratch = Some fs, present = local_files w\<rparr>]" by simp
  from exec_cmd_scratch [OF x] assms(3) show "sync_tmp w' = Some fs" by simp
qed

lemma issued_listed:
  "map_of fs name = Some xs \<Longrightarrow>
   issued \<lparr>argv = av, scratch = Some fs, present = ps\<rparr> (av, Some (name, xs))"
  by (simp add: issued_def)

lemma open_write_cases:
  assumes "open_write name xs w = (r, w1)"
  obtains (missing) "isl r" and "calls w1 = calls w"
    | (written) fs where "r = Inr ()" and "sync_tmp w1 = Some fs" and "map_of fs name = Some xs"
      and "calls w1 = calls w"
proof (cases "sync_tmp w")
  case None
  with assms show ?thesis by (intro missing) (auto simp: open_write_def)
next
  case (Some fs0)
  with assms have "r = Inr ()" and w1: "w1 = w\<lparr>sync_tmp := Some (AList.update name xs fs0)\<rparr>"
    by (auto simp: open_write_def)
  moreover have "map_of (AList.update name xs fs0) name = Some xs"
    by (simp add: update_conv')
  ultimately show ?thesis by (intro written [of "AList.update name xs fs0"]) simp_all
qed

lemma delivers_listed_one:
  assumes "cmd \<noteq> []" and "hd cmd \<noteq> ''check''"
  shows "delivers
     (wbind (open_write name xs) (\<lambda>_. wbind (exec_rclone e c cmd chk) (\<lambda>_. os_remove name)))
     [(rclone_argv c cmd, Some (name, xs))]"
proof (rule deliversI)
  fix w r w'
  assume a: "wbind (open_write name xs) (\<lambda>_. wbind (exec_rclone e c cmd chk)
      (\<lambda>_. os_remove name)) w = (r, w')"
  let ?goal = "take (length (calls w)) (calls w') = calls w \<and>
        (\<exists>n \<le> length [(rclone_argv c cmd, Some (name, xs))].
           list_all2 issued (new_calls w w') (take n [(rclone_argv c cmd, Some (name, xs))])) \<and>
        (isl r \<or> list_all2 issued (new_calls w w') [(rclone_argv c cmd, Some (name, xs))])"
  from a show ?goal
  proof (cases rule: wbind_cases)
    case (fails x)
    then have "calls w' = calls w" by (auto elim: open_write_cases)
    with fails(2) show ?thesis by (auto simp: new_calls_def intro: exI [of _ 0])
  next
    case (goes u w1)
    from goes(1) obtain fs where fs: "sync_tmp w1 = Some fs" "map_of fs name = Some xs"
      "calls w1 = calls w"
      by (rule open_write_cases) auto
    have full: "calls w2 = calls w1 @ [\<lparr>argv = rclone_argv c cmd, scratch = Some fs,
        present = local_files w1\<rparr>]" if "exec_rclone e c cmd chk w1 = (r2, w2)" for r2 w2
      using exec_rclone_listed(1) [OF assms fs(1,2) that] .
    have one: "list_all2 issued (new_calls w w2) [(rclone_argv c cmd, Some (name, xs))] \<and>
        take (length (calls w)) (calls w2) = calls w"
      if "exec_rclone e c cmd chk w1 = (r2, w2)" for r2 w2
      using full [OF that] fs(3) issued_listed [OF fs(2)] by (simp add: new_calls_def)
    from goes(2) show ?thesis
    proof (cases rule: wbind_cases)
      case (fails x)
      from one [OF fails(1)] fails(2) show ?thesis by (auto intro: exI [of _ 1])
    next
      case (goes out w2)
      from os_remove_calls [OF goes(2)] have "calls w' = calls w2" .
      then have "new_calls w w' = new_calls w w2" by (simp add: new_calls_def)
      with one [OF goes(1)] \<open>calls w' = calls w2\<close> show ?thesis
        by (auto intro: exI [of _ 1])
    qed
  qed
qed


lemma delivers_listed_two:
  assumes "cmd \<noteq> []" and "hd cmd \<noteq> ''check''" and "cmd' \<noteq> []" and "hd cmd' \<noteq> ''check''"
  shows "delivers
     (wbind (open_write name xs) (\<lambda>_. wbind (exec_rclone e c cmd chk)
        (\<lambda>_. wbind (exec_rclone e c cmd' chk') (\<lambda>_. os_remove name))))
     [(rclone_argv c cmd, Some (name, xs)), (rclone_argv c cmd', Some (name, xs))]"
proof (rule deliversI)
  fix w r w'
  assume a: "wbind (open_write name xs) (\<lambda>_. wbind (exec_rclone e c cmd chk)
      (\<lambda>_. wbind (exec_rclone e c cmd' chk') (\<lambda>_. os_remove name))) w = (r, w')"
  let ?xs = "[(rclone_argv c cmd, Some (name, xs)), (rclone_argv c cmd', Some (name, xs))]"
  let ?goal = "take (length (calls w)) (calls w') = calls w \<and>
        (\<exists>n \<le> length ?xs. list_all2 issued (new_calls w w') (take n ?xs)) \<and>
        (isl r \<or> list_all2 issued (new_calls w w') ?xs)"
  from a show ?goal
  proof (cases rule: wbind_cases)
    case (fails x)
    then have "calls w' = calls w" by (auto elim: open_write_cases)
    with fails(2) show ?thesis by (auto simp: new_calls_def intro: exI [of _ 0])
  next
    case (goes u w1)
    from goes(1) obtain fs where fs: "sync_tmp w1 = Some fs" "map_of fs name = Some xs"
      "calls w1 = calls w"
      by (rule open_write_cases) auto
    have one: "list_all2 issued (new_calls w w2) [(rclone_argv c cmd, Some (name, xs))] \<and>
        take (length (calls w)) (calls w2) = calls w \<and> sync_tmp w2 = Some fs \<and>
        length (calls w2) = Suc (length (calls w))"
      if "exec_rclone e c cmd chk w1 = (r2, w2)" for r2 w2
      using exec_rclone_listed [OF assms(1,2) fs(1,2) that] fs(3) issued_listed [OF fs(2)]
      by (simp add: new_calls_def)
    from goes(2) show ?thesis
    proof (cases rule: wbind_cases)
      case (fails x)
      from one [OF fails(1)] fails(2) show ?thesis by (auto intro: exI [of _ 1])
    next
      case (goes out w2)
      note o = one [OF goes(1)]
      from o have t2: "sync_tmp w2 = Some fs" by simp
      have two: "list_all2 issued (new_calls w w3) ?xs \<and>
          take (length (calls w)) (calls w3) = calls w"
        if "exec_rclone e c cmd' chk' w2 = (r3, w3)" for r3 w3
      proof -
        note x = exec_rclone_listed(1) [OF assms(3,4) t2 fs(2) that]
        from o obtain k where k: "calls w2 = calls w @ [k]"
          "issued k (rclone_argv c cmd, Some (name, xs))"
          by (cases "calls w2" rule: rev_cases) (auto simp: new_calls_def)
        show ?thesis
          using x k issued_listed [OF fs(2)] by (simp add: new_calls_def)
      qed
      from goes(2) show ?thesis
      proof (cases rule: wbind_cases)
        case (fails x)
        from two [OF fails(1)] fails(2) show ?thesis by (auto intro: exI [of _ 2])
      next
        case (goes out' w3)
        from os_remove_calls [OF goes(2)] have c: "calls w' = calls w3" .
        then have "new_calls w w' = new_calls w w3" by (simp add: new_calls_def)
        with two [OF goes(1)] c show ?thesis by (auto intro: exI [of _ 2])
      qed
    qed
  qed
qed

lemma delivers_apply_local_backup:
  "delivers (apply_local_backup e (''.rclouned/backups/'' @ stamp @ ''/'') s)
     (with_list ''local_backup.txt'' (local_backup s)
        (step_local_backup (configuration s) stamp s))"
proof (cases "local_backup s = []")
  case True
  then show ?thesis
    by (simp add: apply_local_backup_def step_local_backup_def Let_def delivers_wreturn
        with_list_def)
next
  case False
  then show ?thesis
    unfolding apply_local_backup_def step_local_backup_def Let_def with_list_def
    by (simp, intro delivers_eq [OF delivers_listed_two]) simp_all
qed

lemma delivers_apply_remote_backup:
  "delivers (apply_remote_backup e (''.rclouned/backups/'' @ stamp @ ''/'') s)
     (with_list ''remote_backup.txt'' (remote_backup s)
        (step_remote_backup (configuration s) stamp s))"
proof (cases "remote_backup s = []")
  case True
  then show ?thesis
    by (simp add: apply_remote_backup_def step_remote_backup_def Let_def delivers_wreturn
        with_list_def)
next
  case False
  then show ?thesis
    unfolding apply_remote_backup_def step_remote_backup_def Let_def with_list_def
    by (simp, intro delivers_eq [OF delivers_listed_two]) simp_all
qed

lemma delivers_apply_upload:
  "delivers (apply_upload e s)
     (with_list ''upload.txt'' (upload s) (step_upload (configuration s) s))"
proof (cases "upload s = []")
  case True
  then show ?thesis
    by (simp add: apply_upload_def step_upload_def Let_def delivers_wreturn with_list_def)
next
  case False
  then show ?thesis
    unfolding apply_upload_def step_upload_def Let_def with_list_def
    by (simp, intro delivers_eq [OF delivers_listed_one]) simp_all
qed

lemma delivers_apply_download:
  "delivers (apply_download e s)
     (with_list ''download.txt'' (download s) (step_download (configuration s) s))"
proof (cases "download s = []")
  case True
  then show ?thesis
    by (simp add: apply_download_def step_download_def Let_def delivers_wreturn with_list_def)
next
  case False
  then show ?thesis
    unfolding apply_download_def step_download_def Let_def with_list_def
    by (simp, intro delivers_eq [OF delivers_listed_one]) simp_all
qed

lemma delivers_action:
  "delivers (action e s) (plan_steps (configuration s) (clock_action e) s)"
  unfolding action_def plan_steps_def Let_def
  by (intro delivers_wbind delivers_apply_local_move delivers_apply_local_backup
      delivers_apply_remote_backup delivers_apply_upload delivers_apply_download)

subsection \<open>The lock directory during a cycle\<close>

lemma dir_kept_order: "order_like dir_kept"
  by (simp add: order_like_def dir_kept_def)

lemma dir_open_write: "keeps dir_kept (open_write name xs)"
  by (rule keepsI) (auto simp: open_write_def dir_kept_def split: option.splits)

lemma dir_open_read: "keeps dir_kept (open_read name)"
  by (rule keepsI) (auto simp: open_read_def dir_kept_def split: option.splits)

lemma dir_os_remove: "keeps dir_kept (os_remove name)"
  by (rule keepsI) (auto simp: os_remove_def dir_kept_def split: option.splits)

lemma dir_deposit: "keeps dir_kept (deposit name rep)"
  by (rule keepsI) (auto simp: deposit_def dir_kept_def split: option.splits)

lemma dir_exec_cmd: "keeps dir_kept (exec_cmd e cmd chk)"
  by (rule keepsI) (auto simp: exec_cmd_def Let_def dir_kept_def split: if_splits)

lemma dir_exec_rclone: "keeps dir_kept (exec_rclone e c cmd chk)"
  unfolding exec_rclone_def Let_def
  by (auto split: list.splits simp: keeps_wraise dir_kept_order intro!: dir_exec_cmd)

lemma dir_load_last_sync: "keeps dir_kept (load_last_sync e s)"
  by (rule keepsI)
    (auto simp: load_last_sync_def dir_kept_def split: option.splits list.splits)

lemma dir_set_last_sync: "keeps dir_kept (set_last_sync s)"
  by (rule keepsI) (auto simp: set_last_sync_def dir_kept_def)

lemmas dir_rules = keeps_wbind [OF dir_kept_order] keeps_wreturn [OF dir_kept_order]
  keeps_wraise [OF dir_kept_order] keeps_wlift [OF dir_kept_order]
  keeps_for_each_act [OF dir_kept_order]
  dir_open_write dir_open_read dir_os_remove dir_deposit dir_exec_rclone dir_exec_cmd
  dir_load_last_sync dir_set_last_sync

lemma dir_run_check: "keeps dir_kept (run_check e s)"
  unfolding run_check_def check_reports_def Let_def
  by (intro dir_rules)

lemma dir_get_modtimes: "keeps dir_kept (get_modtimes e s)"
  unfolding get_modtimes_def Let_def
  by (intro dir_rules)

lemma dir_action: "keeps dir_kept (action e s)"
  unfolding action_def apply_local_move_def apply_local_backup_def apply_remote_backup_def
    apply_upload_def apply_download_def Let_def
  by (intro dir_rules keeps_if)

lemma dir_run: "keeps dir_kept (run e s)"
  unfolding run_def
  by (intro dir_rules keeps_if dir_run_check dir_get_modtimes dir_action)

lemma release_missing:
  "sync_tmp w = None \<Longrightarrow> sync_tmp (release_lock w) = None"
  by (simp add: release_lock_def warn_def log_exception_def)

section \<open>The plans of the concrete cycles\<close>

lemmas planner_defs = sync_sort_def sort_diff_def sort_src_def sort_dst_def local_newer_def
  remote_newer_def ebind_def subscript_def py_ge_def py_lt_def conflict_suffix_of_def Let_def

lemma example_sorted: "sync_sort example_stamp example_sync = Inr example_plan"
  by (simp add: planner_defs example_sync_def example_plan_def example_stamp_def
      example_config_def)

lemma careful_sorted: "sync_sort example_stamp careful_sync = Inr careful_plan"
  by (simp add: planner_defs example_sync_def careful_sync_def careful_plan_def
      example_stamp_def example_config_def)

lemma clash_sorted: "sync_sort example_stamp clash_sync = Inr clash_plan"
  by (simp add: planner_defs clash_sync_def clash_plan_def example_stamp_def
      example_config_def)

lemma double_clash_sorted: "sync_sort example_stamp double_clash_sync = Inr double_clash_plan"
  by (simp add: planner_defs double_clash_sync_def double_clash_plan_def example_stamp_def
      example_config_def)

lemma orphan_clash_sorted: "sync_sort example_stamp orphan_clash_sync = Inr orphan_clash_plan"
  by (simp add: planner_defs orphan_clash_sync_def orphan_clash_plan_def example_stamp_def
      example_config_def)

lemma rerun_sorted: "sync_sort example_stamp rerun_sync = Inr rerun_plan"
  by (simp add: planner_defs rerun_sync_def rerun_plan_def example_plan_def example_sync_def
      example_stamp_def example_config_def)

lemma quiet_sorted: "sync_sort example_stamp quiet_sync = Inr (quiet_sync\<lparr>upload := []\<rparr>)"
  by (simp add: planner_defs quiet_sync_def example_stamp_def example_config_def)

section \<open>Claims about the planner\<close>

text \<open>
  C1 (corrected). Let \<open>p\<close> be a differing path (in \<^verbatim>\<open>diff\<close>, and in neither of the lists
  of one-sided paths, which the three reports of the check keep apart) whose two
  modification times \<open>l\<close> (local) and \<open>r\<close> (remote) are in the tables, and let \<^verbatim>\<open>sort\<close>
  complete. If \<open>l \<ge> lastsync\<close> and \<open>r < lastsync\<close>, then \<open>p\<close> is in Upload, not in Download,
  not the source of a local move, and in RemoteBackup exactly when \<^verbatim>\<open>careful\<close> is set.
  If \<open>l < lastsync\<close> and \<open>r \<ge> lastsync\<close>, then \<open>p\<close> is in Download, not the source of a
  local move, in LocalBackup exactly when \<^verbatim>\<open>careful\<close> is set, and in Upload exactly when
  \<open>p\<close> is itself the name \<open>q + suffix\<close> under which a conflicting differing path \<open>q\<close> is
  uploaded: the claim's "Download only" holds for every other \<open>p\<close>.
\<close>

theorem one_sided_change:
  assumes "sync_sort stamp s = Inr s'"
    and "p \<in> set (diff s)" and "p \<notin> set (src s)" and "p \<notin> set (dst s)"
    and "map_of (local_check s) p = Some (Time l)"
    and "map_of (remote_check s) p = Some (Time r)"
  shows "(lastsync s \<le> l \<and> r < lastsync s \<longrightarrow>
            p \<in> set (upload s') \<and> p \<notin> set (download s') \<and> p \<notin> fst ` set (local_move s') \<and>
            (p \<in> set (remote_backup s') \<longleftrightarrow> careful (configuration s)))
       \<and> (l < lastsync s \<and> lastsync s \<le> r \<longrightarrow>
            p \<in> set (download s') \<and> p \<notin> fst ` set (local_move s') \<and>
            (p \<in> set (upload s') \<longleftrightarrow> p \<in> conflict_copies stamp s) \<and>
            (p \<in> set (local_backup s') \<longleftrightarrow> careful (configuration s)))"
proof -
  note ln = local_newer_times [OF assms(5,6)] and rn = remote_newer_times [OF assms(5,6)]
  note sets = set_upload [OF assms(1)] set_download [OF assms(1)] set_local_move [OF assms(1)]
    set_local_backup [OF assms(1)] set_remote_backup [OF assms(1)]
  show ?thesis
    using assms(2-4) ln rn unfolding sets
    by (auto simp: in_conflict_def image_iff not_le)
qed

theorem one_sided_change_witness:
  "sync_sort example_stamp example_sync = Inr example_plan \<and>
   ''a.txt'' \<in> set (upload example_plan) \<and> ''a.txt'' \<notin> set (download example_plan) \<and>
   ''a.txt'' \<notin> fst ` set (local_move example_plan) \<and>
   ''a.txt'' \<notin> set (remote_backup example_plan) \<and>
   ''f.txt'' \<in> set (download example_plan) \<and> ''f.txt'' \<notin> set (upload example_plan) \<and>
   ''f.txt'' \<notin> fst ` set (local_move example_plan) \<and>
   ''f.txt'' \<notin> set (local_backup example_plan) \<and>
   ''a.txt'' \<in> set (remote_backup careful_plan) \<and>
   ''f.txt'' \<in> set (local_backup careful_plan)"
proof -
  have a: "''a.txt'' \<in> set (diff example_sync)" "''a.txt'' \<notin> set (src example_sync)"
    "''a.txt'' \<notin> set (dst example_sync)"
    "map_of (local_check example_sync) ''a.txt'' = Some (Time 110)"
    "map_of (remote_check example_sync) ''a.txt'' = Some (Time 95)"
    by (simp_all add: example_sync_def)
  have f: "''f.txt'' \<in> set (diff example_sync)" "''f.txt'' \<notin> set (src example_sync)"
    "''f.txt'' \<notin> set (dst example_sync)"
    "map_of (local_check example_sync) ''f.txt'' = Some (Time 90)"
    "map_of (remote_check example_sync) ''f.txt'' = Some (Time 120)"
    by (simp_all add: example_sync_def)
  have ca: "''a.txt'' \<in> set (diff careful_sync)" "''a.txt'' \<notin> set (src careful_sync)"
    "''a.txt'' \<notin> set (dst careful_sync)"
    "map_of (local_check careful_sync) ''a.txt'' = Some (Time 110)"
    "map_of (remote_check careful_sync) ''a.txt'' = Some (Time 95)"
    by (simp_all add: example_sync_def careful_sync_def)
  have cf: "''f.txt'' \<in> set (diff careful_sync)" "''f.txt'' \<notin> set (src careful_sync)"
    "''f.txt'' \<notin> set (dst careful_sync)"
    "map_of (local_check careful_sync) ''f.txt'' = Some (Time 90)"
    "map_of (remote_check careful_sync) ''f.txt'' = Some (Time 120)"
    by (simp_all add: example_sync_def careful_sync_def)
  have nc: "''f.txt'' \<notin> conflict_copies example_stamp example_sync"
    by (simp add: conflict_copies_def example_sync_def conflict_suffix_of_def)
  have vals: "lastsync example_sync = 100" "\<not> careful (configuration example_sync)"
    "lastsync careful_sync = 100" "careful (configuration careful_sync)"
    by (simp_all add: example_sync_def careful_sync_def example_config_def)
  show ?thesis
    using one_sided_change [OF example_sorted a] one_sided_change [OF example_sorted f]
      one_sided_change [OF careful_sorted ca] one_sided_change [OF careful_sorted cf]
      nc vals example_sorted
    by simp
qed

text \<open>The claim as stated fails where the name of a path changed on the remote only is the
  name a conflict is renamed to: that path is downloaded and uploaded.\<close>

theorem one_sided_change_counterexample:
  "sync_sort example_stamp clash_sync = Inr clash_plan \<and>
   ''a_conflict-20240101-120000'' \<in> set (diff clash_sync) \<and>
   src clash_sync = [] \<and> dst clash_sync = [] \<and>
   map_of (local_check clash_sync) ''a_conflict-20240101-120000'' = Some (Time 90) \<and>
   map_of (remote_check clash_sync) ''a_conflict-20240101-120000'' = Some (Time 120) \<and>
   90 < lastsync clash_sync \<and> lastsync clash_sync \<le> 120 \<and>
   ''a_conflict-20240101-120000'' \<in> set (download clash_plan) \<and>
   ''a_conflict-20240101-120000'' \<in> set (upload clash_plan)"
  using clash_sorted by (simp add: clash_sync_def clash_plan_def)

text \<open>
  C2 (corrected). Let \<open>p\<close> be a differing path whose two modification times are in the
  tables, with both or neither of them at or after \<^verbatim>\<open>lastsync\<close>, and let \<^verbatim>\<open>sort\<close> complete.
  Then the plan holds the conflict triple of \<open>p\<close>: the pair \<open>(p, p + suffix)\<close> in LocalMove,
  \<open>p\<close> in Download and \<open>p + suffix\<close> in Upload, where \<open>suffix\<close> is \<^verbatim>\<open>"_conflict-"\<close> followed by
  the one time stamp read when \<^verbatim>\<open>sort\<close> starts. This is all the plan holds for \<open>p\<close>, with
  one exception: LocalMove has no other pair that starts with \<open>p\<close>, every pair of
  LocalMove is made with that same suffix, \<open>p\<close> is in no backup list (unless it is also
  listed as a one-sided path), and \<open>p\<close> itself is in Upload exactly when \<open>p\<close> is the name
  \<open>q + suffix\<close> under which a conflicting differing path \<open>q\<close> is uploaded (or \<open>p\<close> is also
  listed as missing on the remote). The claim has no such exception.
\<close>

theorem conflict_triple:
  assumes "sync_sort stamp s = Inr s'" and "p \<in> set (diff s)"
    and "map_of (local_check s) p = Some (Time l)"
    and "map_of (remote_check s) p = Some (Time r)"
    and "(lastsync s \<le> l) = (lastsync s \<le> r)"
  shows "(p, p @ ''_conflict-'' @ stamp) \<in> set (local_move s') \<and>
         p \<in> set (download s') \<and>
         p @ ''_conflict-'' @ stamp \<in> set (upload s') \<and>
         (\<forall>a b. (a, b) \<in> set (local_move s') \<longrightarrow> b = a @ ''_conflict-'' @ stamp) \<and>
         (p \<notin> set (src s) \<longrightarrow>
            (p \<in> set (upload s') \<longleftrightarrow> p \<in> conflict_copies stamp s) \<and>
            p \<notin> set (local_backup s')) \<and>
         (p \<notin> set (dst s) \<longrightarrow> p \<notin> set (remote_backup s'))"
proof -
  note ln = local_newer_times [OF assms(3,4)] and rn = remote_newer_times [OF assms(3,4)]
  have c: "in_conflict s p"
    using assms(5) ln rn by (auto simp: in_conflict_def not_le)
  then have nl: "local_newer s p \<noteq> Inr True" by (simp add: in_conflict_def)
  note sets = set_upload [OF assms(1)] set_download [OF assms(1)] set_local_move [OF assms(1)]
    set_local_backup [OF assms(1)] set_remote_backup [OF assms(1)]
  have 1: "(p, p @ ''_conflict-'' @ stamp) \<in> set (local_move s')"
    using assms(2) c unfolding sets by (auto simp: conflict_suffix_of_def image_iff)
  have 2: "p \<in> set (download s')"
    using assms(2) nl unfolding sets by simp
  have 3: "p @ ''_conflict-'' @ stamp \<in> set (upload s')"
    using assms(2) c unfolding sets by (auto simp: conflict_copies_def conflict_suffix_of_def)
  have 4: "\<forall>a b. (a, b) \<in> set (local_move s') \<longrightarrow> b = a @ ''_conflict-'' @ stamp"
    unfolding sets by (auto simp: conflict_suffix_of_def)
  have 5: "p \<in> set (upload s') \<longleftrightarrow> p \<in> conflict_copies stamp s" if "p \<notin> set (src s)"
    using that nl unfolding sets by auto
  have 6: "p \<notin> set (local_backup s')" if "p \<notin> set (src s)"
    using that c unfolding sets by (auto simp: in_conflict_def)
  have 7: "p \<notin> set (remote_backup s')" if "p \<notin> set (dst s)"
    using that nl unfolding sets by auto
  from 1 2 3 4 5 6 7 show ?thesis by blast
qed

text \<open>In the plan of the example \<^verbatim>\<open>b.txt\<close> is the conflicting path, and it is not uploaded
  under its own name; in the plan made again after the cycle \<^verbatim>\<open>a.txt\<close> is one.\<close>

theorem conflict_triple_witness:
  "sync_sort example_stamp example_sync = Inr example_plan \<and>
   (''b.txt'', ''b.txt_conflict-20240101-120000'') \<in> set (local_move example_plan) \<and>
   ''b.txt'' \<in> set (download example_plan) \<and>
   ''b.txt_conflict-20240101-120000'' \<in> set (upload example_plan) \<and>
   ''b.txt'' \<notin> set (upload example_plan) \<and>
   ''b.txt'' \<notin> set (local_backup example_plan) \<and>
   ''b.txt'' \<notin> set (remote_backup example_plan) \<and>
   (''a.txt'', ''a.txt_conflict-20240101-120000'') \<in> set (local_move rerun_plan) \<and>
   ''a.txt'' \<in> set (download rerun_plan) \<and>
   ''a.txt_conflict-20240101-120000'' \<in> set (upload rerun_plan)"
proof -
  have b: "''b.txt'' \<in> set (diff example_sync)"
    "map_of (local_check example_sync) ''b.txt'' = Some (Time 105)"
    "map_of (remote_check example_sync) ''b.txt'' = Some (Time 108)"
    "(lastsync example_sync \<le> 105) = (lastsync example_sync \<le> 108)"
    by (simp_all add: example_sync_def)
  have a: "''a.txt'' \<in> set (diff rerun_sync)"
    "map_of (local_check rerun_sync) ''a.txt'' = Some (Time 110)"
    "map_of (remote_check rerun_sync) ''a.txt'' = Some (Time 95)"
    "(lastsync rerun_sync \<le> 110) = (lastsync rerun_sync \<le> 95)"
    by (simp_all add: rerun_sync_def example_plan_def example_sync_def)
  have n: "''b.txt'' \<notin> set (src example_sync)" "''b.txt'' \<notin> set (dst example_sync)"
    by (simp_all add: example_sync_def)
  have nc: "''b.txt'' \<notin> conflict_copies example_stamp example_sync"
    by (simp add: conflict_copies_def example_sync_def conflict_suffix_of_def)
  show ?thesis
    using conflict_triple [OF example_sorted b] conflict_triple [OF rerun_sorted a] n nc
      example_sorted
    by (simp add: example_stamp_def)
qed

text \<open>The claim as stated fails where a conflicting path already carries the name that the
  conflict of another one is given: beside its own triple, the plan uploads that path
  under its own name.\<close>

theorem conflict_triple_counterexample:
  "sync_sort example_stamp double_clash_sync = Inr double_clash_plan \<and>
   ''a_conflict-20240101-120000'' \<in> set (diff double_clash_sync) \<and>
   src double_clash_sync = [] \<and> dst double_clash_sync = [] \<and>
   map_of (local_check double_clash_sync) ''a_conflict-20240101-120000'' = Some (Time 110) \<and>
   map_of (remote_check double_clash_sync) ''a_conflict-20240101-120000'' = Some (Time 120) \<and>
   lastsync double_clash_sync \<le> 110 \<and> lastsync double_clash_sync \<le> 120 \<and>
   (''a_conflict-20240101-120000'', ''a_conflict-20240101-120000_conflict-20240101-120000'')
     \<in> set (local_move double_clash_plan) \<and>
   ''a_conflict-20240101-120000'' \<in> set (download double_clash_plan) \<and>
   ''a_conflict-20240101-120000_conflict-20240101-120000'' \<in> set (upload double_clash_plan) \<and>
   ''a_conflict-20240101-120000'' \<in> set (upload double_clash_plan)"
  using double_clash_sorted by (simp add: double_clash_sync_def double_clash_plan_def)

text \<open>
  C3 (corrected). Let \<^verbatim>\<open>sort\<close> complete and let \<open>p\<close> be a one-sided path that is not also
  listed as differing. If \<open>p\<close> is missing on the remote with local time \<open>l\<close>: when
  \<open>l \<ge> lastsync\<close> it is in Upload and not in LocalBackup, otherwise it is in LocalBackup,
  and in Upload exactly when \<open>p\<close> is itself the name \<open>q + suffix\<close> under which a
  conflicting differing path \<open>q\<close> is uploaded. If \<open>p\<close> is missing locally with remote time
  \<open>r\<close>: when \<open>r \<ge> lastsync\<close> it is in Download and not in RemoteBackup, otherwise it is in
  RemoteBackup and not in Download. The \<^verbatim>\<open>careful\<close> flag plays no part.
\<close>

theorem orphans:
  assumes "sync_sort stamp s = Inr s'" and "p \<notin> set (diff s)"
  shows "(p \<in> set (src s) \<and> map_of (local_check s) p = Some (Time l) \<longrightarrow>
           (if lastsync s \<le> l
            then p \<in> set (upload s') \<and> p \<notin> set (local_backup s')
            else p \<in> set (local_backup s') \<and>
                 (p \<in> set (upload s') \<longleftrightarrow> p \<in> conflict_copies stamp s)))
       \<and> (p \<in> set (dst s) \<and> map_of (remote_check s) p = Some (Time r) \<longrightarrow>
           (if lastsync s \<le> r
            then p \<in> set (download s') \<and> p \<notin> set (remote_backup s')
            else p \<in> set (remote_backup s') \<and> p \<notin> set (download s')))"
proof -
  note sets = set_upload [OF assms(1)] set_download [OF assms(1)] set_local_move [OF assms(1)]
    set_local_backup [OF assms(1)] set_remote_backup [OF assms(1)]
  show ?thesis
    using assms(2) unfolding sets
    by (auto simp: fresh_local_time fresh_remote_time)
qed

theorem orphans_witness:
  "sync_sort example_stamp example_sync = Inr example_plan \<and>
   \<not> careful (configuration example_sync) \<and>
   ''d.txt'' \<in> set (upload example_plan) \<and> ''d.txt'' \<notin> set (local_backup example_plan) \<and>
   ''c.txt'' \<in> set (local_backup example_plan) \<and> ''c.txt'' \<notin> set (upload example_plan) \<and>
   ''g.txt'' \<in> set (download example_plan) \<and> ''g.txt'' \<notin> set (remote_backup example_plan) \<and>
   ''h.txt'' \<in> set (remote_backup example_plan) \<and> ''h.txt'' \<notin> set (download example_plan)"
proof -
  have d: "''d.txt'' \<notin> set (diff example_sync)" "''d.txt'' \<in> set (src example_sync)"
    "map_of (local_check example_sync) ''d.txt'' = Some (Time 101)"
    by (simp_all add: example_sync_def)
  have c: "''c.txt'' \<notin> set (diff example_sync)" "''c.txt'' \<in> set (src example_sync)"
    "map_of (local_check example_sync) ''c.txt'' = Some (Time 80)"
    "''c.txt'' \<notin> conflict_copies example_stamp example_sync"
    by (simp_all add: example_sync_def conflict_copies_def conflict_suffix_of_def)
  have g: "''g.txt'' \<notin> set (diff example_sync)" "''g.txt'' \<in> set (dst example_sync)"
    "map_of (remote_check example_sync) ''g.txt'' = Some (Time 130)"
    by (simp_all add: example_sync_def)
  have h: "''h.txt'' \<notin> set (diff example_sync)" "''h.txt'' \<in> set (dst example_sync)"
    "map_of (remote_check example_sync) ''h.txt'' = Some (Time 50)"
    by (simp_all add: example_sync_def)
  have vals: "lastsync example_sync = 100" "\<not> careful (configuration example_sync)"
    by (simp_all add: example_sync_def example_config_def)
  show ?thesis
    using orphans [OF example_sorted d(1), of 101 0]
      orphans [OF example_sorted c(1), of 80 0]
      orphans [OF example_sorted g(1), of 0 130]
      orphans [OF example_sorted h(1), of 0 50]
      d c g h vals example_sorted
    by simp
qed

text \<open>The claim as stated fails where a stale file that exists locally only carries the
  name a conflict is renamed to: it is archived and uploaded.\<close>

theorem orphans_counterexample:
  "sync_sort example_stamp orphan_clash_sync = Inr orphan_clash_plan \<and>
   ''a_conflict-20240101-120000'' \<in> set (src orphan_clash_sync) \<and>
   ''a_conflict-20240101-120000'' \<notin> set (diff orphan_clash_sync) \<and>
   map_of (local_check orphan_clash_sync) ''a_conflict-20240101-120000'' = Some (Time 90) \<and>
   90 < lastsync orphan_clash_sync \<and>
   ''a_conflict-20240101-120000'' \<in> set (local_backup orphan_clash_plan) \<and>
   ''a_conflict-20240101-120000'' \<in> set (upload orphan_clash_plan)"
  using orphan_clash_sorted by (simp add: orphan_clash_sync_def orphan_clash_plan_def)

text \<open>
  C6 (corrected). Whatever \<^verbatim>\<open>lastsync\<close> is, a plan that \<^verbatim>\<open>sort\<close> computes is empty (all
  five lists) exactly when the three lists of the diff snapshot are empty: every listed
  path gets at least one entry. Planning an unchanged snapshot that is not empty again,
  with \<^verbatim>\<open>lastsync\<close> moved to the start of the previous cycle, therefore never yields an
  empty plan.
\<close>

theorem plan_empty_iff:
  assumes "sync_sort stamp s = Inr s'"
  shows "(upload s' = [] \<and> download s' = [] \<and> local_move s' = [] \<and>
          local_backup s' = [] \<and> remote_backup s' = []) \<longleftrightarrow>
         (diff s = [] \<and> src s = [] \<and> dst s = [])"
proof
  assume e: "upload s' = [] \<and> download s' = [] \<and> local_move s' = [] \<and>
          local_backup s' = [] \<and> remote_backup s' = []"
  note sets = set_upload [OF assms(1)] set_download [OF assms(1)] set_local_move [OF assms(1)]
    set_local_backup [OF assms(1)] set_remote_backup [OF assms(1)]
  have u: "set (upload s') = {}" and d: "set (download s') = {}"
    and l: "set (local_backup s') = {}" and r: "set (remote_backup s') = {}"
    using e by simp_all
  have "set (diff s) = {}"
  proof (rule ccontr)
    assume "set (diff s) \<noteq> {}"
    then obtain f where f: "f \<in> set (diff s)" by (cases "diff s") auto
    show False
    proof (cases "local_newer s f = Inr True")
      case True
      with f have "f \<in> set (upload s')" unfolding sets by simp
      with u show False by simp
    next
      case False
      with f have "f \<in> set (download s')" unfolding sets by simp
      with d show False by simp
    qed
  qed
  moreover have "set (src s) = {}"
  proof (rule ccontr)
    assume "set (src s) \<noteq> {}"
    then obtain f where f: "f \<in> set (src s)" by (cases "src s") auto
    then have "f \<in> set (upload s') \<or> f \<in> set (local_backup s')" unfolding sets by auto
    with u l show False by simp
  qed
  moreover have "set (dst s) = {}"
  proof (rule ccontr)
    assume "set (dst s) \<noteq> {}"
    then obtain f where f: "f \<in> set (dst s)" by (cases "dst s") auto
    then have "f \<in> set (download s') \<or> f \<in> set (remote_backup s')" unfolding sets by auto
    with d r show False by simp
  qed
  ultimately show "diff s = [] \<and> src s = [] \<and> dst s = []" by simp
next
  assume "diff s = [] \<and> src s = [] \<and> dst s = []"
  then show "upload s' = [] \<and> download s' = [] \<and> local_move s' = [] \<and>
          local_backup s' = [] \<and> remote_backup s' = []"
    using sync_sort_lists(2-6) [OF assms] by simp
qed

theorem plan_empty_iff_witness:
  "sync_sort example_stamp quiet_sync = Inr (quiet_sync\<lparr>upload := []\<rparr>) \<and>
   upload (quiet_sync\<lparr>upload := []\<rparr>) = [] \<and> download (quiet_sync\<lparr>upload := []\<rparr>) = [] \<and>
   local_move (quiet_sync\<lparr>upload := []\<rparr>) = [] \<and>
   local_backup (quiet_sync\<lparr>upload := []\<rparr>) = [] \<and>
   remote_backup (quiet_sync\<lparr>upload := []\<rparr>) = []"
proof -
  have "diff quiet_sync = [] \<and> src quiet_sync = [] \<and> dst quiet_sync = []"
    by (simp add: quiet_sync_def)
  with plan_empty_iff [OF quiet_sorted] quiet_sorted show ?thesis by blast
qed

text \<open>The snapshot of the example, planned again with \<^verbatim>\<open>lastsync\<close> at the start of the
  cycle that handled it: every path is now older than \<^verbatim>\<open>lastsync\<close>, and the plan renames,
  downloads and archives all of them.\<close>

theorem plan_empty_iff_counterexample:
  "sync_sort example_stamp example_sync = Inr example_plan \<and>
   rerun_sync = example_plan\<lparr>lastsync := 200\<rparr> \<and>
   diff rerun_sync = diff example_sync \<and> src rerun_sync = src example_sync \<and>
   dst rerun_sync = dst example_sync \<and> local_check rerun_sync = local_check example_sync \<and>
   remote_check rerun_sync = remote_check example_sync \<and>
   sync_sort example_stamp rerun_sync = Inr rerun_plan \<and>
   local_move rerun_plan =
     [(''a.txt'', ''a.txt_conflict-20240101-120000''),
      (''b.txt'', ''b.txt_conflict-20240101-120000''),
      (''f.txt'', ''f.txt_conflict-20240101-120000'')] \<and>
   download rerun_plan = [''a.txt'', ''b.txt'', ''f.txt''] \<and>
   local_backup rerun_plan = [''c.txt'', ''d.txt''] \<and>
   remote_backup rerun_plan = [''g.txt'', ''h.txt'']"
  using example_sorted rerun_sorted
  by (simp add: rerun_sync_def rerun_plan_def example_plan_def)

text \<open>
  C7 (corrected). Let \<^verbatim>\<open>sort\<close> complete. Every differing path \<open>p\<close> that is not itself the
  name \<open>q + suffix\<close> under which a conflicting differing path \<open>q\<close> is uploaded appears in
  the plan in exactly one of the three shapes: Upload only (in Upload, not in Download,
  not the source of a local move), Download only (in Download, not in Upload, not the
  source of a local move), or the conflict triple (the pair \<open>(p, p + suffix)\<close> in
  LocalMove, \<open>p\<close> in Download, \<open>p + suffix\<close> in Upload).
\<close>

theorem differing_one_shape:
  assumes "sync_sort stamp s = Inr s'" and "p \<in> set (diff s)"
    and "p \<notin> conflict_copies stamp s"
  shows "exactly_one (upload_only s' p) (download_only s' p)
           (conflict_shape (conflict_suffix_of stamp) s' p)"
proof -
  note sets = set_upload [OF assms(1)] set_download [OF assms(1)] set_local_move [OF assms(1)]
  from sync_sort_defined [OF assms(1,2)]
  consider (up) "local_newer s p = Inr True"
    | (down) "local_newer s p = Inr False" "remote_newer s p = Inr True"
    | (conf) "in_conflict s p" by blast
  then show ?thesis
  proof cases
    case up
    then show ?thesis
      using assms(2,3) local_newer_True [OF up]
      unfolding exactly_one_def upload_only_def download_only_def conflict_shape_def sets
      by (auto simp: in_conflict_def image_iff)
  next
    case down
    then show ?thesis
      using assms(2,3) remote_newer_True [OF down(2)]
      unfolding exactly_one_def upload_only_def download_only_def conflict_shape_def sets
      by (auto simp: in_conflict_def image_iff)
  next
    case conf
    then show ?thesis
      using assms(2,3)
      unfolding exactly_one_def upload_only_def download_only_def conflict_shape_def sets
      by (auto simp: in_conflict_def image_iff conflict_copies_def)
  qed
qed

theorem differing_one_shape_witness:
  "sync_sort example_stamp example_sync = Inr example_plan \<and>
   upload_only example_plan ''a.txt'' \<and> \<not> download_only example_plan ''a.txt'' \<and>
   \<not> conflict_shape (conflict_suffix_of example_stamp) example_plan ''a.txt'' \<and>
   download_only example_plan ''f.txt'' \<and> \<not> upload_only example_plan ''f.txt'' \<and>
   \<not> conflict_shape (conflict_suffix_of example_stamp) example_plan ''f.txt'' \<and>
   conflict_shape (conflict_suffix_of example_stamp) example_plan ''b.txt'' \<and>
   \<not> upload_only example_plan ''b.txt'' \<and> \<not> download_only example_plan ''b.txt''"
proof -
  have m: "''a.txt'' \<in> set (diff example_sync)" "''f.txt'' \<in> set (diff example_sync)"
    "''b.txt'' \<in> set (diff example_sync)"
    by (simp_all add: example_sync_def)
  have n: "''a.txt'' \<notin> conflict_copies example_stamp example_sync"
    "''f.txt'' \<notin> conflict_copies example_stamp example_sync"
    "''b.txt'' \<notin> conflict_copies example_stamp example_sync"
    by (simp_all add: conflict_copies_def example_sync_def conflict_suffix_of_def)
  have u: "upload_only example_plan ''a.txt''" "download_only example_plan ''f.txt''"
    "conflict_shape (conflict_suffix_of example_stamp) example_plan ''b.txt''"
    by (simp_all add: upload_only_def download_only_def conflict_shape_def example_plan_def
        conflict_suffix_of_def example_stamp_def)
  show ?thesis
    using differing_one_shape [OF example_sorted m(1) n(1)]
      differing_one_shape [OF example_sorted m(2) n(2)]
      differing_one_shape [OF example_sorted m(3) n(3)] u example_sorted
    by (simp add: exactly_one_def)
qed

text \<open>In the snapshot of the clash, the second differing path is downloaded and uploaded
  and is not the source of a move: it has none of the three shapes.\<close>

theorem differing_one_shape_counterexample:
  "sync_sort example_stamp clash_sync = Inr clash_plan \<and>
   ''a_conflict-20240101-120000'' \<in> set (diff clash_sync) \<and>
   \<not> upload_only clash_plan ''a_conflict-20240101-120000'' \<and>
   \<not> download_only clash_plan ''a_conflict-20240101-120000'' \<and>
   \<not> conflict_shape (conflict_suffix_of example_stamp) clash_plan ''a_conflict-20240101-120000''"
  using clash_sorted
  by (simp add: clash_sync_def clash_plan_def upload_only_def download_only_def
      conflict_shape_def conflict_suffix_of_def example_stamp_def)

section \<open>The concrete cycles\<close>

lemmas world_defs = run_def load_last_sync_def run_check_def get_modtimes_def action_def
  apply_local_move_def apply_local_backup_def apply_remote_backup_def apply_upload_def
  apply_download_def set_last_sync_def exec_rclone_def exec_cmd_def check_reports_def
  deposit_def open_read_def open_write_def os_remove_def wbind_def wreturn_def wraise_def
  wlift_def Let_def check_cmd_def lsf_cmd_def rclone_opts_def new_sync_def set_none_def
  read_modtime_def strip_def white_space_def strip_front.simps

lemmas example_defs = example_env_def example_world_def locked_world_def example_config_def
  dry_config_def example_times_def example_sync_def example_plan_def dry_plan_def
  dry_sync_def lsf_fails_env_def silent_env_def copy_fails_env_def

text \<open>One pass of the loop, from a disk without lock, by the way \<^verbatim>\<open>run\<close> ends.\<close>

lemma sync_loop_body_returns:
  assumes "sync_tmp w = None"
    and "run e (new_sync c (epoch e)) (w\<lparr>sync_tmp := Some []\<rparr>) = (Inr s, w2)"
  shows "sync_loop_body e c w =
           Some (if interrupted e then Exit 0 else Continue, release_lock w2)"
  using assms by (simp add: sync_loop_body_def acquire_free try_run_def)

lemma sync_loop_body_raises:
  assumes "sync_tmp w = None"
    and "run e (new_sync c (epoch e)) (w\<lparr>sync_tmp := Some []\<rparr>) = (Inl x, w2)"
  shows "sync_loop_body e c w = Some (Raise x, release_lock w2)"
proof -
  have "x \<noteq> SyncException" by (rule neverD [OF never_run assms(2)])
  with assms(2) have "try_run e c (w\<lparr>sync_tmp := Some []\<rparr>) = (Some x, release_lock w2)"
    by (cases x) (simp_all add: try_run_def)
  with assms(1) show ?thesis by (simp add: sync_loop_body_def acquire_free)
qed

lemma locked_world_acquired: "locked_world = example_world\<lparr>sync_tmp := Some []\<rparr>"
  by (simp add: locked_world_def)

lemma example_world_free: "sync_tmp example_world = None"
  by (simp add: example_world_def)

text \<open>The cycle of the example completes with the plan of the example, writes the marker
  and leaves the scratch directory empty.\<close>

lemma example_cycle_result:
  "fst example_cycle = Inr (example_plan\<lparr>syncstart := ''2024-01-01 00:03:20''\<rparr>)"
  by (simp add: example_cycle_def world_defs planner_defs example_defs)

text \<open>A listing command that fails ends the cycle with \<^verbatim>\<open>CalledProcessError\<close>, the list of
  paths still in the scratch directory.\<close>

lemma lsf_fails_cycle_result:
  "fst lsf_fails_cycle = Inl CalledProcessError"
  by (simp add: lsf_fails_cycle_def world_defs planner_defs example_defs)

lemma lsf_fails_cycle_tmp:
  "sync_tmp (snd lsf_fails_cycle) =
     Some [(''local_check.txt'', [''a.txt'', ''b.txt'', ''f.txt'', ''c.txt'', ''d.txt''])]"
  by (simp add: lsf_fails_cycle_def world_defs planner_defs example_defs)

text \<open>A remote listing without \<^verbatim>\<open>h.txt\<close> leaves \<open>None\<close> in the table, and the comparison in
  \<^verbatim>\<open>sort\<close> raises \<^verbatim>\<open>TypeError\<close>.\<close>

lemma silent_cycle_result:
  "fst silent_cycle = Inl TypeError"
  by (simp add: silent_cycle_def world_defs planner_defs example_defs)

text \<open>A copy command that fails ends the cycle in the second step of the executor, the
  list of that step still in the scratch directory.\<close>

lemma copy_fails_cycle_result:
  "fst copy_fails_cycle = Inl CalledProcessError"
  by (simp add: copy_fails_cycle_def world_defs planner_defs example_defs)

lemma copy_fails_cycle_tmp:
  "sync_tmp (snd copy_fails_cycle) = Some [(''local_backup.txt'', [''c.txt''])]"
  by (simp add: copy_fails_cycle_def world_defs planner_defs example_defs)

text \<open>The executor on the plan of the example, for real and in a dry run.\<close>

lemma example_action_result: "fst example_action = Inr ()"
  by (simp add: example_action_def world_defs example_defs)

lemma dry_action_result: "fst dry_action = Inr ()"
  by (simp add: dry_action_def world_defs example_defs)



section \<open>Claims about the executor and the dry run\<close>

text \<open>
  C9 (corrected). \<^verbatim>\<open>action\<close> issues its external commands in one fixed order: the renames
  of LocalMove (one \<^verbatim>\<open>mv\<close> per pair), then the copy to the archive and the delete of the
  paths of LocalBackup, then the copy to the archive and the delete of the paths of
  RemoteBackup, then the copy of the Upload paths from the local tree to the remote, then
  the copy of the Download paths from the remote to the local tree. \<open>step_renames\<close>,
  \<open>step_local_backup\<close>, \<open>step_remote_backup\<close>, \<open>step_upload\<close> and \<open>step_download\<close> are the
  commands of the five steps as the specification lists them, each of the last four the
  empty list when the list of the plan that it reads is empty. Every command of steps 2
  to 5 is run while its list file in \<^verbatim>\<open>.rclouned/sync.tmp/\<close> holds the whole list of the
  plan (\<open>issued\<close>). Whatever the backend answers, the calls that \<^verbatim>\<open>action\<close> adds are an
  initial part of the five steps in this order, and all of them, no more, when \<^verbatim>\<open>action\<close>
  returns. The claim is corrected in one point: in a dry run the first step is left out,
  and no rename is issued.\<close>

theorem action_order:
  assumes "action e s w = (r, w')"
  shows "take (length (calls w)) (calls w') = calls w \<and>
         (\<exists>n \<le> length (plan_steps (configuration s) (clock_action e) s).
            list_all2 issued (new_calls w w')
              (take n (plan_steps (configuration s) (clock_action e) s))) \<and>
         (r = Inr () \<longrightarrow>
            list_all2 issued (new_calls w w')
              (without_list
                 (if dryrun (configuration s) then [] else step_renames (configuration s) s) @
               with_list ''local_backup.txt'' (local_backup s)
                 (step_local_backup (configuration s) (clock_action e) s) @
               with_list ''remote_backup.txt'' (remote_backup s)
                 (step_remote_backup (configuration s) (clock_action e) s) @
               with_list ''upload.txt'' (upload s) (step_upload (configuration s) s) @
               with_list ''download.txt'' (download s) (step_download (configuration s) s)))"
proof -
  note d = deliversD [OF delivers_action assms]
  from d(3) have "r = Inr () \<longrightarrow>
      list_all2 issued (new_calls w w') (plan_steps (configuration s) (clock_action e) s)"
    by auto
  then have "r = Inr () \<longrightarrow>
            list_all2 issued (new_calls w w')
              (without_list
                 (if dryrun (configuration s) then [] else step_renames (configuration s) s) @
               with_list ''local_backup.txt'' (local_backup s)
                 (step_local_backup (configuration s) (clock_action e) s) @
               with_list ''remote_backup.txt'' (remote_backup s)
                 (step_remote_backup (configuration s) (clock_action e) s) @
               with_list ''upload.txt'' (upload s) (step_upload (configuration s) s) @
               with_list ''download.txt'' (download s) (step_download (configuration s) s))"
    unfolding plan_steps_def .
  with d(1,2) show ?thesis by (intro conjI)
qed

text \<open>On the plan of the example, with a backend that succeeds: the seven commands, each
  with its list.\<close>

theorem action_order_witness:
  "action example_env example_plan locked_world = (Inr (), snd example_action) \<and>
   list_all2 issued (new_calls locked_world (snd example_action))
     [([''mv'', ''/d/b.txt'', ''/d/b.txt_conflict-20240101-120000''], None),
      ([''rclone'', ''copy'', ''--files-from'', ''/d/.rclouned/sync.tmp/local_backup.txt'',
        ''/d/'', ''/d/.rclouned/backups/20240101-120001/''],
       Some (''local_backup.txt'', [''c.txt''])),
      ([''rclone'', ''delete'', ''--files-from'', ''/d/.rclouned/sync.tmp/local_backup.txt'',
        ''/d/'', ''--rmdirs''],
       Some (''local_backup.txt'', [''c.txt''])),
      ([''rclone'', ''copy'', ''--files-from'', ''/d/.rclouned/sync.tmp/remote_backup.txt'',
        ''r:s'', ''r:s.rclouned/backups/20240101-120001/''],
       Some (''remote_backup.txt'', [''h.txt''])),
      ([''rclone'', ''delete'', ''--files-from'', ''/d/.rclouned/sync.tmp/remote_backup.txt'',
        ''r:s'', ''--rmdirs''],
       Some (''remote_backup.txt'', [''h.txt''])),
      ([''rclone'', ''copy'', ''--files-from'', ''/d/.rclouned/sync.tmp/upload.txt'',
        ''/d/'', ''r:s''],
       Some (''upload.txt'', [''a.txt'', ''b.txt_conflict-20240101-120000'', ''d.txt''])),
      ([''rclone'', ''copy'', ''--files-from'', ''/d/.rclouned/sync.tmp/download.txt'',
        ''r:s'', ''/d/''],
       Some (''download.txt'', [''b.txt'', ''f.txt'', ''g.txt'']))]"
proof -
  have run: "action example_env example_plan locked_world = (Inr (), snd example_action)"
    using example_action_result
    by (simp add: example_action_def [symmetric] prod_eq_iff)
  have steps: "without_list
         (if dryrun (configuration example_plan) then []
          else step_renames (configuration example_plan) example_plan) @
       with_list ''local_backup.txt'' (local_backup example_plan)
         (step_local_backup (configuration example_plan) (clock_action example_env)
            example_plan) @
       with_list ''remote_backup.txt'' (remote_backup example_plan)
         (step_remote_backup (configuration example_plan) (clock_action example_env)
            example_plan) @
       with_list ''upload.txt'' (upload example_plan)
         (step_upload (configuration example_plan) example_plan) @
       with_list ''download.txt'' (download example_plan)
         (step_download (configuration example_plan) example_plan) =
     [([''mv'', ''/d/b.txt'', ''/d/b.txt_conflict-20240101-120000''], None),
      ([''rclone'', ''copy'', ''--files-from'', ''/d/.rclouned/sync.tmp/local_backup.txt'',
        ''/d/'', ''/d/.rclouned/backups/20240101-120001/''],
       Some (''local_backup.txt'', [''c.txt''])),
      ([''rclone'', ''delete'', ''--files-from'', ''/d/.rclouned/sync.tmp/local_backup.txt'',
        ''/d/'', ''--rmdirs''],
       Some (''local_backup.txt'', [''c.txt''])),
      ([''rclone'', ''copy'', ''--files-from'', ''/d/.rclouned/sync.tmp/remote_backup.txt'',
        ''r:s'', ''r:s.rclouned/backups/20240101-120001/''],
       Some (''remote_backup.txt'', [''h.txt''])),
      ([''rclone'', ''delete'', ''--files-from'', ''/d/.rclouned/sync.tmp/remote_backup.txt'',
        ''r:s'', ''--rmdirs''],
       Some (''remote_backup.txt'', [''h.txt''])),
      ([''rclone'', ''copy'', ''--files-from'', ''/d/.rclouned/sync.tmp/upload.txt'',
        ''/d/'', ''r:s''],
       Some (''upload.txt'', [''a.txt'', ''b.txt_conflict-20240101-120000'', ''d.txt''])),
      ([''rclone'', ''copy'', ''--files-from'', ''/d/.rclouned/sync.tmp/download.txt'',
        ''r:s'', ''/d/''],
       Some (''download.txt'', [''b.txt'', ''f.txt'', ''g.txt'']))]"
    by (simp add: without_list_def with_list_def step_renames_def step_local_backup_def
        step_remote_backup_def step_upload_def step_download_def rclone_argv_def
        rclone_opts_def example_defs)
  from action_order [OF run] have "list_all2 issued (new_calls locked_world (snd example_action))
     (without_list
         (if dryrun (configuration example_plan) then []
          else step_renames (configuration example_plan) example_plan) @
       with_list ''local_backup.txt'' (local_backup example_plan)
         (step_local_backup (configuration example_plan) (clock_action example_env)
            example_plan) @
       with_list ''remote_backup.txt'' (remote_backup example_plan)
         (step_remote_backup (configuration example_plan) (clock_action example_env)
            example_plan) @
       with_list ''upload.txt'' (upload example_plan)
         (step_upload (configuration example_plan) example_plan) @
       with_list ''download.txt'' (download example_plan)
         (step_download (configuration example_plan) example_plan))"
    by simp
  with run show ?thesis unfolding steps by (rule conjI)
qed

text \<open>The claim as stated fails in a dry run: the plan of the example holds a rename, and
  the executor, which returns, issues the commands of steps 2 to 5 and no \<^verbatim>\<open>mv\<close>.\<close>

theorem action_order_counterexample:
  "dryrun (configuration dry_plan) \<and>
   local_move dry_plan = [(''b.txt'', ''b.txt_conflict-20240101-120000'')] \<and>
   fst dry_action = Inr () \<and>
   map argv (calls (snd dry_action)) =
     [[''rclone'', ''--dry-run'', ''copy'', ''--files-from'',
       ''/d/.rclouned/sync.tmp/local_backup.txt'', ''/d/'',
       ''/d/.rclouned/backups/20240101-120001/''],
      [''rclone'', ''--dry-run'', ''delete'', ''--files-from'',
       ''/d/.rclouned/sync.tmp/local_backup.txt'', ''/d/'', ''--rmdirs''],
      [''rclone'', ''--dry-run'', ''copy'', ''--files-from'',
       ''/d/.rclouned/sync.tmp/remote_backup.txt'', ''r:s'',
       ''r:s.rclouned/backups/20240101-120001/''],
      [''rclone'', ''--dry-run'', ''delete'', ''--files-from'',
       ''/d/.rclouned/sync.tmp/remote_backup.txt'', ''r:s'', ''--rmdirs''],
      [''rclone'', ''--dry-run'', ''copy'', ''--files-from'',
       ''/d/.rclouned/sync.tmp/upload.txt'', ''/d/'', ''r:s''],
      [''rclone'', ''--dry-run'', ''copy'', ''--files-from'',
       ''/d/.rclouned/sync.tmp/download.txt'', ''r:s'', ''/d/'']]"
  by (simp add: dry_action_def world_defs example_defs)

text \<open>
  C8 (corrected). With \<^verbatim>\<open>dryrun\<close> set, a cycle (\<^verbatim>\<open>run\<close>, however it ends) does not write the
  marker file \<^verbatim>\<open>lastsync.txt\<close>, and every external command it issues is a simulated one:
  \<^verbatim>\<open>rclone\<close> with \<^verbatim>\<open>--dry-run\<close> after the options, or \<^verbatim>\<open>rclone check\<close>; in particular no
  \<^verbatim>\<open>mv\<close>. Of the five steps of the executor only the first is suppressed: a dry
  \<^verbatim>\<open>action\<close> that returns has issued the commands of steps 2 to 5, the copy to the archive
  and the delete of both backup steps among them, each with \<^verbatim>\<open>--dry-run\<close>
  (\<open>rclone_argv\<close> adds the flag). The specification has steps 2 and 3 suppressed as
  well.\<close>

theorem dry_run_cycle:
  assumes "dryrun (configuration s)" and "run e s w = (r, w')"
    and "dryrun (configuration p)" and "action e p v = (Inr u, v')"
  shows "lastsync_txt w' = lastsync_txt w \<and>
         take (length (calls w)) (calls w') = calls w \<and>
         (\<forall>k \<in> set (new_calls w w'). simulated (configuration s) (argv k)) \<and>
         map argv (calls v') =
           map argv (calls v) @
           step_local_backup (configuration p) (clock_action e) p @
           step_remote_backup (configuration p) (clock_action e) p @
           step_upload (configuration p) p @
           step_download (configuration p) p"
proof -
  note a = keepsD [OF sim_run [OF assms(1)] assms(2)]
  note b = emits_action [of e p, unfolded emits_def, rule_format, OF assms(4)]
  from b have "map argv (calls v') =
      map argv (calls v) @ plan_commands (configuration p) (clock_action e) p"
    by auto
  with assms(3) have "map argv (calls v') =
           map argv (calls v) @
           step_local_backup (configuration p) (clock_action e) p @
           step_remote_backup (configuration p) (clock_action e) p @
           step_upload (configuration p) p @
           step_download (configuration p) p"
    by (simp add: plan_commands_def)
  with a show ?thesis by (simp add: sim_step_def list_all_iff)
qed

text \<open>The dry cycle of the example, and the dry executor on the plan of the example.\<close>

theorem dry_run_cycle_witness:
  "dryrun (configuration (new_sync dry_config (0::nat))) \<and>
   run example_env (new_sync dry_config 0) locked_world = (fst dry_cycle, snd dry_cycle) \<and>
   dryrun (configuration dry_plan) \<and>
   action example_env dry_plan locked_world = (Inr (), snd dry_action) \<and>
   lastsync_txt (snd dry_cycle) = Some [''2024-01-01 00:01:40''] \<and>
   list_all (\<lambda>k. simulated dry_config (argv k)) (new_calls locked_world (snd dry_cycle)) \<and>
   map argv (calls (snd dry_action)) =
     [[''rclone'', ''--dry-run'', ''copy'', ''--files-from'',
       ''/d/.rclouned/sync.tmp/local_backup.txt'', ''/d/'',
       ''/d/.rclouned/backups/20240101-120001/''],
      [''rclone'', ''--dry-run'', ''delete'', ''--files-from'',
       ''/d/.rclouned/sync.tmp/local_backup.txt'', ''/d/'', ''--rmdirs''],
      [''rclone'', ''--dry-run'', ''copy'', ''--files-from'',
       ''/d/.rclouned/sync.tmp/remote_backup.txt'', ''r:s'',
       ''r:s.rclouned/backups/20240101-120001/''],
      [''rclone'', ''--dry-run'', ''delete'', ''--files-from'',
       ''/d/.rclouned/sync.tmp/remote_backup.txt'', ''r:s'', ''--rmdirs''],
      [''rclone'', ''--dry-run'', ''copy'', ''--files-from'',
       ''/d/.rclouned/sync.tmp/upload.txt'', ''/d/'', ''r:s''],
      [''rclone'', ''--dry-run'', ''copy'', ''--files-from'',
       ''/d/.rclouned/sync.tmp/download.txt'', ''r:s'', ''/d/'']]"
proof -
  have d1: "dryrun (configuration (new_sync dry_config (0::nat)))"
    by (simp add: new_sync_def dry_config_def)
  have c1: "configuration (new_sync dry_config (0::nat)) = dry_config"
    by (simp add: new_sync_def)
  have r1: "run example_env (new_sync dry_config 0) locked_world = (fst dry_cycle, snd dry_cycle)"
    by (simp add: dry_cycle_def)
  have d2: "dryrun (configuration dry_plan)"
    by (simp add: dry_plan_def dry_config_def)
  have r2: "action example_env dry_plan locked_world = (Inr (), snd dry_action)"
    using dry_action_result by (simp add: dry_action_def [symmetric] prod_eq_iff)
  have m: "lastsync_txt locked_world = Some [''2024-01-01 00:01:40'']"
    and k: "calls locked_world = []"
    by (simp_all add: locked_world_def example_world_def)
  note t = dry_run_cycle [OF d1 r1 d2 r2, unfolded c1 m k]
  have s: "step_local_backup (configuration dry_plan) (clock_action example_env) dry_plan @
           step_remote_backup (configuration dry_plan) (clock_action example_env) dry_plan @
           step_upload (configuration dry_plan) dry_plan @
           step_download (configuration dry_plan) dry_plan =
     [[''rclone'', ''--dry-run'', ''copy'', ''--files-from'',
       ''/d/.rclouned/sync.tmp/local_backup.txt'', ''/d/'',
       ''/d/.rclouned/backups/20240101-120001/''],
      [''rclone'', ''--dry-run'', ''delete'', ''--files-from'',
       ''/d/.rclouned/sync.tmp/local_backup.txt'', ''/d/'', ''--rmdirs''],
      [''rclone'', ''--dry-run'', ''copy'', ''--files-from'',
       ''/d/.rclouned/sync.tmp/remote_backup.txt'', ''r:s'',
       ''r:s.rclouned/backups/20240101-120001/''],
      [''rclone'', ''--dry-run'', ''delete'', ''--files-from'',
       ''/d/.rclouned/sync.tmp/remote_backup.txt'', ''r:s'', ''--rmdirs''],
      [''rclone'', ''--dry-run'', ''copy'', ''--files-from'',
       ''/d/.rclouned/sync.tmp/upload.txt'', ''/d/'', ''r:s''],
      [''rclone'', ''--dry-run'', ''copy'', ''--files-from'',
       ''/d/.rclouned/sync.tmp/download.txt'', ''r:s'', ''/d/'']]"
    by (simp add: step_local_backup_def step_remote_backup_def
        step_upload_def step_download_def rclone_argv_def rclone_opts_def
        example_defs)
  from t have t1: "lastsync_txt (snd dry_cycle) = Some [''2024-01-01 00:01:40'']"
    and t2: "list_all (\<lambda>k. simulated dry_config (argv k)) (new_calls locked_world (snd dry_cycle))"
    and t3: "map argv (calls (snd dry_action)) =
           step_local_backup (configuration dry_plan) (clock_action example_env) dry_plan @
           step_remote_backup (configuration dry_plan) (clock_action example_env) dry_plan @
           step_upload (configuration dry_plan) dry_plan @
           step_download (configuration dry_plan) dry_plan"
    by (simp_all add: list_all_iff)
  from d1 r1 d2 r2 t1 t2 t3 [unfolded s] show ?thesis by (intro conjI)
qed

text \<open>The commands of the dry cycle of the example: steps 2 and 3 are not suppressed, their
  copy and delete commands go to the backend with \<^verbatim>\<open>--dry-run\<close>.\<close>

theorem dry_run_cycle_counterexample:
  "dryrun dry_config \<and>
   map argv (calls (snd dry_cycle)) =
     [[''rclone'', ''check'', ''--differ'', ''/d/.rclouned/sync.tmp/diff.txt'',
       ''--missing-on-dst'', ''/d/.rclouned/sync.tmp/dst.txt'',
       ''--missing-on-src'', ''/d/.rclouned/sync.tmp/src.txt'', ''--exclude'',
       ''.rclouned/**'', ''r:s'', ''/d/''],
      [''rclone'', ''--dry-run'', ''lsf'', ''--format'', ''pt'', ''-R'', ''--files-from'',
       ''/d/.rclouned/sync.tmp/local_check.txt'', ''/d/''],
      [''rclone'', ''--dry-run'', ''lsf'', ''--format'', ''pt'', ''-R'', ''--files-from'',
       ''/d/.rclouned/sync.tmp/remote_check.txt'', ''r:s''],
      [''rclone'', ''--dry-run'', ''copy'', ''--files-from'',
       ''/d/.rclouned/sync.tmp/local_backup.txt'', ''/d/'',
       ''/d/.rclouned/backups/20240101-120001/''],
      [''rclone'', ''--dry-run'', ''delete'', ''--files-from'',
       ''/d/.rclouned/sync.tmp/local_backup.txt'', ''/d/'', ''--rmdirs''],
      [''rclone'', ''--dry-run'', ''copy'', ''--files-from'',
       ''/d/.rclouned/sync.tmp/remote_backup.txt'', ''r:s'',
       ''r:s.rclouned/backups/20240101-120001/''],
      [''rclone'', ''--dry-run'', ''delete'', ''--files-from'',
       ''/d/.rclouned/sync.tmp/remote_backup.txt'', ''r:s'', ''--rmdirs''],
      [''rclone'', ''--dry-run'', ''copy'', ''--files-from'',
       ''/d/.rclouned/sync.tmp/upload.txt'', ''/d/'', ''r:s''],
      [''rclone'', ''--dry-run'', ''copy'', ''--files-from'',
       ''/d/.rclouned/sync.tmp/download.txt'', ''r:s'', ''/d/'']]"
  by (simp add: dry_cycle_def world_defs planner_defs example_defs)



section \<open>Claims about the loop and the lock\<close>

text \<open>
  C5 (corrected). One pass of the loop takes the lock, runs the cycle and calls
  \<^verbatim>\<open>release_lock\<close> on whatever the cycle leaves, on every way out: the pass ends with the
  exception of the cycle, or goes on (or exits on an interrupt) when the cycle returned,
  and in every case the disk after the pass is the one \<^verbatim>\<open>release_lock\<close> leaves.
  \<^verbatim>\<open>release_lock\<close> removes the lock directory with \<^verbatim>\<open>os.rmdir\<close>, which succeeds on an
  empty directory only, and it swallows the failure. When the cycle ends the directory
  still exists, with the files \<open>fs\<close>; a cycle that returns leaves none. If \<open>fs\<close> is empty
  the directory is gone after the pass and nothing is logged. If the cycle ended with an
  exception that left a list file, the directory is still there after the pass, with
  the same files, and the warning \<^verbatim>\<open>Failed to remove Sync Lock.\<close> and the \<^verbatim>\<open>OSError\<close> have
  been logged.\<close>

theorem lock_after_cycle:
  assumes "acquire_lock w = Some w1" and "run e (new_sync c (epoch e)) w1 = (r, w2)"
  shows "sync_loop_body e c w =
           Some (case r of Inl x \<Rightarrow> Raise x
                 | Inr _ \<Rightarrow> if interrupted e then Exit 0 else Continue,
                 release_lock w2) \<and>
         (\<exists>fs. sync_tmp w2 = Some fs \<and>
            (\<not> isl r \<longrightarrow> fs = []) \<and>
            (fs = [] \<longrightarrow>
               sync_tmp (release_lock w2) = None \<and> logged (release_lock w2) = logged w2) \<and>
            (fs \<noteq> [] \<longrightarrow>
               sync_tmp (release_lock w2) = Some fs \<and>
               logged (release_lock w2) =
                 logged w2 @ [Log_warning ''Failed to remove Sync Lock.'',
                              Log_exception OSError]))"
proof -
  from acquire_Some [OF assms(1)] have w1: "sync_tmp w1 = Some []" by simp
  have body: "sync_loop_body e c w =
           Some (case r of Inl x \<Rightarrow> Raise x
                 | Inr _ \<Rightarrow> if interrupted e then Exit 0 else Continue,
                 release_lock w2)"
  proof (cases r)
    case (Inr s')
    with assms show ?thesis by (simp add: sync_loop_body_def try_run_def)
  next
    case (Inl x)
    with assms(2) have "x \<noteq> SyncException" using neverD [OF never_run] by simp
    with assms(2) Inl have "try_run e c w1 = (Some x, release_lock w2)"
      by (cases x) (simp_all add: try_run_def)
    with assms(1) Inl show ?thesis by (simp add: sync_loop_body_def)
  qed
  from keepsD [OF dir_run assms(2)] w1 obtain fs where fs: "sync_tmp w2 = Some fs"
    by (auto simp: dir_kept_def)
  have ret: "fs = []" if "\<not> isl r"
  proof -
    from that obtain s' where "r = Inr s'" by (cases r) auto
    with assms(2) have "sync_tmp w2 = Some []" using tidyD [OF tidy_run w1] by simp
    with fs show ?thesis by simp
  qed
  have e: "sync_tmp (release_lock w2) = None \<and> logged (release_lock w2) = logged w2"
    if "fs = []"
    using that fs by (simp add: release_lock_def)
  have n: "sync_tmp (release_lock w2) = Some fs \<and>
               logged (release_lock w2) =
                 logged w2 @ [Log_warning ''Failed to remove Sync Lock.'',
                              Log_exception OSError]"
    if "fs \<noteq> []"
    using release_kept [OF fs that] by simp
  from fs ret e n have "\<exists>fs. sync_tmp w2 = Some fs \<and>
            (\<not> isl r \<longrightarrow> fs = []) \<and>
            (fs = [] \<longrightarrow>
               sync_tmp (release_lock w2) = None \<and> logged (release_lock w2) = logged w2) \<and>
            (fs \<noteq> [] \<longrightarrow>
               sync_tmp (release_lock w2) = Some fs \<and>
               logged (release_lock w2) =
                 logged w2 @ [Log_warning ''Failed to remove Sync Lock.'',
                              Log_exception OSError])"
    by blast
  with body show ?thesis by (rule conjI)
qed

text \<open>The cycle of the example completes, and the lock is gone after it. With a backend
  whose copy command fails, the cycle ends in the second step of the executor with
  \<^verbatim>\<open>local_backup.txt\<close> in the lock directory, and the directory is still there after the
  pass.\<close>

theorem lock_after_cycle_witness:
  "acquire_lock example_world = Some locked_world \<and>
   run example_env (new_sync example_config (epoch example_env)) locked_world =
     (Inr (example_plan\<lparr>syncstart := ''2024-01-01 00:03:20''\<rparr>), snd example_cycle) \<and>
   sync_loop_body example_env example_config example_world =
     Some (Continue, release_lock (snd example_cycle)) \<and>
   sync_tmp (snd example_cycle) = Some [] \<and>
   sync_tmp (release_lock (snd example_cycle)) = None \<and>
   logged (release_lock (snd example_cycle)) = logged (snd example_cycle) \<and>
   run copy_fails_env (new_sync example_config (epoch copy_fails_env)) locked_world =
     (Inl CalledProcessError, snd copy_fails_cycle) \<and>
   sync_loop_body copy_fails_env example_config example_world =
     Some (Raise CalledProcessError, release_lock (snd copy_fails_cycle)) \<and>
   sync_tmp (snd copy_fails_cycle) = Some [(''local_backup.txt'', [''c.txt''])] \<and>
   sync_tmp (release_lock (snd copy_fails_cycle)) =
     Some [(''local_backup.txt'', [''c.txt''])] \<and>
   logged (release_lock (snd copy_fails_cycle)) =
     logged (snd copy_fails_cycle) @
     [Log_warning ''Failed to remove Sync Lock.'', Log_exception OSError]"
proof -
  have a: "acquire_lock example_world = Some locked_world"
    by (simp add: acquire_free example_world_free locked_world_def)
  have e1: "epoch example_env = 0" and i: "\<not> interrupted example_env"
    and e2: "epoch copy_fails_env = 0"
    by (simp_all add: example_env_def copy_fails_env_def)
  have "run example_env (new_sync example_config (epoch example_env)) locked_world =
      example_cycle"
    by (simp only: e1 example_cycle_def)
  with example_cycle_result
  have r1: "run example_env (new_sync example_config (epoch example_env)) locked_world =
      (Inr (example_plan\<lparr>syncstart := ''2024-01-01 00:03:20''\<rparr>), snd example_cycle)"
    by (simp add: prod_eq_iff)
  have "run copy_fails_env (new_sync example_config (epoch copy_fails_env)) locked_world =
      copy_fails_cycle"
    by (simp only: e2 copy_fails_cycle_def)
  with copy_fails_cycle_result
  have r2: "run copy_fails_env (new_sync example_config (epoch copy_fails_env)) locked_world =
      (Inl CalledProcessError, snd copy_fails_cycle)"
    by (simp add: prod_eq_iff)
  from lock_after_cycle [OF a r1] i
  have b1: "sync_loop_body example_env example_config example_world =
     Some (Continue, release_lock (snd example_cycle))"
    and t1: "sync_tmp (snd example_cycle) = Some []"
    and u1: "sync_tmp (release_lock (snd example_cycle)) = None"
    and l1: "logged (release_lock (snd example_cycle)) = logged (snd example_cycle)"
    by auto
  from lock_after_cycle [OF a r2] copy_fails_cycle_tmp
  have b2: "sync_loop_body copy_fails_env example_config example_world =
     Some (Raise CalledProcessError, release_lock (snd copy_fails_cycle))"
    and u2: "sync_tmp (release_lock (snd copy_fails_cycle)) =
     Some [(''local_backup.txt'', [''c.txt''])]"
    and l2: "logged (release_lock (snd copy_fails_cycle)) =
     logged (snd copy_fails_cycle) @
     [Log_warning ''Failed to remove Sync Lock.'', Log_exception OSError]"
    by auto
  from a r1 b1 t1 u1 l1 r2 b2 copy_fails_cycle_tmp u2 l2 show ?thesis by (intro conjI)
qed

text \<open>The claim as stated fails with the backend whose copy command fails: the lock marker
  exists after the cleanup, and the next \<^verbatim>\<open>acquire_lock\<close> never returns.\<close>

theorem lock_after_cycle_counterexample:
  "sync_loop_body copy_fails_env example_config example_world =
     Some (Raise CalledProcessError, release_lock (snd copy_fails_cycle)) \<and>
   sync_tmp (release_lock (snd copy_fails_cycle)) =
     Some [(''local_backup.txt'', [''c.txt''])] \<and>
   acquire_lock (release_lock (snd copy_fails_cycle)) = None"
proof -
  have e0: "epoch copy_fails_env = 0"
    by (simp add: copy_fails_env_def example_env_def)
  have "run copy_fails_env (new_sync example_config (epoch copy_fails_env))
      (example_world\<lparr>sync_tmp := Some []\<rparr>) = copy_fails_cycle"
    by (simp only: e0 copy_fails_cycle_def locked_world_def)
  with copy_fails_cycle_result
  have r: "run copy_fails_env (new_sync example_config (epoch copy_fails_env))
      (example_world\<lparr>sync_tmp := Some []\<rparr>) = (Inl CalledProcessError, snd copy_fails_cycle)"
    by (simp add: prod_eq_iff)
  note b = sync_loop_body_raises [OF example_world_free r]
  have t: "sync_tmp (release_lock (snd copy_fails_cycle)) =
     Some [(''local_backup.txt'', [''c.txt''])]"
    by (simp add: release_lock_def warn_def log_exception_def copy_fails_cycle_tmp)
  then have "acquire_lock (release_lock (snd copy_fails_cycle)) = None"
    by (intro acquire_held) simp
  with b t show ?thesis by (intro conjI)
qed

text \<open>
  C4 (code bug). The handler of the loop takes \<^verbatim>\<open>SyncException\<close>, and nothing in the program
  raises it: \<^verbatim>\<open>run\<close> never ends with it (\<open>never_run\<close>). So every exception of a cycle, the
  \<^verbatim>\<open>CalledProcessError\<close> of a failed backend command and the \<^verbatim>\<open>TypeError\<close> of a path
  without modification time among them, passes the handler: \<^verbatim>\<open>release_lock\<close> runs, the
  exception leaves \<^verbatim>\<open>sync_loop\<close>, no further cycle starts, and \<^verbatim>\<open>main\<close> logs the critical
  error and the exception and exits with status 1. The theorem is about pass \<open>i\<close> of the
  loop, started on the disk \<open>w\<close>; for the first pass it gives the result of \<^verbatim>\<open>main\<close>.\<close>

theorem cycle_error_is_fatal:
  assumes "acquire_lock w = Some w1"
    and "run (envs i) (new_sync c (epoch (envs i))) w1 = (Inl x, w2)"
  shows "sync_loop envs c i w = Some (Raise x, release_lock w2) \<and>
         (i = 0 \<and> parse_config has_dir yaml given = Inr c \<longrightarrow>
            main has_dir yaml given envs w =
              Some (1, log_exception x
                         (critical ''rclouned encountered a critical error and cannot continue.''
                            (release_lock w2))))"
proof -
  have "x \<noteq> SyncException" by (rule neverD [OF never_run assms(2)])
  with assms(2) have "try_run (envs i) c w1 = (Some x, release_lock w2)"
    by (cases x) (simp_all add: try_run_def)
  with assms(1) have "sync_loop_body (envs i) c w = Some (Raise x, release_lock w2)"
    by (simp add: sync_loop_body_def)
  then have l: "sync_loop envs c i w = Some (Raise x, release_lock w2)"
    by (subst sync_loop.simps) simp
  then show ?thesis by (auto simp: main_def)
qed

text \<open>The two errors that the specification names, in the first cycle: a listing command
  that exits with status 1, and a remote listing that lacks a path of the diff.\<close>

theorem cycle_error_is_fatal_witness:
  "acquire_lock example_world = Some locked_world \<and>
   parse_config True (Some (Loads_dict (\<lambda>c. c))) (example_config\<lparr>folder := ''/d''\<rparr>) = Inr example_config \<and>
   run lsf_fails_env (new_sync example_config (epoch lsf_fails_env)) locked_world =
     (Inl CalledProcessError, snd lsf_fails_cycle) \<and>
   sync_loop (\<lambda>i. lsf_fails_env) example_config 0 example_world =
     Some (Raise CalledProcessError, release_lock (snd lsf_fails_cycle)) \<and>
   main True (Some (Loads_dict (\<lambda>c. c))) (example_config\<lparr>folder := ''/d''\<rparr>) (\<lambda>i. lsf_fails_env)
       example_world =
     Some (1, log_exception CalledProcessError
                (critical ''rclouned encountered a critical error and cannot continue.''
                   (release_lock (snd lsf_fails_cycle)))) \<and>
   run silent_env (new_sync example_config (epoch silent_env)) locked_world =
     (Inl TypeError, snd silent_cycle) \<and>
   main True (Some (Loads_dict (\<lambda>c. c))) (example_config\<lparr>folder := ''/d''\<rparr>) (\<lambda>i. silent_env)
       example_world =
     Some (1, log_exception TypeError
                (critical ''rclouned encountered a critical error and cannot continue.''
                   (release_lock (snd silent_cycle))))"
proof -
  have a: "acquire_lock example_world = Some locked_world"
    by (simp add: acquire_free example_world_free locked_world_def)
  have p: "parse_config True (Some (Loads_dict (\<lambda>c. c))) (example_config\<lparr>folder := ''/d''\<rparr>) =
      Inr example_config"
    by (simp add: parse_config_def example_config_def)
  have e1: "epoch lsf_fails_env = 0" and e2: "epoch silent_env = 0"
    by (simp_all add: lsf_fails_env_def silent_env_def example_env_def)
  have "run lsf_fails_env (new_sync example_config (epoch lsf_fails_env)) locked_world =
      lsf_fails_cycle"
    by (simp only: e1 lsf_fails_cycle_def)
  with lsf_fails_cycle_result
  have r1: "run lsf_fails_env (new_sync example_config (epoch lsf_fails_env)) locked_world =
     (Inl CalledProcessError, snd lsf_fails_cycle)"
    by (simp add: prod_eq_iff)
  have "run silent_env (new_sync example_config (epoch silent_env)) locked_world =
      silent_cycle"
    by (simp only: e2 silent_cycle_def)
  with silent_cycle_result
  have r2: "run silent_env (new_sync example_config (epoch silent_env)) locked_world =
     (Inl TypeError, snd silent_cycle)"
    by (simp add: prod_eq_iff)
  note t1 = cycle_error_is_fatal [where envs = "\<lambda>i. lsf_fails_env" and i = 0
      and has_dir = True and yaml = "Some (Loads_dict (\<lambda>c. c))"
      and given = "example_config\<lparr>folder := ''/d''\<rparr>", OF a r1]
  note t2 = cycle_error_is_fatal [where envs = "\<lambda>i. silent_env" and i = 0
      and has_dir = True and yaml = "Some (Loads_dict (\<lambda>c. c))"
      and given = "example_config\<lparr>folder := ''/d''\<rparr>", OF a r2]
  from t1 p have l1: "sync_loop (\<lambda>i. lsf_fails_env) example_config 0 example_world =
     Some (Raise CalledProcessError, release_lock (snd lsf_fails_cycle))"
    and m1: "main True (Some (Loads_dict (\<lambda>c. c))) (example_config\<lparr>folder := ''/d''\<rparr>)
       (\<lambda>i. lsf_fails_env) example_world =
     Some (1, log_exception CalledProcessError
                (critical ''rclouned encountered a critical error and cannot continue.''
                   (release_lock (snd lsf_fails_cycle))))"
    by simp_all
  from t2 p have m2: "main True (Some (Loads_dict (\<lambda>c. c))) (example_config\<lparr>folder := ''/d''\<rparr>)
       (\<lambda>i. silent_env) example_world =
     Some (1, log_exception TypeError
                (critical ''rclouned encountered a critical error and cannot continue.''
                   (release_lock (snd silent_cycle))))"
    by simp
  from a p r1 l1 m1 r2 m2 show ?thesis by (intro conjI)
qed

end
